theory Spec2Isabelle
  imports Complex_Main
begin

section \<open>Python values shared by the hooks and the mosaic transform\<close>

text \<open>
  The exceptions the modelled code can raise. A function that may raise returns
  \<open>py_error + 'a\<close>, with \<open>Inl\<close> for the exception.
\<close>

datatype py_error =
    KeyError | AttributeError | ZeroDivisionError | OverflowError | RuntimeError | ValueError
  | AssertionError

text \<open>
  A Python \<open>dict\<close> keeps insertion order; assigning to a key that is present replaces
  the value where the key stands, assigning to a new key appends it.
\<close>

type_synonym 'v pydict = "(string \<times> 'v) list"

fun dict_get :: "'v pydict \<Rightarrow> string \<Rightarrow> 'v option" where
  "dict_get [] k = None"
| "dict_get ((k', v) # d) k = (if k' = k then Some v else dict_get d k)"

fun dict_set :: "'v pydict \<Rightarrow> string \<Rightarrow> 'v \<Rightarrow> 'v pydict" where
  "dict_set [] k v = [(k, v)]"
| "dict_set ((k', v') # d) k v = (if k' = k then (k, v) # d else (k', v') # dict_set d k v)"

fun dict_of_pairs :: "(string \<times> 'v) list \<Rightarrow> 'v pydict \<Rightarrow> 'v pydict" where
  "dict_of_pairs [] d = d"
| "dict_of_pairs ((k, v) # kvs) d = dict_of_pairs kvs (dict_set d k v)"

section \<open>AMPGradAccumulateOptimizerHook\<close>

text \<open>
  The hook keeps \<open>accumulation\<close> (keyword argument, default 1) and, when gradient
  clipping is configured (\<open>grad_clip is not None\<close>), \<open>grad_clip['max_norm']\<close>
  together with its initial value \<open>grad_clip_base\<close>, an attribute \<open>__init__\<close> sets
  only then. The runner, the model, the optimizer and the \<open>GradScaler\<close> are
  collaborators: every call the hook makes on them is recorded as an event, in call
  order. What the hook reads back from them in one iteration (\<open>scaler.get_scale()\<close>
  and the value of \<open>clip_grads\<close>) is given by \<open>iter_env\<close>.
\<close>

datatype opt_event =
    ModelZeroGrad
  | OptimizerZeroGrad
  | Backward
  | ClipGrads real
  | LogGradNorm real real
  | ScalerStep
  | ScalerUpdate

record amp_hook =
  accumulation :: int
  grad_clip :: "real option"
  grad_clip_base :: "real option"

record iter_env =
  scaler_scale :: real
  clipped_norm :: "real option"

definition amp_init :: "int \<Rightarrow> real option \<Rightarrow> amp_hook" where
  "amp_init acc clip = \<lparr>accumulation = acc, grad_clip = clip, grad_clip_base = clip\<rparr>"

definition amp_before_train_iter :: "amp_hook \<Rightarrow> int \<Rightarrow> py_error + opt_event list" where
  "amp_before_train_iter h it =
     (if accumulation h = 0 then Inl ZeroDivisionError
      else if it mod accumulation h = 0 then Inr [ModelZeroGrad, OptimizerZeroGrad]
      else Inr [])"

definition amp_after_train_iter ::
  "amp_hook \<Rightarrow> int \<Rightarrow> iter_env \<Rightarrow> py_error + (opt_event list \<times> amp_hook)" where
  "amp_after_train_iter h it env =
     (if accumulation h = 0 then Inl ZeroDivisionError
      else if (it + 1) mod accumulation h = 0 then
        (case grad_clip h of
           None \<Rightarrow> Inr ([Backward, ScalerStep, ScalerUpdate], h)
         | Some _ \<Rightarrow>
             (case grad_clip_base h of
                None \<Rightarrow> Inl AttributeError
              | Some base \<Rightarrow>
                  (let scale = scaler_scale env;
                       max_norm = base * scale;
                       h' = h\<lparr>grad_clip := Some max_norm\<rparr>
                   in case clipped_norm env of
                        None \<Rightarrow> Inr ([Backward, ClipGrads max_norm, ScalerStep, ScalerUpdate], h')
                      | Some grad_norm \<Rightarrow>
                          if scale = 0 then Inl ZeroDivisionError
                          else Inr ([Backward, ClipGrads max_norm,
                                     LogGradNorm (grad_norm / scale) scale,
                                     ScalerStep, ScalerUpdate], h'))))
      else Inr ([Backward], h))"

text \<open>
  The runner calls \<open>before_train_iter\<close> and \<open>after_train_iter\<close> once per iteration,
  in this order. \<open>run_iters\<close> is that loop over the given iterations; the log pairs
  every event with the iteration it happened in.
\<close>

fun run_iters ::
  "amp_hook \<Rightarrow> (int \<times> iter_env) list \<Rightarrow> (int \<times> opt_event) list
     \<Rightarrow> py_error + ((int \<times> opt_event) list \<times> amp_hook)" where
  "run_iters h [] tr = Inr (tr, h)"
| "run_iters h ((it, env) # rest) tr =
     (case amp_before_train_iter h it of
        Inl e \<Rightarrow> Inl e
      | Inr evs1 \<Rightarrow>
          (case amp_after_train_iter h it env of
             Inl e \<Rightarrow> Inl e
           | Inr (evs2, h') \<Rightarrow> run_iters h' rest (tr @ map (Pair it) (evs1 @ evs2))))"

definition events_of :: "opt_event \<Rightarrow> (int \<times> opt_event) list \<Rightarrow> int list" where
  "events_of ev tr = map fst (filter (\<lambda>(it, e). e = ev) tr)"

text \<open>An iteration in which the scaler's scale is 1 and \<open>clip_grads\<close> returns nothing.\<close>

definition plain_env :: iter_env where
  "plain_env = \<lparr>scaler_scale = 1, clipped_norm = None\<rparr>"

section \<open>YOLOV4EMAHook: the warm-up momentum\<close>

text \<open>
  \<open>momentum = self.momentum * (1 - math.exp(-runner.iter / self.warm_up))\<close>.
  Python floats are taken as real numbers. The division raises \<open>ZeroDivisionError\<close>
  when \<open>warm_up\<close> is 0, and \<open>math.exp\<close> raises \<open>OverflowError\<close> when its result is
  beyond the largest float, \<open>(2 - 1 / 2 ^ 52) * 2 ^ 1023\<close>: that is for an argument
  above 709.78, which takes a negative \<open>warm_up\<close>.
\<close>

definition momentum_t :: "real \<Rightarrow> real \<Rightarrow> int \<Rightarrow> real" where
  "momentum_t mb wu it = mb * (1 - exp (- real_of_int it / wu))"

definition max_float :: real where
  "max_float = (2 - 1 / 2 ^ 52) * 2 ^ 1023"

definition ema_momentum :: "real \<Rightarrow> real \<Rightarrow> int \<Rightarrow> py_error + real" where
  "ema_momentum mb wu it =
     (if wu = 0 then Inl ZeroDivisionError
      else if max_float < exp (- real_of_int it / wu) then Inl OverflowError
      else Inr (momentum_t mb wu it))"

section \<open>YOLOV4EMAHook: tensors, the model and the hook\<close>

text \<open>
  Tensors are objects that several dictionaries may refer to (the model's parameters are
  also held by the hook's \<open>model_parameters\<close>, its buffers by \<open>model_buffers\<close>), and the
  hook mutates them in place. A tensor is therefore an address into a heap of cells; a
  cell holds the dtype's \<open>is_floating_point\<close> and the values, flattened (floats taken as
  real numbers). \<open>next_free\<close> is the first address never used, where \<open>clone\<close>
  allocates.
\<close>

type_synonym addr = nat

record tensor =
  is_floating_point :: bool
  data :: "real list"

record heap =
  cells :: "addr \<Rightarrow> tensor"
  next_free :: addr

text \<open>\<open>t.data.clone()\<close>: a new tensor with the dtype and the values of \<open>t\<close>.\<close>

definition clone :: "heap \<Rightarrow> addr \<Rightarrow> addr \<times> heap" where
  "clone hp a =
     (next_free hp,
      hp\<lparr>cells := (cells hp)(next_free hp := cells hp a), next_free := Suc (next_free hp)\<rparr>)"

text \<open>\<open>t.mul_(c)\<close>: every value of \<open>t\<close> times the number \<open>c\<close>, in place.\<close>

definition mul_in_place :: "heap \<Rightarrow> addr \<Rightarrow> real \<Rightarrow> heap" where
  "mul_in_place hp a c =
     hp\<lparr>cells := (cells hp)(a := (cells hp a)\<lparr>data := map (\<lambda>x. x * c) (data (cells hp a))\<rparr>)\<rparr>"

text \<open>
  \<open>t.add_(alpha, other)\<close>: \<open>t += alpha * other\<close> elementwise, in place. Tensors of
  different sizes raise (broadcasting between different shapes is not modelled).
\<close>

definition add_in_place :: "heap \<Rightarrow> addr \<Rightarrow> real \<Rightarrow> addr \<Rightarrow> py_error + heap" where
  "add_in_place hp a alpha b =
     (if length (data (cells hp b)) \<noteq> length (data (cells hp a)) then Inl RuntimeError
      else Inr (hp\<lparr>cells := (cells hp)(a := (cells hp a)
                  \<lparr>data := map2 (\<lambda>x y. x + alpha * y) (data (cells hp a)) (data (cells hp b))\<rparr>)\<rparr>))"

text \<open>
  \<open>t.data.copy_(src)\<close>: the values of \<open>src\<close> written into \<open>t\<close>, in place; \<open>t\<close> keeps
  its dtype. Different sizes raise.
\<close>

definition copy_in_place :: "heap \<Rightarrow> addr \<Rightarrow> real list \<Rightarrow> py_error + heap" where
  "copy_in_place hp a src =
     (if length src \<noteq> length (data (cells hp a)) then Inl RuntimeError
      else Inr (hp\<lparr>cells := (cells hp)(a := (cells hp a)\<lparr>data := src\<rparr>)\<rparr>))"

text \<open>
  The model (\<open>runner.model\<close>, unwrapped): \<open>named_parameters(recurse=True)\<close> and
  \<open>named_buffers(recurse=True)\<close> as lists of name and tensor, and the names of the
  other attributes of the module object (submodules, methods, fields).
  \<open>register_buffer\<close> refuses a name with a dot, the empty name, and a name that is
  already an attribute but not a buffer; a name that is already a buffer is overwritten.
\<close>

record module =
  named_parameters :: "addr pydict"
  named_buffers :: "addr pydict"
  attributes :: "string list"

definition has_attr :: "module \<Rightarrow> string \<Rightarrow> bool" where
  "has_attr m name \<longleftrightarrow>
     name \<in> set (attributes m) \<or> name \<in> fst ` set (named_parameters m)
       \<or> name \<in> fst ` set (named_buffers m)"

definition register_buffer :: "module \<Rightarrow> string \<Rightarrow> addr \<Rightarrow> py_error + module" where
  "register_buffer m name a =
     (if CHR ''.'' \<in> set name then Inl KeyError
      else if name = [] then Inl KeyError
      else if has_attr m name \<and> dict_get (named_buffers m) name = None then Inl KeyError
      else Inr (m\<lparr>named_buffers := dict_set (named_buffers m) name a\<rparr>))"

text \<open>\<open>f"ema_{name.replace('.', '_')}"\<close>\<close>

definition ema_buffer_name :: "string \<Rightarrow> string" where
  "ema_buffer_name name = ''ema_'' @ map (\<lambda>c. if c = CHR ''.'' then CHR ''_'' else c) name"

text \<open>
  The hook: its configuration and the three dictionaries \<open>before_run\<close> sets. The
  runner gives the hook the iteration counter and the model.
\<close>

record ema_hook =
  momentum :: real
  interval :: int
  warm_up :: real
  checkpoint :: "string option"
  param_ema_buffer :: "string pydict"
  model_parameters :: "addr pydict"
  model_buffers :: "addr pydict"

record runner =
  r_iter :: int
  r_model :: module

definition ema_init :: "real \<Rightarrow> int \<Rightarrow> real \<Rightarrow> string option \<Rightarrow> py_error + ema_hook" where
  "ema_init mom intv wu resume_from =
     (if \<not> 0 < intv then Inl AssertionError
      else if \<not> (0 < mom \<and> mom < 1) then Inl AssertionError
      else Inr \<lparr>momentum = mom, interval = intv, warm_up = wu, checkpoint = resume_from,
                param_ema_buffer = [], model_parameters = [], model_buffers = []\<rparr>)"

text \<open>
  \<open>before_run\<close>, the loop over \<open>self.model_parameters.items()\<close>: the name map gets
  the buffer name, and a clone of the parameter is registered under it.
\<close>

fun register_loop ::
  "addr pydict \<Rightarrow> string pydict \<Rightarrow> module \<Rightarrow> heap
     \<Rightarrow> py_error + (string pydict \<times> module \<times> heap)" where
  "register_loop [] peb m hp = Inr (peb, m, hp)"
| "register_loop ((name, value) # rest) peb m hp =
     (let buffer_name = ema_buffer_name name;
          peb' = dict_set peb name buffer_name;
          (a, hp') = clone hp value
      in case register_buffer m buffer_name a of
           Inl e \<Rightarrow> Inl e
         | Inr m' \<Rightarrow> register_loop rest peb' m' hp')"

text \<open>
  \<open>before_run\<close> up to \<open>self.model_buffers = dict(model.named_buffers(recurse=True))\<close>.
\<close>

definition register_ema ::
  "ema_hook \<Rightarrow> module \<Rightarrow> heap \<Rightarrow> py_error + (ema_hook \<times> module \<times> heap)" where
  "register_ema h m hp =
     (let mp = dict_of_pairs (named_parameters m) []
      in case register_loop mp [] m hp of
           Inl e \<Rightarrow> Inl e
         | Inr (peb, m', hp') \<Rightarrow>
             Inr (h\<lparr>param_ema_buffer := peb, model_parameters := mp,
                     model_buffers := dict_of_pairs (named_buffers m') []\<rparr>, m', hp'))"

text \<open>
  \<open>before_run\<close>. \<open>runner.resume\<close> belongs to the runner: it is the parameter
  \<open>resume\<close>, which loads the checkpoint into the tensors of the model.
\<close>

definition ema_before_run ::
  "(string \<Rightarrow> module \<Rightarrow> heap \<Rightarrow> py_error + heap) \<Rightarrow> ema_hook \<Rightarrow> runner \<Rightarrow> heap
     \<Rightarrow> py_error + (ema_hook \<times> runner \<times> heap)" where
  "ema_before_run resume h r hp =
     (case register_ema h (r_model r) hp of
        Inl e \<Rightarrow> Inl e
      | Inr (h', m', hp') \<Rightarrow>
          (case checkpoint h of
             None \<Rightarrow> Inr (h', r\<lparr>r_model := m'\<rparr>, hp')
           | Some path \<Rightarrow>
               (case resume path m' hp' of
                  Inl e \<Rightarrow> Inl e
                | Inr hp'' \<Rightarrow> Inr (h', r\<lparr>r_model := m'\<rparr>, hp''))))"

text \<open>
  \<open>after_train_iter\<close>, the loop over \<open>self.model_parameters.items()\<close>. The momentum
  is computed in every round, before the dtype is looked at.
\<close>

fun update_loop :: "ema_hook \<Rightarrow> int \<Rightarrow> addr pydict \<Rightarrow> heap \<Rightarrow> py_error + heap" where
  "update_loop h it [] hp = Inr hp"
| "update_loop h it ((name, parameter) # rest) hp =
     (case ema_momentum (momentum h) (warm_up h) it of
        Inl e \<Rightarrow> Inl e
      | Inr mom \<Rightarrow>
          if is_floating_point (cells hp parameter) then
            (case dict_get (param_ema_buffer h) name of
               None \<Rightarrow> Inl KeyError
             | Some buffer_name \<Rightarrow>
                 (case dict_get (model_buffers h) buffer_name of
                    None \<Rightarrow> Inl KeyError
                  | Some buffer_parameter \<Rightarrow>
                      (case add_in_place (mul_in_place hp buffer_parameter mom) buffer_parameter (1 - mom) parameter of
                         Inl e \<Rightarrow> Inl e
                       | Inr hp' \<Rightarrow> update_loop h it rest hp')))
          else update_loop h it rest hp)"

definition ema_after_train_iter :: "ema_hook \<Rightarrow> runner \<Rightarrow> heap \<Rightarrow> py_error + heap" where
  "ema_after_train_iter h r hp =
     (if interval h = 0 then Inl ZeroDivisionError
      else if (r_iter r + 1) mod interval h \<noteq> 0 then Inr hp
      else update_loop h (r_iter r) (model_parameters h) hp)"

text \<open>
  \<open>_swap_ema_parameters\<close>, the loop over \<open>self.model_parameters.items()\<close>. \<open>temp\<close>
  is a private copy of the parameter's values.
\<close>

fun swap_loop :: "ema_hook \<Rightarrow> addr pydict \<Rightarrow> heap \<Rightarrow> py_error + heap" where
  "swap_loop h [] hp = Inr hp"
| "swap_loop h ((name, value) # rest) hp =
     (let temp = data (cells hp value)
      in case dict_get (param_ema_buffer h) name of
           None \<Rightarrow> Inl KeyError
         | Some buffer_name \<Rightarrow>
             (case dict_get (model_buffers h) buffer_name of
                None \<Rightarrow> Inl KeyError
              | Some ema_buffer \<Rightarrow>
                  (case copy_in_place hp value (data (cells hp ema_buffer)) of
                     Inl e \<Rightarrow> Inl e
                   | Inr hp1 \<Rightarrow>
                       (case copy_in_place hp1 ema_buffer temp of
                          Inl e \<Rightarrow> Inl e
                        | Inr hp2 \<Rightarrow> swap_loop h rest hp2))))"

definition swap_ema_parameters :: "ema_hook \<Rightarrow> heap \<Rightarrow> py_error + heap" where
  "swap_ema_parameters h hp = swap_loop h (model_parameters h) hp"

definition ema_after_train_epoch :: "ema_hook \<Rightarrow> runner \<Rightarrow> heap \<Rightarrow> py_error + heap" where
  "ema_after_train_epoch h r hp = swap_ema_parameters h hp"

definition ema_before_train_epoch :: "ema_hook \<Rightarrow> runner \<Rightarrow> heap \<Rightarrow> py_error + heap" where
  "ema_before_train_epoch h r hp = swap_ema_parameters h hp"

section \<open>YOLOV4EMAHook: the shadow store as the hook holds it\<close>

text \<open>
  The shadow buffer of a parameter name is found as the loops find it:
  \<open>self.model_buffers[self.param_ema_buffer[name]]\<close>.
\<close>

definition shadow_of :: "ema_hook \<Rightarrow> string \<Rightarrow> addr option" where
  "shadow_of h n =
     (case dict_get (param_ema_buffer h) n of
        None \<Rightarrow> None
      | Some buffer_name \<Rightarrow> dict_get (model_buffers h) buffer_name)"

text \<open>
  An entry of \<open>model_parameters\<close> is in order when its shadow buffer is found, is a
  tensor other than the parameter and has the parameter's size. \<open>before_run\<close> leaves
  every entry so when no two parameter names are given the same buffer name (lemma
  \<open>register_ema_establishes\<close>).
\<close>

definition entry_ok :: "ema_hook \<Rightarrow> heap \<Rightarrow> string \<times> addr \<Rightarrow> bool" where
  "entry_ok h hp e =
     (case shadow_of h (fst e) of
        None \<Rightarrow> False
      | Some b \<Rightarrow> b \<noteq> snd e \<and> length (data (cells hp b)) = length (data (cells hp (snd e))))"

definition entries_ok :: "ema_hook \<Rightarrow> heap \<Rightarrow> bool" where
  "entries_ok h hp = list_all (entry_ok h hp) (model_parameters h)"

text \<open>
  The shadow buffers of the entries, in order, and the relationship of the data model:
  the parameters and their shadow buffers are pairwise different tensors.
\<close>

definition shadows :: "ema_hook \<Rightarrow> addr pydict \<Rightarrow> addr list" where
  "shadows h ps = map (\<lambda>e. the (shadow_of h (fst e))) ps"

definition one_to_one :: "ema_hook \<Rightarrow> bool" where
  "one_to_one h \<longleftrightarrow>
     distinct (map snd (model_parameters h) @ shadows h (model_parameters h))"

text \<open>
  The update rule in the spec's words, \<open>shadow = momentum*shadow + (1-momentum)*current_value\<close>,
  elementwise, and the store operations \<open>update\<close> and \<open>swap\<close> for one entry: the
  first overwrites the values of the shadow buffer of a floating-point parameter, the
  second exchanges the values of the parameter and of its shadow buffer.
\<close>

definition ema_formula :: "real \<Rightarrow> real list \<Rightarrow> real list \<Rightarrow> real list" where
  "ema_formula mom shadow current = map2 (\<lambda>s c. mom * s + (1 - mom) * c) shadow current"

definition set_data :: "heap \<Rightarrow> addr \<Rightarrow> real list \<Rightarrow> heap" where
  "set_data hp a xs = hp\<lparr>cells := (cells hp)(a := (cells hp a)\<lparr>data := xs\<rparr>)\<rparr>"

definition shadow_update :: "ema_hook \<Rightarrow> real \<Rightarrow> heap \<Rightarrow> string \<times> addr \<Rightarrow> heap" where
  "shadow_update h mom hp e =
     (if is_floating_point (cells hp (snd e)) then
        (case shadow_of h (fst e) of
           None \<Rightarrow> hp
         | Some b \<Rightarrow> set_data hp b (ema_formula mom (data (cells hp b)) (data (cells hp (snd e)))))
      else hp)"

definition shadow_swap :: "ema_hook \<Rightarrow> heap \<Rightarrow> string \<times> addr \<Rightarrow> heap" where
  "shadow_swap h hp e =
     (case shadow_of h (fst e) of
        None \<Rightarrow> hp
      | Some b \<Rightarrow> set_data (set_data hp (snd e) (data (cells hp b))) b (data (cells hp (snd e))))"

text \<open>Two heaps whose tensors have the same sizes and dtypes.\<close>

definition same_sizes :: "heap \<Rightarrow> heap \<Rightarrow> bool" where
  "same_sizes hp hp' \<longleftrightarrow>
     (\<forall>a. length (data (cells hp' a)) = length (data (cells hp a))
          \<and> is_floating_point (cells hp' a) = is_floating_point (cells hp a))"

section \<open>Example models\<close>

text \<open>
  The hook with its default configuration; a model with a floating-point parameter and
  an integer one; a model with a parameter \<open>a_bias\<close> of its own and a submodule \<open>a\<close>
  with a parameter \<open>bias\<close>, two names that differ only in \<open>.\<close> against \<open>_\<close>. In the
  heaps, every cell that is not listed is an empty tensor.
\<close>

definition default_hook :: ema_hook where
  "default_hook = \<lparr>momentum = 9999 / 10000, interval = 2, warm_up = 2000, checkpoint = None,
                    param_ema_buffer = [], model_parameters = [], model_buffers = []\<rparr>"

definition empty_cells :: "addr \<Rightarrow> tensor" where
  "empty_cells = (\<lambda>_. \<lparr>is_floating_point = True, data = []\<rparr>)"

definition head_model :: module where
  "head_model = \<lparr>named_parameters = [(''head.weight'', 0), (''head.steps'', 1)],
                  named_buffers = [], attributes = [''head'']\<rparr>"

definition head_heap :: heap where
  "head_heap = \<lparr>cells = empty_cells
                   (0 := \<lparr>is_floating_point = True, data = [1, 2]\<rparr>,
                    1 := \<lparr>is_floating_point = False, data = [7]\<rparr>),
                 next_free = 2\<rparr>"

definition bias_model :: module where
  "bias_model = \<lparr>named_parameters = [(''a_bias'', 0), (''a.bias'', 1)],
                  named_buffers = [], attributes = [''a'']\<rparr>"

definition bias_heap :: heap where
  "bias_heap = \<lparr>cells = empty_cells
                   (0 := \<lparr>is_floating_point = True, data = [1]\<rparr>,
                    1 := \<lparr>is_floating_point = True, data = [2]\<rparr>),
                 next_free = 2\<rparr>"

text \<open>
  The hook, the model and the heap after \<open>before_run\<close> on \<open>head_model\<close>; the same heap
  after training has moved the parameters; and a model that has gained a parameter
  since \<open>before_run\<close>.
\<close>

definition head_hook :: ema_hook where
  "head_hook = default_hook
     \<lparr>param_ema_buffer := [(''head.weight'', ''ema_head_weight''), (''head.steps'', ''ema_head_steps'')],
      model_parameters := [(''head.weight'', 0), (''head.steps'', 1)],
      model_buffers := [(''ema_head_weight'', 2), (''ema_head_steps'', 3)]\<rparr>"

definition head_model_registered :: module where
  "head_model_registered =
     head_model\<lparr>named_buffers := [(''ema_head_weight'', 2), (''ema_head_steps'', 3)]\<rparr>"

definition head_heap_registered :: heap where
  "head_heap_registered = \<lparr>cells = empty_cells
                   (0 := \<lparr>is_floating_point = True, data = [1, 2]\<rparr>,
                    1 := \<lparr>is_floating_point = False, data = [7]\<rparr>,
                    2 := \<lparr>is_floating_point = True, data = [1, 2]\<rparr>,
                    3 := \<lparr>is_floating_point = False, data = [7]\<rparr>),
                 next_free = 4\<rparr>"

definition head_heap_trained :: heap where
  "head_heap_trained = \<lparr>cells = empty_cells
                   (0 := \<lparr>is_floating_point = True, data = [3, 5]\<rparr>,
                    1 := \<lparr>is_floating_point = False, data = [8]\<rparr>,
                    2 := \<lparr>is_floating_point = True, data = [1, 2]\<rparr>,
                    3 := \<lparr>is_floating_point = False, data = [7]\<rparr>),
                 next_free = 4\<rparr>"

definition grown_model :: module where
  "grown_model = \<lparr>named_parameters = [(''head.weight'', 0), (''head.steps'', 1), (''neck.weight'', 4)],
                   named_buffers = [(''ema_head_weight'', 2), (''ema_head_steps'', 3)],
                   attributes = [''head'', ''neck'']\<rparr>"

section \<open>MosaicPipeline: arrays and samples\<close>

text \<open>
  An image is a numpy array of three axes (rows, columns, channels): its dtype, its shape
  and its values, read by index; the values of an unsigned 8-bit array are the integers
  0 to 255. A box array (\<open>gt_bboxes\<close>, \<open>gt_bboxes_ignore\<close>) is its list of rows, a
  label array its list of labels. Box arrays are \<open>float32\<close> arrays (the annotation
  loaders of mmdet build them with \<open>dtype=np.float32\<close>): a coordinate is the real
  number the float stands for.
\<close>

datatype dtype = UInt8 | Int64 | Float32

record ndarray =
  dtype :: dtype
  shape :: "nat \<times> nat \<times> nat"
  px :: "nat \<Rightarrow> nat \<Rightarrow> nat \<Rightarrow> real"

type_synonym bbox_array = "real list list"

text \<open>
  numpy's conversion of a value to \<open>uint8\<close> (the cast of \<open>np.full\<close> and of an
  assignment into a \<open>uint8\<close> array): the fraction is dropped, towards zero, and the
  integer is taken modulo 256. For an integer value, and for a floating-point value
  above -1 and below 256, that is what numpy does everywhere; for a floating-point
  value outside that range the C conversion numpy relies on is left open by the
  language, and the definition gives what x86-64 gives.
\<close>

definition astype_uint8 :: "real \<Rightarrow> real" where
  "astype_uint8 v = of_int ((if 0 \<le> v then \<lfloor>v\<rfloor> else \<lceil>v\<rceil>) mod 256)"

fun cast_to :: "dtype \<Rightarrow> real \<Rightarrow> real" where
  "cast_to UInt8 v = astype_uint8 v"
| "cast_to Int64 v = of_int (if 0 \<le> v then \<lfloor>v\<rfloor> else \<lceil>v\<rceil>)"
| "cast_to Float32 v = v"

text \<open>\<open>np.full(shape, fill_value, dtype=np.uint8)\<close>\<close>

definition np_full_uint8 :: "nat \<times> nat \<times> nat \<Rightarrow> real \<Rightarrow> ndarray" where
  "np_full_uint8 sh fill_value =
     \<lparr>dtype = UInt8, shape = sh, px = (\<lambda>r q k. astype_uint8 fill_value)\<rparr>"

text \<open>
  \<open>a[y1:y2, x1:x2] = v\<close>. A slice is cut to the axis (\<open>slice_start\<close>, \<open>slice_len\<close>);
  \<open>v\<close> is broadcast to the shape of the region, an axis of \<open>v\<close> fits when it has the
  length of the region's or length 1, and otherwise the assignment raises; the values
  are converted to the dtype of \<open>a\<close>. The indices are never negative here.
\<close>

definition slice_start :: "nat \<Rightarrow> nat \<Rightarrow> nat" where
  "slice_start start n = min start n"

definition slice_len :: "nat \<Rightarrow> nat \<Rightarrow> nat \<Rightarrow> nat" where
  "slice_len start stop n = min stop n - min start n"

definition broadcast_ok :: "nat \<Rightarrow> nat \<Rightarrow> bool" where
  "broadcast_ok d n \<longleftrightarrow> d = n \<or> d = 1"

definition bidx :: "nat \<Rightarrow> nat \<Rightarrow> nat" where
  "bidx d i = (if d = 1 then 0 else i)"

definition in_region :: "ndarray \<Rightarrow> nat \<Rightarrow> nat \<Rightarrow> nat \<Rightarrow> nat \<Rightarrow> nat \<Rightarrow> nat \<Rightarrow> bool" where
  "in_region a y1 y2 x1 x2 r q \<longleftrightarrow>
     (case shape a of (H, W, C) \<Rightarrow>
        slice_start y1 H \<le> r \<and> r < slice_start y1 H + slice_len y1 y2 H
      \<and> slice_start x1 W \<le> q \<and> q < slice_start x1 W + slice_len x1 x2 W)"

definition paste :: "ndarray \<Rightarrow> nat \<Rightarrow> nat \<Rightarrow> nat \<Rightarrow> nat \<Rightarrow> ndarray \<Rightarrow> ndarray" where
  "paste a y1 y2 x1 x2 v =
     (case (shape a, shape v) of
        ((H, W, C), (h, w, c)) \<Rightarrow>
          a\<lparr>px := (\<lambda>r q k.
                if in_region a y1 y2 x1 x2 r q
                then cast_to (dtype a)
                       (px v (bidx h (r - slice_start y1 H)) (bidx w (q - slice_start x1 W)) (bidx c k))
                else px a r q k)\<rparr>)"

definition setitem ::
  "ndarray \<Rightarrow> nat \<Rightarrow> nat \<Rightarrow> nat \<Rightarrow> nat \<Rightarrow> ndarray \<Rightarrow> py_error + ndarray" where
  "setitem a y1 y2 x1 x2 v =
     (case (shape a, shape v) of
        ((H, W, C), (h, w, c)) \<Rightarrow>
          if broadcast_ok h (slice_len y1 y2 H) \<and> broadcast_ok w (slice_len x1 x2 W)
             \<and> broadcast_ok c C
          then Inr (paste a y1 y2 x1 x2 v)
          else Inl ValueError)"

text \<open>
  A sample after the per-image pipeline (the \<open>results\<close> dict): \<open>pad_shape\<close>, the field
  lists (\<open>results.get('img_fields', [])\<close>, so they may be missing), the arrays the
  fields name, and \<open>gt_labels\<close>. A key that is read with \<open>results[key]\<close> and is missing
  raises \<open>KeyError\<close>. Each sample has arrays of its own: the pipeline copies the
  annotation arrays of the dataset.
\<close>

record sample =
  pad_shape :: "(nat \<times> nat \<times> nat) option"
  img_fields :: "string list option"
  bbox_fields :: "string list option"
  images :: "ndarray pydict"
  bboxes :: "bbox_array pydict"
  gt_labels :: "int list option"

definition get_fields :: "string list option \<Rightarrow> string list" where
  "get_fields fs = (case fs of None \<Rightarrow> [] | Some ks \<Rightarrow> ks)"

text \<open>
  The keys \<open>__call__\<close> sets in its result; the other keys of the result are those of
  the sample as it came in.
\<close>

record mosaic_output =
  out_img_fields :: "string list"
  out_bbox_fields :: "string list"
  out_images :: "ndarray pydict"
  out_bboxes :: "bbox_array pydict"
  out_gt_labels :: "int list"
  img_shape :: "nat \<times> nat \<times> nat"
  ori_shape :: "nat \<times> nat \<times> nat"

section \<open>MosaicPipeline: \<open>__call__\<close> after the four samples went through the pipeline\<close>

text \<open>
  The placement of tile \<open>i\<close>: \<open>(x1, y1, x2, y2)\<close>. The list of tiles has four
  elements, so \<open>i\<close> is 0 to 3.
\<close>

definition tile_box :: "nat \<Rightarrow> nat \<Rightarrow> nat \<Rightarrow> nat \<Rightarrow> nat \<Rightarrow> nat \<times> nat \<times> nat \<times> nat" where
  "tile_box i xc yc h w =
     (if i = 0 then (xc - w, yc - h, xc, yc)
      else if i = 1 then (xc, yc - h, xc + w, yc)
      else if i = 2 then (xc - w, yc, xc, yc + h)
      else (xc, yc, xc + w, yc + h))"

text \<open>\<open>for key in mosaic_results[0].get('img_fields', []): canvas[key][y1:y2, x1:x2] = results[key]\<close>\<close>

fun place_images ::
  "string list \<Rightarrow> ndarray pydict \<Rightarrow> sample \<Rightarrow> nat \<times> nat \<times> nat \<times> nat
     \<Rightarrow> py_error + ndarray pydict" where
  "place_images [] canvas results box = Inr canvas"
| "place_images (key # keys) canvas results (x1, y1, x2, y2) =
     (case dict_get (images results) key of
        None \<Rightarrow> Inl KeyError
      | Some v \<Rightarrow>
          (case dict_get canvas key of
             None \<Rightarrow> Inl KeyError
           | Some a \<Rightarrow>
               (case setitem a y1 y2 x1 x2 v of
                  Inl e \<Rightarrow> Inl e
                | Inr a' \<Rightarrow> place_images keys (dict_set canvas key a') results (x1, y1, x2, y2))))"

text \<open>
  Arithmetic on \<open>float32\<close>. A result is the exact result rounded to the nearest
  \<open>float32\<close>, a tie going to the even significand. For \<open>2 ^ e \<le> \<bar>x\<bar> < 2 ^ (e + 1)\<close>
  (\<open>ilog2\<close> computes \<open>e\<close>), the \<open>float32\<close> values around \<open>x\<close> are the multiples of
  \<open>2 ^ (e - 23)\<close>; below \<open>2 ^ - 126\<close> they are the multiples of \<open>2 ^ - 149\<close>
  (\<open>f32_step\<close>). A
  result that rounds to a magnitude of \<open>2 ^ 128\<close> or more is \<open>inf\<close> in numpy and has
  no counterpart here: box coordinates are far below it. \<open>a + x1\<close> for a \<open>float32\<close> array \<open>a\<close> and a
  Python int \<open>x1\<close> converts \<open>x1\<close> to \<open>float32\<close> and adds in \<open>float32\<close>.
\<close>

fun log2_nat :: "nat \<Rightarrow> nat" where
  "log2_nat n = (if n < 2 then 0 else Suc (log2_nat (n div 2)))"

declare log2_nat.simps [simp del]

definition ilog2 :: "real \<Rightarrow> int" where
  "ilog2 x = (if 1 \<le> x then int (log2_nat (nat \<lfloor>x\<rfloor>))
              else - int (Suc (log2_nat (nat \<lceil>1 / x\<rceil> - 1))))"

definition pow2 :: "int \<Rightarrow> real" where
  "pow2 e = (if 0 \<le> e then 2 ^ nat e else 1 / 2 ^ nat (- e))"

definition round_half_even :: "real \<Rightarrow> int" where
  "round_half_even x =
     (if x - of_int \<lfloor>x\<rfloor> < 1 / 2 then \<lfloor>x\<rfloor>
      else if 1 / 2 < x - of_int \<lfloor>x\<rfloor> then \<lfloor>x\<rfloor> + 1
      else if even \<lfloor>x\<rfloor> then \<lfloor>x\<rfloor> else \<lfloor>x\<rfloor> + 1)"

definition f32_step :: "real \<Rightarrow> real" where
  "f32_step x = pow2 (max (ilog2 \<bar>x\<bar>) (- 126) - 23)"

definition round_f32 :: "real \<Rightarrow> real" where
  "round_f32 x =
     (if x = 0 then 0 else of_int (round_half_even (x / f32_step x)) * f32_step x)"

definition add_f32 :: "real \<Rightarrow> real \<Rightarrow> real" where
  "add_f32 x d = round_f32 (x + round_f32 d)"

text \<open>
  \<open>bboxes[:, 0::2] = bboxes[:, 0::2] + x1\<close> and \<open>bboxes[:, 1::2] = bboxes[:, 1::2] + y1\<close>
  on one row, and the loop \<open>for key in results.get('bbox_fields', [])\<close>.
\<close>

fun shift_row :: "real \<Rightarrow> real \<Rightarrow> real list \<Rightarrow> real list" where
  "shift_row dx dy [] = []"
| "shift_row dx dy [x] = [add_f32 x dx]"
| "shift_row dx dy (x # y # row) = add_f32 x dx # add_f32 y dy # shift_row dx dy row"

fun shift_bboxes :: "string list \<Rightarrow> sample \<Rightarrow> nat \<Rightarrow> nat \<Rightarrow> py_error + sample" where
  "shift_bboxes [] results x1 y1 = Inr results"
| "shift_bboxes (key # keys) results x1 y1 =
     (case dict_get (bboxes results) key of
        None \<Rightarrow> Inl KeyError
      | Some b \<Rightarrow>
          shift_bboxes keys
            (results\<lparr>bboxes := dict_set (bboxes results) key (map (shift_row (real x1) (real y1)) b)\<rparr>)
            x1 y1)"

text \<open>\<open>for i, results in enumerate(mosaic_results)\<close>\<close>

fun place_tiles ::
  "string list \<Rightarrow> nat \<Rightarrow> nat \<Rightarrow> ndarray pydict \<Rightarrow> (nat \<times> sample) list
     \<Rightarrow> py_error + (ndarray pydict \<times> sample list)" where
  "place_tiles keys xc yc canvas [] = Inr (canvas, [])"
| "place_tiles keys xc yc canvas ((i, results) # rest) =
     (case pad_shape results of
        None \<Rightarrow> Inl KeyError
      | Some (h, w, c) \<Rightarrow>
          (case tile_box i xc yc h w of
             (x1, y1, x2, y2) \<Rightarrow>
               (case place_images keys canvas results (x1, y1, x2, y2) of
                  Inl e \<Rightarrow> Inl e
                | Inr canvas' \<Rightarrow>
                    (case shift_bboxes (get_fields (bbox_fields results)) results x1 y1 of
                       Inl e \<Rightarrow> Inl e
                     | Inr results' \<Rightarrow>
                         (case place_tiles keys xc yc canvas' rest of
                            Inl e \<Rightarrow> Inl e
                          | Inr (canvas'', rs) \<Rightarrow> Inr (canvas'', results' # rs))))))"

text \<open>\<open>[r[key] for r in mosaic_results]\<close>, concatenated along axis 0.\<close>

fun concat_bboxes :: "string \<Rightarrow> sample list \<Rightarrow> py_error + bbox_array" where
  "concat_bboxes key [] = Inr []"
| "concat_bboxes key (r # rs) =
     (case dict_get (bboxes r) key of
        None \<Rightarrow> Inl KeyError
      | Some b \<Rightarrow> (case concat_bboxes key rs of Inl e \<Rightarrow> Inl e | Inr bs \<Rightarrow> Inr (b @ bs)))"

fun concat_labels :: "sample list \<Rightarrow> py_error + int list" where
  "concat_labels [] = Inr []"
| "concat_labels (r # rs) =
     (case gt_labels r of
        None \<Rightarrow> Inl KeyError
      | Some l \<Rightarrow> (case concat_labels rs of Inl e \<Rightarrow> Inl e | Inr ls \<Rightarrow> Inr (l @ ls)))"

text \<open>\<open>for key in output_results['img_fields']: output_results[key] = canvas[key]\<close>\<close>

fun output_images :: "string list \<Rightarrow> ndarray pydict \<Rightarrow> ndarray pydict \<Rightarrow> py_error + ndarray pydict" where
  "output_images [] canvas out = Inr out"
| "output_images (key # keys) canvas out =
     (case dict_get canvas key of
        None \<Rightarrow> Inl KeyError
      | Some a \<Rightarrow> output_images keys canvas (dict_set out key a))"

text \<open>
  \<open>for key in output_results['bbox_fields']:
  output_results[key] = np.concatenate([r[key] for r in mosaic_results], axis=0)\<close>
\<close>

fun output_bboxes :: "string list \<Rightarrow> sample list \<Rightarrow> bbox_array pydict \<Rightarrow> py_error + bbox_array pydict" where
  "output_bboxes [] rs out = Inr out"
| "output_bboxes (key # keys) rs out =
     (case concat_bboxes key rs of
        Inl e \<Rightarrow> Inl e
      | Inr b \<Rightarrow> output_bboxes keys rs (dict_set out key b))"

text \<open>
  The canvas: its join point, its shape, and one array \<open>np.full(canvas_shape,
  self.pad_val, dtype=np.uint8)\<close> for every image field of tile 0.
\<close>

definition canvas_shape ::
  "nat \<times> nat \<times> nat \<Rightarrow> nat \<times> nat \<times> nat \<Rightarrow> nat \<times> nat \<times> nat \<Rightarrow> nat \<times> nat \<times> nat
     \<Rightarrow> nat \<times> nat \<times> nat" where
  "canvas_shape s0 s1 s2 s3 =
     (let yc = max (fst s0) (fst s1);
          xc = max (fst (snd s0)) (fst (snd s2));
          canvas_height = yc + max (fst s2) (fst s3);
          canvas_width = xc + max (fst (snd s1)) (fst (snd s3))
      in (canvas_height, canvas_width, snd (snd s0)))"

fun new_canvas :: "string list \<Rightarrow> nat \<times> nat \<times> nat \<Rightarrow> real \<Rightarrow> ndarray pydict \<Rightarrow> ndarray pydict" where
  "new_canvas [] sh pad_val canvas = canvas"
| "new_canvas (key # keys) sh pad_val canvas =
     new_canvas keys sh pad_val (dict_set canvas key (np_full_uint8 sh pad_val))"

text \<open>
  \<open>__call__\<close> from \<open>shapes = [results['pad_shape'] for results in mosaic_results]\<close>
  on, for the four samples as the pipeline returned them (the first is the sample
  \<open>__call__\<close> was given, the others were drawn from the dataset).
\<close>

definition mosaic_call ::
  "real \<Rightarrow> sample \<Rightarrow> sample \<Rightarrow> sample \<Rightarrow> sample \<Rightarrow> py_error + mosaic_output" where
  "mosaic_call pad_val t0 t1 t2 t3 =
     (case (pad_shape t0, pad_shape t1, pad_shape t2, pad_shape t3) of
        (Some s0, Some s1, Some s2, Some s3) \<Rightarrow>
          (let yc = max (fst s0) (fst s1);
               xc = max (fst (snd s0)) (fst (snd s2));
               keys = get_fields (img_fields t0);
               canvas = new_canvas keys (canvas_shape s0 s1 s2 s3) pad_val []
           in case place_tiles keys xc yc canvas [(0, t0), (1, t1), (2, t2), (3, t3)] of
                Inl e \<Rightarrow> Inl e
              | Inr (canvas', rs) \<Rightarrow>
                  (case output_images keys canvas' [] of
                     Inl e \<Rightarrow> Inl e
                   | Inr imgs \<Rightarrow>
                       (case output_bboxes (get_fields (bbox_fields (hd rs))) rs [] of
                          Inl e \<Rightarrow> Inl e
                        | Inr bbs \<Rightarrow>
                            (case concat_labels rs of
                               Inl e \<Rightarrow> Inl e
                             | Inr labels \<Rightarrow>
                                 Inr \<lparr>out_img_fields = keys,
                                      out_bbox_fields = get_fields (bbox_fields (hd rs)),
                                      out_images = imgs,
                                      out_bboxes = bbs,
                                      out_gt_labels = labels,
                                      img_shape = canvas_shape s0 s1 s2 s3,
                                      ori_shape = canvas_shape s0 s1 s2 s3\<rparr>))))
      | _ \<Rightarrow> Inl KeyError)"

text \<open>
  The canvas of one image field written out: the \<open>uint8\<close> array of the canvas shape,
  filled with the pad value, on which the images of the four tiles are pasted at their
  places, in tile order.
\<close>

definition mosaic_canvas ::
  "real \<Rightarrow> nat \<times> nat \<Rightarrow> nat \<times> nat \<Rightarrow> nat \<times> nat \<Rightarrow> nat \<times> nat \<Rightarrow> nat
     \<Rightarrow> ndarray \<Rightarrow> ndarray \<Rightarrow> ndarray \<Rightarrow> ndarray \<Rightarrow> ndarray" where
  "mosaic_canvas pad_val s0 s1 s2 s3 c v0 v1 v2 v3 =
     (case (s0, s1, s2, s3) of
        ((h0, w0), (h1, w1), (h2, w2), (h3, w3)) \<Rightarrow>
          (let yc = max h0 h1; xc = max w0 w2
           in paste
                (paste
                  (paste
                    (paste (np_full_uint8 (yc + max h2 h3, xc + max w1 w3, c) pad_val)
                       (yc - h0) yc (xc - w0) xc v0)
                    (yc - h1) yc xc (xc + w1) v1)
                  yc (yc + h2) (xc - w2) xc v2)
                yc (yc + h3) xc (xc + w3) v3))"

section \<open>Example tiles\<close>

text \<open>
  Four samples with one image field and one box field, of the pad shapes 2 by 3, 1 by 2,
  3 by 1 and 2 by 2 (one channel), of three dtypes; the value of the image at row \<open>r\<close>
  and column \<open>q\<close> is \<open>base + 10 r + q\<close>.
\<close>

definition example_tile :: "nat \<Rightarrow> nat \<Rightarrow> dtype \<Rightarrow> real \<Rightarrow> bbox_array \<Rightarrow> int list \<Rightarrow> sample" where
  "example_tile h w dt base bs ls =
     \<lparr>pad_shape = Some (h, w, 1), img_fields = Some [''img''], bbox_fields = Some [''gt_bboxes''],
      images = [(''img'', \<lparr>dtype = dt, shape = (h, w, 1),
                            px = (\<lambda>r q k. base + 10 * real r + real q)\<rparr>)],
      bboxes = [(''gt_bboxes'', bs)], gt_labels = Some ls\<rparr>"

definition tile_a :: sample where
  "tile_a = example_tile 2 3 Float32 (201 / 2) [[0, 0, 2, 1]] [5]"

definition tile_b :: sample where
  "tile_b = example_tile 1 2 UInt8 200 [[0, 0, 1, 1], [1, 0, 2, 1]] [6, 7]"

definition tile_c :: sample where
  "tile_c = example_tile 3 1 Int64 300 [] []"

definition tile_d :: sample where
  "tile_d = example_tile 2 2 Float32 (3 / 2) [[1 / 2, 1 / 2, 3 / 2, 2]] [8]"

text \<open>
  A sample of the pad shape 320 by 320 with one box whose first corner is at
  \<open>(0.1, 0.1)\<close>: the \<open>float32\<close> nearest to 0.1 is \<open>13421773 / 2 ^ 27\<close>.
\<close>

definition drift_tile :: sample where
  "drift_tile =
     \<lparr>pad_shape = Some (320, 320, 3), img_fields = Some [''img''], bbox_fields = Some [''gt_bboxes''],
      images = [(''img'', \<lparr>dtype = UInt8, shape = (320, 320, 3), px = (\<lambda>r q k. 0)\<rparr>)],
      bboxes = [(''gt_bboxes'', [[13421773 / 134217728, 13421773 / 134217728, 1 / 2, 1 / 2]])],
      gt_labels = Some [1]\<rparr>"

text \<open>
  A sample as \<open>tile_b\<close> that does not list its box field: \<open>bbox_fields\<close> is empty,
  the array \<open>gt_bboxes\<close> is there.
\<close>

definition tile_b_unlisted :: sample where
  "tile_b_unlisted = tile_b\<lparr>bbox_fields := Some []\<rparr>"

section \<open>Properties of the warm-up momentum\<close>

lemma momentum_t_zero: "momentum_t mb wu 0 = 0"
  by (simp add: momentum_t_def)

lemma momentum_t_less_base: "0 < mb \<Longrightarrow> momentum_t mb wu it < mb"
proof -
  assume "0 < mb"
  moreover have "1 - exp (- real_of_int it / wu) < 1"
    by simp
  ultimately have "mb * (1 - exp (- real_of_int it / wu)) < mb * 1"
    by (rule mult_strict_left_mono [rotated])
  then show ?thesis
    by (simp add: momentum_t_def)
qed

lemma momentum_t_strict_mono:
  assumes "0 < mb" and "0 < wu" and "i < j"
  shows "momentum_t mb wu i < momentum_t mb wu j"
proof -
  from assms(2,3) have "- real_of_int j / wu < - real_of_int i / wu"
    by (simp add: divide_strict_right_mono)
  then have "exp (- real_of_int j / wu) < exp (- real_of_int i / wu)"
    by simp
  with assms(1) show ?thesis
    by (simp add: momentum_t_def)
qed

lemma exp_neg_ratio_tendsto_zero:
  assumes "0 < wu"
  shows "(\<lambda>n. exp (- real n / wu)) \<longlonglongrightarrow> 0"
proof -
  have eq: "exp (- real n / wu) = exp (- 1 / wu) ^ n" for n
  proof -
    have "exp (- 1 / wu) ^ n = exp (real n * (- 1 / wu))"
      by (rule exp_of_nat_mult [symmetric])
    then show ?thesis by simp
  qed
  from assms have "\<bar>exp (- 1 / wu)\<bar> < 1"
    by simp
  then have "(\<lambda>n. exp (- 1 / wu) ^ n) \<longlonglongrightarrow> 0"
    by (rule LIMSEQ_abs_realpow_zero2)
  then show ?thesis
    by (simp only: eq)
qed

lemma momentum_t_tendsto:
  assumes "0 < wu"
  shows "(\<lambda>n. momentum_t mb wu (int n)) \<longlonglongrightarrow> mb"
proof -
  have "(\<lambda>n. mb * (1 - exp (- real n / wu))) \<longlonglongrightarrow> mb * (1 - 0)"
    by (intro tendsto_intros exp_neg_ratio_tendsto_zero assms)
  then show ?thesis
    by (simp add: momentum_t_def)
qed

lemma one_le_max_float: "1 \<le> max_float"
proof -
  have "(1::real) \<le> 2 - 1 / 2 ^ 52"
    by simp
  moreover have "(1::real) \<le> 2 ^ 1023"
    by (rule one_le_power) simp
  ultimately have "(1::real) * 1 \<le> (2 - 1 / 2 ^ 52) * 2 ^ 1023"
    by (intro mult_mono) simp_all
  then show ?thesis
    by (simp only: max_float_def mult_1)
qed

lemma max_float_less: "max_float < 2 ^ 1024"
proof -
  have "(2 - 1 / 2 ^ 52) * 2 ^ 1023 < (2::real) * 2 ^ 1023"
    by (intro mult_strict_right_mono zero_less_power) simp_all
  then show ?thesis
    by (simp only: max_float_def power_Suc [symmetric]) simp
qed

lemma ema_momentum_returns:
  assumes "0 < wu" and "0 \<le> it"
  shows "ema_momentum mb wu it = Inr (momentum_t mb wu it)"
proof -
  from assms have "- real_of_int it / wu \<le> 0"
    by (simp add: divide_nonpos_pos)
  then have "exp (- real_of_int it / wu) \<le> 1"
    by simp
  with one_le_max_float have "\<not> max_float < exp (- real_of_int it / wu)"
    by linarith
  with assms(1) show ?thesis
    by (simp add: ema_momentum_def)
qed

text \<open>
  With a negative warm-up the exponential overflows once the iteration is large:
  \<open>exp 2000\<close> is at least \<open>2 ^ 2000\<close>.
\<close>

lemma ema_momentum_overflow: "ema_momentum mb (- 1) 2000 = Inl OverflowError"
proof -
  have "(2::real) \<le> exp 1"
    using exp_ge_add_one_self [of 1] by simp
  then have "(2::real) ^ 2000 \<le> exp 1 ^ 2000"
    by (intro power_mono) simp_all
  also have "exp 1 ^ 2000 = exp (real 2000 * 1)"
    by (rule exp_of_nat_mult [symmetric])
  finally have "(2::real) ^ 2000 \<le> exp 2000"
    by simp
  moreover have "(2::real) ^ 1024 \<le> 2 ^ 2000"
    by (intro power_increasing) simp_all
  ultimately have "max_float < exp 2000"
    using max_float_less by linarith
  then show ?thesis
    by (simp add: ema_momentum_def)
qed

text \<open>
  C5. For a base momentum in (0, 1) and a positive warm-up, the momentum the hook
  computes at an iteration \<open>i\<close> is \<open>momentum_base * (1 - exp (- i / warm_up))\<close>: the
  division never raises, and the exponential raises only where its result is beyond
  the largest float, which is at no iteration from 0 on. The momentum is 0 at
  iteration 0, strictly increasing in the iteration (in particular up to \<open>warm_up\<close>),
  and tends to the base momentum as the iteration grows without bound.
\<close>

theorem ema_momentum_warm_up:
  assumes "0 < mb" and "mb < 1" and "0 < wu"
  shows "(\<forall>i. ema_momentum mb wu i =
              (if max_float < exp (- real_of_int i / wu) then Inl OverflowError
               else Inr (momentum_t mb wu i)))
       \<and> (\<forall>i. 0 \<le> i \<longrightarrow> ema_momentum mb wu i = Inr (momentum_t mb wu i))
       \<and> (\<forall>i. momentum_t mb wu i = mb * (1 - exp (- real_of_int i / wu)))
       \<and> momentum_t mb wu 0 = 0
       \<and> (\<forall>i j. i < j \<longrightarrow> momentum_t mb wu i < momentum_t mb wu j)
       \<and> (\<lambda>n. momentum_t mb wu (int n)) \<longlonglongrightarrow> mb"
proof -
  from assms(3) have "\<forall>i. ema_momentum mb wu i =
              (if max_float < exp (- real_of_int i / wu) then Inl OverflowError
               else Inr (momentum_t mb wu i))"
    by (simp add: ema_momentum_def)
  moreover from assms(3) have "\<forall>i. 0 \<le> i \<longrightarrow> ema_momentum mb wu i = Inr (momentum_t mb wu i)"
    by (simp add: ema_momentum_returns)
  moreover have "\<forall>i. momentum_t mb wu i = mb * (1 - exp (- real_of_int i / wu))"
    by (simp add: momentum_t_def)
  moreover from assms(1,3) have "\<forall>i j. i < j \<longrightarrow> momentum_t mb wu i < momentum_t mb wu j"
    by (simp add: momentum_t_strict_mono)
  moreover from assms(3) have "(\<lambda>n. momentum_t mb wu (int n)) \<longlonglongrightarrow> mb"
    by (rule momentum_t_tendsto)
  ultimately show ?thesis
    using momentum_t_zero by blast
qed

theorem ema_momentum_warm_up_witness:
  "ema_momentum (1/2) 2000 0 = Inr (momentum_t (1/2) 2000 0)
     \<and> ema_momentum (1/2) 2000 2000 = Inr (momentum_t (1/2) 2000 2000)
     \<and> (\<forall>i. momentum_t (1/2) 2000 i = (1/2) * (1 - exp (- real_of_int i / 2000)))
     \<and> momentum_t (1/2) 2000 0 = 0
     \<and> momentum_t (1/2) 2000 0 < momentum_t (1/2) 2000 2000
     \<and> (\<lambda>n. momentum_t (1/2) 2000 (int n)) \<longlonglongrightarrow> 1/2"
proof -
  have h: "(0::real) < 1/2" "(1/2::real) < 1" "(0::real) < 2000"
    by simp_all
  note t = ema_momentum_warm_up [OF h]
  from t have ret: "0 \<le> i \<Longrightarrow> ema_momentum (1/2) 2000 i = Inr (momentum_t (1/2) 2000 i)" for i
    by blast
  from t have mono: "i < j \<Longrightarrow> momentum_t (1/2) 2000 i < momentum_t (1/2) 2000 j" for i j
    by blast
  have "momentum_t (1/2) 2000 0 < momentum_t (1/2) 2000 2000"
    by (rule mono) simp
  moreover have "ema_momentum (1/2) 2000 0 = Inr (momentum_t (1/2) 2000 0)"
    by (rule ret) simp
  moreover have "ema_momentum (1/2) 2000 2000 = Inr (momentum_t (1/2) 2000 2000)"
    by (rule ret) simp
  ultimately show ?thesis
    using t by blast
qed

section \<open>Properties of the accumulation hook\<close>

lemma amp_before_train_iter_4:
  "accumulation h = 4 \<Longrightarrow>
   amp_before_train_iter h it = Inr (if it mod 4 = 0 then [ModelZeroGrad, OptimizerZeroGrad] else [])"
  by (simp add: amp_before_train_iter_def)

lemma amp_after_train_iter_inner:
  "accumulation h = 4 \<Longrightarrow> (it + 1) mod 4 \<noteq> 0 \<Longrightarrow>
   amp_after_train_iter h it env = Inr ([Backward], h)"
  by (simp add: amp_after_train_iter_def)

lemma amp_after_train_iter_last:
  assumes "accumulation h = 4" and "(it + 1) mod 4 = 0" and "grad_clip_base h = grad_clip h"
    and "scaler_scale env \<noteq> 0"
  shows "\<exists>evs h'. amp_after_train_iter h it env = Inr (evs, h')
           \<and> filter (\<lambda>e. e = ScalerStep) evs = [ScalerStep]
           \<and> filter (\<lambda>e. e = ScalerUpdate) evs = [ScalerUpdate]
           \<and> filter (\<lambda>e. e = Backward) evs = [Backward]
           \<and> filter (\<lambda>e. e = OptimizerZeroGrad) evs = []
           \<and> filter (\<lambda>e. e = ModelZeroGrad) evs = []"
  using assms
  by (auto simp: amp_after_train_iter_def Let_def split: option.splits)

lemma events_of_tagged:
  "map fst (filter (\<lambda>(it, e). e = ev) (map (Pair (i::int)) es))
     = map (\<lambda>_. i) (filter (\<lambda>e. e = ev) es)"
  by (induction es) auto

text \<open>
  C8, as the code has it. With accumulation 4 (any clipping configuration, any scale
  other than 0 in iteration 3), iterations 0 to 3 run without an exception; zero-grad of
  the model and of the optimizer is invoked exactly once, in iteration 0 (the start of
  the window, \<open>iter % 4 == 0\<close>); \<open>scaler.step(optimizer)\<close> and \<open>scaler.update()\<close>
  are invoked exactly once, in iteration 3 (\<open>(iter + 1) % 4 == 0\<close>); backward runs in
  every one of the four iterations. In every iteration, \<open>before_train_iter\<close> invokes
  zero-grad only when \<open>iter % 4 == 0\<close>.
\<close>

theorem amp_accumulation_window_4:
  assumes "scaler_scale e3 \<noteq> 0"
  shows "(\<exists>tr h'. run_iters (amp_init 4 clip) [(0, e0), (1, e1), (2, e2), (3, e3)] [] = Inr (tr, h')
           \<and> events_of OptimizerZeroGrad tr = [0]
           \<and> events_of ModelZeroGrad tr = [0]
           \<and> events_of ScalerStep tr = [3]
           \<and> events_of ScalerUpdate tr = [3]
           \<and> events_of Backward tr = [0, 1, 2, 3])
       \<and> (\<forall>it. amp_before_train_iter (amp_init 4 clip) it
                  = Inr (if it mod 4 = 0 then [ModelZeroGrad, OptimizerZeroGrad] else []))"
proof -
  let ?h = "amp_init 4 clip"
  have acc: "accumulation ?h = 4" and base: "grad_clip_base ?h = grad_clip ?h"
    by (simp_all add: amp_init_def)
  from amp_after_train_iter_last [OF acc _ base assms, of 3]
  obtain evs h' where last: "amp_after_train_iter ?h 3 e3 = Inr (evs, h')"
    and f: "filter (\<lambda>e. e = ScalerStep) evs = [ScalerStep]"
      "filter (\<lambda>e. e = ScalerUpdate) evs = [ScalerUpdate]"
      "filter (\<lambda>e. e = Backward) evs = [Backward]"
      "filter (\<lambda>e. e = OptimizerZeroGrad) evs = []"
      "filter (\<lambda>e. e = ModelZeroGrad) evs = []"
    by auto
  have run: "run_iters ?h [(0, e0), (1, e1), (2, e2), (3, e3)] [] =
      Inr ([(0, ModelZeroGrad), (0, OptimizerZeroGrad), (0, Backward), (1, Backward), (2, Backward)]
            @ map (Pair 3) evs, h')"
    using last by (simp add: amp_before_train_iter_4 [OF acc] amp_after_train_iter_inner [OF acc])
  have "\<exists>tr h'. run_iters ?h [(0, e0), (1, e1), (2, e2), (3, e3)] [] = Inr (tr, h')
           \<and> events_of OptimizerZeroGrad tr = [0]
           \<and> events_of ModelZeroGrad tr = [0]
           \<and> events_of ScalerStep tr = [3]
           \<and> events_of ScalerUpdate tr = [3]
           \<and> events_of Backward tr = [0, 1, 2, 3]"
    unfolding run by (simp add: events_of_def events_of_tagged f)
  moreover have "\<forall>it. amp_before_train_iter ?h it
                  = Inr (if it mod 4 = 0 then [ModelZeroGrad, OptimizerZeroGrad] else [])"
    by (simp add: amp_before_train_iter_4 [OF acc])
  ultimately show ?thesis
    by blast
qed

theorem amp_accumulation_window_4_witness:
  "scaler_scale plain_env \<noteq> 0
   \<and> (\<exists>tr h'. run_iters (amp_init 4 (Some 35))
                 [(0, plain_env), (1, plain_env), (2, plain_env), (3, plain_env)] [] = Inr (tr, h')
           \<and> events_of OptimizerZeroGrad tr = [0]
           \<and> events_of ModelZeroGrad tr = [0]
           \<and> events_of ScalerStep tr = [3]
           \<and> events_of ScalerUpdate tr = [3]
           \<and> events_of Backward tr = [0, 1, 2, 3])
   \<and> amp_before_train_iter (amp_init 4 (Some 35)) 0 = Inr [ModelZeroGrad, OptimizerZeroGrad]
   \<and> amp_before_train_iter (amp_init 4 (Some 35)) 3 = Inr []"
proof -
  have nz: "scaler_scale plain_env \<noteq> 0"
    by (simp add: plain_env_def)
  note t = amp_accumulation_window_4 [OF nz, of "Some 35" plain_env plain_env plain_env]
  from t have b: "amp_before_train_iter (amp_init 4 (Some 35)) it
      = Inr (if it mod 4 = 0 then [ModelZeroGrad, OptimizerZeroGrad] else [])" for it
    by blast
  from nz t b [of 0] b [of 3] show ?thesis
    by simp
qed

text \<open>
  The run of iterations 0 to 3 without clipping, event by event: the only zero-grad of
  the optimizer is in iteration 0, none is in iteration 3.
\<close>

theorem amp_zero_grad_iteration_counterexample:
  "run_iters (amp_init 4 None) [(0, plain_env), (1, plain_env), (2, plain_env), (3, plain_env)] []
     = Inr ([(0, ModelZeroGrad), (0, OptimizerZeroGrad), (0, Backward), (1, Backward),
             (2, Backward), (3, Backward), (3, ScalerStep), (3, ScalerUpdate)], amp_init 4 None)
   \<and> events_of OptimizerZeroGrad
        [(0, ModelZeroGrad), (0, OptimizerZeroGrad), (0, Backward), (1, Backward),
         (2, Backward), (3, Backward), (3, ScalerStep), (3, ScalerUpdate)] = [0]
   \<and> [0] \<noteq> [3::int]"
  by (simp add: amp_init_def amp_before_train_iter_def amp_after_train_iter_def events_of_def)

section \<open>Properties of the dictionaries\<close>

lemma dict_get_dict_set: "dict_get (dict_set d k v) k' = (if k' = k then Some v else dict_get d k')"
  by (induction d) auto

lemma dict_set_new: "k \<notin> fst ` set d \<Longrightarrow> dict_set d k v = d @ [(k, v)]"
  by (induction d) auto

lemma keys_dict_set: "fst ` set (dict_set d k v) = insert k (fst ` set d)"
  by (induction d) force+

lemma distinct_dict_set: "distinct (map fst d) \<Longrightarrow> distinct (map fst (dict_set d k v))"
  by (induction d) (auto simp: keys_dict_set)

lemma dict_of_pairs_distinct:
  "distinct (map fst (d @ kvs)) \<Longrightarrow> dict_of_pairs kvs d = d @ kvs"
proof (induction kvs arbitrary: d)
  case Nil
  show ?case by simp
next
  case (Cons kv kvs)
  obtain k v where kv: "kv = (k, v)" by (cases kv)
  from Cons.prems have "k \<notin> fst ` set d" by (auto simp: kv)
  then have "dict_set d k v = d @ [(k, v)]" by (rule dict_set_new)
  moreover from Cons.prems have "distinct (map fst ((d @ [(k, v)]) @ kvs))" by (simp add: kv)
  ultimately show ?case using Cons.IH [of "d @ [(k, v)]"] by (simp add: kv)
qed

lemma dict_of_pairs_id: "distinct (map fst kvs) \<Longrightarrow> dict_of_pairs kvs [] = kvs"
  using dict_of_pairs_distinct [of "[]" kvs] by simp

section \<open>Properties of the EMA hook\<close>

lemma ema_init_config:
  "ema_init mom intv wu resume_from = Inr h \<Longrightarrow>
   0 < interval h \<and> 0 < momentum h \<and> momentum h < 1 \<and> warm_up h = wu"
  by (auto simp: ema_init_def split: if_splits)

lemma same_sizes_refl: "same_sizes hp hp"
  by (simp add: same_sizes_def)

lemma same_sizes_trans: "same_sizes a b \<Longrightarrow> same_sizes b c \<Longrightarrow> same_sizes a c"
  by (simp add: same_sizes_def)

lemma entry_ok_same_sizes: "same_sizes hp hp' \<Longrightarrow> entry_ok h hp' e = entry_ok h hp e"
  by (simp add: same_sizes_def entry_ok_def split: option.splits)

lemma same_sizes_set_data:
  "length xs = length (data (cells hp a)) \<Longrightarrow> same_sizes hp (set_data hp a xs)"
  by (simp add: same_sizes_def set_data_def)

lemma length_ema_formula:
  "length s = length c \<Longrightarrow> length (ema_formula mom s c) = length s"
  by (simp add: ema_formula_def)

lemma same_sizes_shadow_update:
  "entry_ok h hp e \<Longrightarrow> same_sizes hp (shadow_update h mom hp e)"
  by (auto simp: shadow_update_def entry_ok_def same_sizes_refl length_ema_formula
      intro!: same_sizes_set_data split: option.splits)

lemma same_sizes_shadow_swap:
  "entry_ok h hp e \<Longrightarrow> same_sizes hp (shadow_swap h hp e)"
  by (auto simp: shadow_swap_def entry_ok_def same_sizes_def set_data_def split: option.splits)

lemma mul_add_is_formula:
  assumes "b \<noteq> p" and "length (data (cells hp b)) = length (data (cells hp p))"
  shows "add_in_place (mul_in_place hp b mom) b (1 - mom) p
           = Inr (set_data hp b (ema_formula mom (data (cells hp b)) (data (cells hp p))))"
proof -
  have "map2 (\<lambda>x y. x + (1 - mom) * y) (map (\<lambda>x. x * mom) xs) ys
          = map2 (\<lambda>s c. mom * s + (1 - mom) * c) xs ys" for xs ys :: "real list"
    by (simp add: zip_map1 mult.commute case_prod_beta)
  with assms show ?thesis
    by (simp add: add_in_place_def mul_in_place_def set_data_def ema_formula_def)
qed

lemma update_loop_step:
  assumes "entry_ok h hp (n, p)" and "ema_momentum (momentum h) (warm_up h) it = Inr mom"
  shows "update_loop h it ((n, p) # rest) hp = update_loop h it rest (shadow_update h mom hp (n, p))"
proof (cases "is_floating_point (cells hp p)")
  case False
  with assms(2) show ?thesis by (simp add: shadow_update_def)
next
  case True
  from assms(1) obtain b where b: "shadow_of h n = Some b" "b \<noteq> p"
      "length (data (cells hp b)) = length (data (cells hp p))"
    by (auto simp: entry_ok_def split: option.splits)
  from b(1) obtain bn where bn: "dict_get (param_ema_buffer h) n = Some bn"
      "dict_get (model_buffers h) bn = Some b"
    by (auto simp: shadow_of_def split: option.splits)
  from True assms(2) b bn show ?thesis
    by (simp add: shadow_update_def mul_add_is_formula)
qed

lemma update_loop_foldl:
  assumes "ema_momentum (momentum h) (warm_up h) it = Inr mom"
  shows "list_all (entry_ok h hp) ps \<Longrightarrow>
         update_loop h it ps hp = Inr (foldl (shadow_update h mom) hp ps)"
proof (induction ps arbitrary: hp)
  case Nil
  show ?case by simp
next
  case (Cons e ps)
  obtain n p where e: "e = (n, p)" by (cases e)
  from Cons.prems have ok: "entry_ok h hp (n, p)" and rest: "list_all (entry_ok h hp) ps"
    by (simp_all add: e)
  from ok have "same_sizes hp (shadow_update h mom hp (n, p))"
    by (rule same_sizes_shadow_update)
  with rest have "list_all (entry_ok h (shadow_update h mom hp (n, p))) ps"
    by (simp add: entry_ok_same_sizes list_all_iff)
  then have "update_loop h it ps (shadow_update h mom hp (n, p))
      = Inr (foldl (shadow_update h mom) (shadow_update h mom hp (n, p)) ps)"
    by (rule Cons.IH)
  with ok assms show ?case
    by (simp add: e update_loop_step del: update_loop.simps)
qed

lemma swap_loop_step:
  assumes "entry_ok h hp (n, p)"
  shows "swap_loop h ((n, p) # rest) hp = swap_loop h rest (shadow_swap h hp (n, p))"
proof -
  from assms obtain b where b: "shadow_of h n = Some b" "b \<noteq> p"
      "length (data (cells hp b)) = length (data (cells hp p))"
    by (auto simp: entry_ok_def split: option.splits)
  from b(1) obtain bn where bn: "dict_get (param_ema_buffer h) n = Some bn"
      "dict_get (model_buffers h) bn = Some b"
    by (auto simp: shadow_of_def split: option.splits)
  from b bn show ?thesis
    by (simp add: shadow_swap_def copy_in_place_def set_data_def)
qed

lemma swap_loop_foldl:
  "list_all (entry_ok h hp) ps \<Longrightarrow> swap_loop h ps hp = Inr (foldl (shadow_swap h) hp ps)"
proof (induction ps arbitrary: hp)
  case Nil
  show ?case by simp
next
  case (Cons e ps)
  obtain n p where e: "e = (n, p)" by (cases e)
  from Cons.prems have ok: "entry_ok h hp (n, p)" and rest: "list_all (entry_ok h hp) ps"
    by (simp_all add: e)
  from ok have "same_sizes hp (shadow_swap h hp (n, p))"
    by (rule same_sizes_shadow_swap)
  with rest have "list_all (entry_ok h (shadow_swap h hp (n, p))) ps"
    by (simp add: entry_ok_same_sizes list_all_iff)
  then have "swap_loop h ps (shadow_swap h hp (n, p))
      = Inr (foldl (shadow_swap h) (shadow_swap h hp (n, p)) ps)"
    by (rule Cons.IH)
  with ok show ?case
    by (simp add: e swap_loop_step del: swap_loop.simps)
qed

lemma shadow_swap_frame:
  "shadow_swap h hp e = hp\<lparr>cells := cells (shadow_swap h hp e)\<rparr>"
  by (simp add: shadow_swap_def set_data_def split: option.splits)

lemma foldl_shadow_swap_frame:
  "foldl (shadow_swap h) hp ps = hp\<lparr>cells := cells (foldl (shadow_swap h) hp ps)\<rparr>"
proof (induction ps arbitrary: hp)
  case Nil
  show ?case by simp
next
  case (Cons e ps)
  have "foldl (shadow_swap h) (shadow_swap h hp e) ps
      = (shadow_swap h hp e)\<lparr>cells := cells (foldl (shadow_swap h) (shadow_swap h hp e) ps)\<rparr>"
    by (rule Cons.IH)
  also have "\<dots> = hp\<lparr>cells := cells (foldl (shadow_swap h) (shadow_swap h hp e) ps)\<rparr>"
    by (subst shadow_swap_frame) simp
  finally show ?case by simp
qed

lemma shadow_swap_other:
  "a \<noteq> snd e \<Longrightarrow> a \<noteq> the (shadow_of h (fst e)) \<Longrightarrow> cells (shadow_swap h hp e) a = cells hp a"
  by (cases "shadow_of h (fst e)") (simp_all add: shadow_swap_def set_data_def)

lemma foldl_shadow_swap_other:
  "a \<notin> snd ` set ps \<Longrightarrow> a \<notin> set (shadows h ps) \<Longrightarrow>
   cells (foldl (shadow_swap h) hp ps) a = cells hp a"
  by (induction ps arbitrary: hp) (simp_all add: shadows_def shadow_swap_other)

lemma shadow_swap_entry:
  assumes "shadow_of h n = Some b" and "b \<noteq> p"
  shows "cells (shadow_swap h hp (n, p)) p = (cells hp p)\<lparr>data := data (cells hp b)\<rparr>"
    and "cells (shadow_swap h hp (n, p)) b = (cells hp b)\<lparr>data := data (cells hp p)\<rparr>"
  using assms by (simp_all add: shadow_swap_def set_data_def)

lemma foldl_shadow_swap_entry:
  assumes "distinct (map snd ps @ shadows h ps)" and "(n, p) \<in> set ps"
    and "shadow_of h n = Some b"
  shows "cells (foldl (shadow_swap h) hp ps) p = (cells hp p)\<lparr>data := data (cells hp b)\<rparr>
       \<and> cells (foldl (shadow_swap h) hp ps) b = (cells hp b)\<lparr>data := data (cells hp p)\<rparr>"
  using assms(1,2)
proof (induction ps arbitrary: hp)
  case Nil
  then show ?case by simp
next
  case (Cons e ps)
  let ?hp1 = "shadow_swap h hp e"
  from Cons.prems(1) have d: "distinct (map snd ps @ shadows h ps)"
    and e1: "snd e \<notin> snd ` set ps" "snd e \<notin> set (shadows h ps)"
    and e2: "the (shadow_of h (fst e)) \<notin> snd ` set ps" "the (shadow_of h (fst e)) \<notin> set (shadows h ps)"
    and e3: "snd e \<noteq> the (shadow_of h (fst e))"
    by (auto simp: shadows_def)
  show ?case
  proof (cases "e = (n, p)")
    case True
    with e1 e2 e3 assms(3) have "cells (foldl (shadow_swap h) ?hp1 ps) p = cells ?hp1 p"
      and "cells (foldl (shadow_swap h) ?hp1 ps) b = cells ?hp1 b" and "b \<noteq> p"
      by (auto simp: foldl_shadow_swap_other)
    with True assms(3) show ?thesis
      by (simp add: shadow_swap_entry)
  next
    case False
    with Cons.prems(2) have mem: "(n, p) \<in> set ps" by simp
    from mem have pm: "p \<in> snd ` set ps" by force
    from mem assms(3) have bm: "b \<in> set (shadows h ps)" by (force simp: shadows_def)
    from pm bm e1 e2 have ne: "p \<noteq> snd e" "p \<noteq> the (shadow_of h (fst e))"
        "b \<noteq> snd e" "b \<noteq> the (shadow_of h (fst e))"
      by blast+
    from Cons.IH [OF d mem, of ?hp1] ne show ?thesis
      by (simp add: shadow_swap_other)
  qed
qed

lemma same_sizes_foldl_shadow_swap:
  "list_all (entry_ok h hp) ps \<Longrightarrow> same_sizes hp (foldl (shadow_swap h) hp ps)"
proof (induction ps arbitrary: hp)
  case Nil
  show ?case by (simp add: same_sizes_refl)
next
  case (Cons e ps)
  from Cons.prems have s: "same_sizes hp (shadow_swap h hp e)"
    by (simp add: same_sizes_shadow_swap)
  with Cons.prems have "list_all (entry_ok h (shadow_swap h hp e)) ps"
    by (simp add: entry_ok_same_sizes list_all_iff)
  then have "same_sizes (shadow_swap h hp e) (foldl (shadow_swap h) (shadow_swap h hp e) ps)"
    by (rule Cons.IH)
  with s show ?case
    by (auto intro: same_sizes_trans)
qed

lemma swap_twice_restores:
  assumes ok: "entries_ok h hp" and oto: "one_to_one h"
  shows "\<exists>hp1. swap_ema_parameters h hp = Inr hp1 \<and> swap_ema_parameters h hp1 = Inr hp"
proof -
  let ?ps = "model_parameters h"
  let ?hp1 = "foldl (shadow_swap h) hp ?ps"
  let ?hp2 = "foldl (shadow_swap h) ?hp1 ?ps"
  from ok have ok0: "list_all (entry_ok h hp) ?ps"
    by (simp add: entries_ok_def)
  then have first: "swap_ema_parameters h hp = Inr ?hp1"
    by (simp add: swap_ema_parameters_def swap_loop_foldl)
  from ok0 have "same_sizes hp ?hp1"
    by (rule same_sizes_foldl_shadow_swap)
  with ok0 have ok1: "list_all (entry_ok h ?hp1) ?ps"
    by (simp add: entry_ok_same_sizes list_all_iff)
  then have second: "swap_ema_parameters h ?hp1 = Inr ?hp2"
    by (simp add: swap_ema_parameters_def swap_loop_foldl)
  from oto have d: "distinct (map snd ?ps @ shadows h ?ps)"
    by (simp add: one_to_one_def)
  have "cells ?hp2 a = cells hp a" for a
  proof (cases "a \<in> snd ` set ?ps \<or> a \<in> set (shadows h ?ps)")
    case False
    then show ?thesis
      by (simp add: foldl_shadow_swap_other)
  next
    case True
    then obtain n p b where mem: "(n, p) \<in> set ?ps" and b: "shadow_of h n = Some b"
      and a: "a = p \<or> a = b"
    proof
      assume "a \<in> snd ` set ?ps"
      then obtain n where m: "(n, a) \<in> set ?ps" by auto
      with ok0 obtain b where "shadow_of h n = Some b"
        by (auto simp: list_all_iff entry_ok_def split: option.splits)
      with m that show thesis by blast
    next
      assume "a \<in> set (shadows h ?ps)"
      then obtain n p where m: "(n, p) \<in> set ?ps" and "a = the (shadow_of h n)"
        by (auto simp: shadows_def)
      moreover from m ok0 obtain b where "shadow_of h n = Some b"
        by (auto simp: list_all_iff entry_ok_def split: option.splits)
      ultimately show thesis using that by auto
    qed
    from foldl_shadow_swap_entry [OF d mem b, of hp] foldl_shadow_swap_entry [OF d mem b, of ?hp1] a
    show ?thesis
      by auto
  qed
  then have "cells ?hp2 = cells hp"
    by (rule ext)
  then have "?hp2 = hp"
    by (subst foldl_shadow_swap_frame, subst foldl_shadow_swap_frame) simp
  with first second show ?thesis
    by simp
qed

lemma register_loop_ConsE:
  assumes "register_loop ((n, p) # rest) peb m hp = Inr r"
  obtains "CHR ''.'' \<notin> set (ema_buffer_name n)"
    and "register_loop rest (dict_set peb n (ema_buffer_name n))
           (m\<lparr>named_buffers := dict_set (named_buffers m) (ema_buffer_name n) (next_free hp)\<rparr>)
           (hp\<lparr>cells := (cells hp)(next_free hp := cells hp p), next_free := Suc (next_free hp)\<rparr>) = Inr r"
  using assms
  by (auto simp: Let_def clone_def register_buffer_def split: sum.splits if_splits)

lemma register_loop_frame:
  "register_loop ps peb m hp = Inr (peb', m', hp') \<Longrightarrow>
   next_free hp' = next_free hp + length ps
   \<and> (\<forall>a < next_free hp. cells hp' a = cells hp a)
   \<and> named_parameters m' = named_parameters m"
proof (induction ps arbitrary: peb m hp)
  case Nil
  then show ?case by simp
next
  case (Cons e ps)
  obtain n p where e: "e = (n, p)" by (cases e)
  from Cons.prems show ?case
    unfolding e
  proof (rule register_loop_ConsE)
    assume "register_loop ps (dict_set peb n (ema_buffer_name n))
           (m\<lparr>named_buffers := dict_set (named_buffers m) (ema_buffer_name n) (next_free hp)\<rparr>)
           (hp\<lparr>cells := (cells hp)(next_free hp := cells hp p), next_free := Suc (next_free hp)\<rparr>)
         = Inr (peb', m', hp')"
    from Cons.IH [OF this] show "next_free hp' = next_free hp + length ((n, p) # ps)
      \<and> (\<forall>a < next_free hp. cells hp' a = cells hp a)
      \<and> named_parameters m' = named_parameters m"
      by simp
  qed
qed

lemma register_loop_names:
  "register_loop ps peb m hp = Inr (peb', m', hp') \<Longrightarrow>
   dict_get peb' k = (if k \<in> fst ` set ps then Some (ema_buffer_name k) else dict_get peb k)"
proof (induction ps arbitrary: peb m hp)
  case Nil
  then show ?case by simp
next
  case (Cons e ps)
  obtain n p where e: "e = (n, p)" by (cases e)
  from Cons.prems show ?case
    unfolding e
  proof (rule register_loop_ConsE)
    assume "register_loop ps (dict_set peb n (ema_buffer_name n))
           (m\<lparr>named_buffers := dict_set (named_buffers m) (ema_buffer_name n) (next_free hp)\<rparr>)
           (hp\<lparr>cells := (cells hp)(next_free hp := cells hp p), next_free := Suc (next_free hp)\<rparr>)
         = Inr (peb', m', hp')"
    from Cons.IH [OF this]
    show "dict_get peb' k = (if k \<in> fst ` set ((n, p) # ps) then Some (ema_buffer_name k) else dict_get peb k)"
      by (simp add: dict_get_dict_set)
  qed
qed

lemma register_loop_keys:
  "register_loop ps peb m hp = Inr (peb', m', hp') \<Longrightarrow> distinct (map fst ps) \<Longrightarrow>
   fst ` set ps \<inter> fst ` set peb = {} \<Longrightarrow> map fst peb' = map fst peb @ map fst ps"
proof (induction ps arbitrary: peb m hp)
  case Nil
  then show ?case by simp
next
  case (Cons e ps)
  obtain n p where e: "e = (n, p)" by (cases e)
  from Cons.prems(1) show ?case
    unfolding e
  proof (rule register_loop_ConsE)
    assume r: "register_loop ps (dict_set peb n (ema_buffer_name n))
           (m\<lparr>named_buffers := dict_set (named_buffers m) (ema_buffer_name n) (next_free hp)\<rparr>)
           (hp\<lparr>cells := (cells hp)(next_free hp := cells hp p), next_free := Suc (next_free hp)\<rparr>)
         = Inr (peb', m', hp')"
    from Cons.prems(2,3) have new: "n \<notin> fst ` set peb" and d: "distinct (map fst ps)"
      and "n \<notin> fst ` set ps" and "fst ` set ps \<inter> fst ` set peb = {}"
      by (auto simp: e)
    then have "fst ` set ps \<inter> fst ` set (dict_set peb n (ema_buffer_name n)) = {}"
      by (auto simp: keys_dict_set)
    from Cons.IH [OF r d this] new
    show "map fst peb' = map fst peb @ map fst ((n, p) # ps)"
      by (simp add: dict_set_new)
  qed
qed

lemma register_loop_buffers_other:
  "register_loop ps peb m hp = Inr (peb', m', hp') \<Longrightarrow>
   k \<notin> ema_buffer_name ` fst ` set ps \<Longrightarrow>
   dict_get (named_buffers m') k = dict_get (named_buffers m) k"
proof (induction ps arbitrary: peb m hp)
  case Nil
  then show ?case by simp
next
  case (Cons e ps)
  obtain n p where e: "e = (n, p)" by (cases e)
  from Cons.prems(1) show ?case
    unfolding e
  proof (rule register_loop_ConsE)
    assume r: "register_loop ps (dict_set peb n (ema_buffer_name n))
           (m\<lparr>named_buffers := dict_set (named_buffers m) (ema_buffer_name n) (next_free hp)\<rparr>)
           (hp\<lparr>cells := (cells hp)(next_free hp := cells hp p), next_free := Suc (next_free hp)\<rparr>)
         = Inr (peb', m', hp')"
    from Cons.prems(2) have "k \<notin> ema_buffer_name ` fst ` set ps" and "k \<noteq> ema_buffer_name n"
      by (auto simp: e)
    with Cons.IH [OF r] show "dict_get (named_buffers m') k = dict_get (named_buffers m) k"
      by (simp add: dict_get_dict_set)
  qed
qed

lemma register_loop_buffer_keys:
  "register_loop ps peb m hp = Inr (peb', m', hp') \<Longrightarrow>
   distinct (map fst (named_buffers m)) \<Longrightarrow> distinct (map fst (named_buffers m'))"
proof (induction ps arbitrary: peb m hp)
  case Nil
  then show ?case by simp
next
  case (Cons e ps)
  obtain n p where e: "e = (n, p)" by (cases e)
  from Cons.prems(1) show ?case
    unfolding e
  proof (rule register_loop_ConsE)
    assume r: "register_loop ps (dict_set peb n (ema_buffer_name n))
           (m\<lparr>named_buffers := dict_set (named_buffers m) (ema_buffer_name n) (next_free hp)\<rparr>)
           (hp\<lparr>cells := (cells hp)(next_free hp := cells hp p), next_free := Suc (next_free hp)\<rparr>)
         = Inr (peb', m', hp')"
    from Cons.prems(2) Cons.IH [OF r] show "distinct (map fst (named_buffers m'))"
      by (simp add: distinct_dict_set)
  qed
qed

lemma register_loop_buffer_exists:
  "register_loop ps peb m hp = Inr (peb', m', hp') \<Longrightarrow> (n, p) \<in> set ps \<Longrightarrow>
   \<exists>b. dict_get (named_buffers m') (ema_buffer_name n) = Some b
        \<and> next_free hp \<le> b \<and> b < next_free hp'"
proof (induction ps arbitrary: peb m hp n p)
  case Nil
  then show ?case by simp
next
  case (Cons e ps)
  obtain n0 p0 where e: "e = (n0, p0)" by (cases e)
  from Cons.prems(1) show ?case
    unfolding e
  proof (rule register_loop_ConsE)
    let ?m1 = "m\<lparr>named_buffers := dict_set (named_buffers m) (ema_buffer_name n0) (next_free hp)\<rparr>"
    let ?hp1 = "hp\<lparr>cells := (cells hp)(next_free hp := cells hp p0), next_free := Suc (next_free hp)\<rparr>"
    assume r: "register_loop ps (dict_set peb n0 (ema_buffer_name n0)) ?m1 ?hp1 = Inr (peb', m', hp')"
    from register_loop_frame [OF r] have nf: "next_free hp' = Suc (next_free hp) + length ps"
      by simp
    show "\<exists>b. dict_get (named_buffers m') (ema_buffer_name n) = Some b
        \<and> next_free hp \<le> b \<and> b < next_free hp'"
    proof (cases "ema_buffer_name n \<in> ema_buffer_name ` fst ` set ps")
      case True
      then obtain n' p' where mem: "(n', p') \<in> set ps" and "ema_buffer_name n' = ema_buffer_name n"
        by force
      with Cons.IH [OF r mem] show ?thesis by auto
    next
      case False
      with Cons.prems(2) have "n = n0"
        by (force simp: e)
      with False register_loop_buffers_other [OF r, of "ema_buffer_name n"] nf show ?thesis
        by (simp add: dict_get_dict_set)
    qed
  qed
qed

lemma register_loop_clones:
  "register_loop ps peb m hp = Inr (peb', m', hp') \<Longrightarrow>
   distinct (map (\<lambda>e. ema_buffer_name (fst e)) ps) \<Longrightarrow> i < length ps \<Longrightarrow>
   dict_get (named_buffers m') (ema_buffer_name (fst (ps ! i))) = Some (next_free hp + i)
   \<and> (snd (ps ! i) < next_free hp \<longrightarrow> cells hp' (next_free hp + i) = cells hp (snd (ps ! i)))"
proof (induction ps arbitrary: peb m hp i)
  case Nil
  then show ?case by simp
next
  case (Cons e ps)
  obtain n0 p0 where e: "e = (n0, p0)" by (cases e)
  from Cons.prems(1) show ?case
    unfolding e
  proof (rule register_loop_ConsE)
    let ?m1 = "m\<lparr>named_buffers := dict_set (named_buffers m) (ema_buffer_name n0) (next_free hp)\<rparr>"
    let ?hp1 = "hp\<lparr>cells := (cells hp)(next_free hp := cells hp p0), next_free := Suc (next_free hp)\<rparr>"
    assume r: "register_loop ps (dict_set peb n0 (ema_buffer_name n0)) ?m1 ?hp1 = Inr (peb', m', hp')"
    from Cons.prems(2) have d: "distinct (map (\<lambda>e. ema_buffer_name (fst e)) ps)"
      and new: "ema_buffer_name n0 \<notin> ema_buffer_name ` fst ` set ps"
      by (auto simp: e)
    show "dict_get (named_buffers m') (ema_buffer_name (fst (((n0, p0) # ps) ! i))) = Some (next_free hp + i)
      \<and> (snd (((n0, p0) # ps) ! i) < next_free hp
           \<longrightarrow> cells hp' (next_free hp + i) = cells hp (snd (((n0, p0) # ps) ! i)))"
    proof (cases i)
      case 0
      from register_loop_buffers_other [OF r new] register_loop_frame [OF r] 0
      show ?thesis
        by (simp add: dict_get_dict_set)
    next
      case (Suc j)
      with Cons.prems(3) have j: "j < length ps" by simp
      from Cons.IH [OF r d j] Suc show ?thesis
        by auto
    qed
  qed
qed

lemma shadow_update_other:
  "a \<noteq> the (shadow_of h (fst e)) \<Longrightarrow> cells (shadow_update h mom hp e) a = cells hp a"
  by (cases "shadow_of h (fst e)") (simp_all add: shadow_update_def set_data_def)

lemma foldl_shadow_update_other:
  "a \<notin> set (shadows h ps) \<Longrightarrow> cells (foldl (shadow_update h mom) hp ps) a = cells hp a"
  by (induction ps arbitrary: hp) (simp_all add: shadows_def shadow_update_other)

lemma foldl_shadow_update_entry:
  assumes "distinct (map snd ps @ shadows h ps)" and "(n, p) \<in> set ps"
    and "shadow_of h n = Some b"
  shows "cells (foldl (shadow_update h mom) hp ps) b =
           (if is_floating_point (cells hp p)
            then (cells hp b)\<lparr>data := ema_formula mom (data (cells hp b)) (data (cells hp p))\<rparr>
            else cells hp b)"
  using assms(1,2)
proof (induction ps arbitrary: hp)
  case Nil
  then show ?case by simp
next
  case (Cons e ps)
  let ?hp1 = "shadow_update h mom hp e"
  from Cons.prems(1) have d: "distinct (map snd ps @ shadows h ps)"
    and e1: "snd e \<notin> set (shadows h ps)"
    and e2: "the (shadow_of h (fst e)) \<notin> snd ` set ps" "the (shadow_of h (fst e)) \<notin> set (shadows h ps)"
    by (auto simp: shadows_def)
  show ?case
  proof (cases "e = (n, p)")
    case True
    with e2 assms(3) have eq: "cells (foldl (shadow_update h mom) ?hp1 ps) b = cells ?hp1 b"
      by (simp add: foldl_shadow_update_other)
    from True assms(3) have "cells ?hp1 b =
           (if is_floating_point (cells hp p)
            then (cells hp b)\<lparr>data := ema_formula mom (data (cells hp b)) (data (cells hp p))\<rparr>
            else cells hp b)"
      by (simp add: shadow_update_def set_data_def)
    with eq show ?thesis
      by simp
  next
    case False
    with Cons.prems(2) have mem: "(n, p) \<in> set ps" by simp
    from mem have pm: "p \<in> snd ` set ps" by force
    from mem assms(3) have bm: "b \<in> set (shadows h ps)" by (force simp: shadows_def)
    from pm bm e2 have ne: "p \<noteq> the (shadow_of h (fst e))" "b \<noteq> the (shadow_of h (fst e))"
      by blast+
    from Cons.IH [OF d mem, of ?hp1] ne show ?thesis
      by (simp add: shadow_update_other)
  qed
qed

text \<open>
  C4, as the code has it. For a hook with a positive interval and a positive warm-up, on
  a store whose entries are in order, and an iteration \<open>i\<close> from 0 on: after iteration
  \<open>i\<close> the heap is unchanged when \<open>(i + 1) mod interval \<noteq> 0\<close>; when
  \<open>(i + 1) mod interval = 0\<close> the call returns the heap on which the update rule
  \<open>shadow = momentum_t * shadow + (1 - momentum_t) * current\<close> has been applied in place,
  once for every floating-point entry of \<open>model_parameters\<close> in order, with
  \<open>momentum_t = momentum * (1 - exp (- i / warm_up))\<close>. When parameters and shadow
  buffers are pairwise different tensors, this leaves in the shadow buffer of every
  floating-point parameter the rule applied to the values the buffer and the parameter
  had before the call, and leaves every other tensor as it was: the parameters, and the
  shadow buffers of the parameters that are not floating-point, which are shadowed too
  and never updated.
\<close>

theorem ema_update_schedule:
  assumes "0 < interval h" and "0 < warm_up h" and "entries_ok h hp" and "0 \<le> r_iter r"
  shows "((r_iter r + 1) mod interval h \<noteq> 0 \<longrightarrow> ema_after_train_iter h r hp = Inr hp)
       \<and> ((r_iter r + 1) mod interval h = 0 \<longrightarrow>
            ema_after_train_iter h r hp =
              Inr (foldl (shadow_update h (momentum_t (momentum h) (warm_up h) (r_iter r))) hp
                     (model_parameters h)))
       \<and> (one_to_one h \<longrightarrow>
            (\<forall>(n, p) \<in> set (model_parameters h). \<forall>b. shadow_of h n = Some b \<longrightarrow>
               cells (foldl (shadow_update h (momentum_t (momentum h) (warm_up h) (r_iter r))) hp
                        (model_parameters h)) b =
                 (if is_floating_point (cells hp p)
                  then (cells hp b)\<lparr>data := ema_formula (momentum_t (momentum h) (warm_up h) (r_iter r))
                                              (data (cells hp b)) (data (cells hp p))\<rparr>
                  else cells hp b))
            \<and> (\<forall>a. a \<notin> set (shadows h (model_parameters h)) \<longrightarrow>
                 cells (foldl (shadow_update h (momentum_t (momentum h) (warm_up h) (r_iter r))) hp
                          (model_parameters h)) a = cells hp a))"
proof -
  let ?mom = "momentum_t (momentum h) (warm_up h) (r_iter r)"
  from assms(2,4) have m: "ema_momentum (momentum h) (warm_up h) (r_iter r) = Inr ?mom"
    by (rule ema_momentum_returns)
  from assms(3) have "list_all (entry_ok h hp) (model_parameters h)"
    by (simp add: entries_ok_def)
  with m have "update_loop h (r_iter r) (model_parameters h) hp
      = Inr (foldl (shadow_update h ?mom) hp (model_parameters h))"
    by (rule update_loop_foldl)
  with assms(1) have gate: "(r_iter r + 1) mod interval h \<noteq> 0 \<longrightarrow> ema_after_train_iter h r hp = Inr hp"
    and run: "(r_iter r + 1) mod interval h = 0 \<longrightarrow>
            ema_after_train_iter h r hp = Inr (foldl (shadow_update h ?mom) hp (model_parameters h))"
    by (simp_all add: ema_after_train_iter_def)
  have closed: "one_to_one h \<longrightarrow>
            (\<forall>(n, p) \<in> set (model_parameters h). \<forall>b. shadow_of h n = Some b \<longrightarrow>
               cells (foldl (shadow_update h ?mom) hp (model_parameters h)) b =
                 (if is_floating_point (cells hp p)
                  then (cells hp b)\<lparr>data := ema_formula ?mom (data (cells hp b)) (data (cells hp p))\<rparr>
                  else cells hp b))
            \<and> (\<forall>a. a \<notin> set (shadows h (model_parameters h)) \<longrightarrow>
                 cells (foldl (shadow_update h ?mom) hp (model_parameters h)) a = cells hp a)"
    by (auto simp: one_to_one_def foldl_shadow_update_entry foldl_shadow_update_other)
  from gate run closed show ?thesis
    by blast
qed

lemma same_sizes_foldl_shadow_update:
  "list_all (entry_ok h hp) ps \<Longrightarrow> same_sizes hp (foldl (shadow_update h mom) hp ps)"
proof (induction ps arbitrary: hp)
  case Nil
  show ?case by (simp add: same_sizes_refl)
next
  case (Cons e ps)
  from Cons.prems have s: "same_sizes hp (shadow_update h mom hp e)"
    by (simp add: same_sizes_shadow_update)
  with Cons.prems have "list_all (entry_ok h (shadow_update h mom hp e)) ps"
    by (simp add: entry_ok_same_sizes list_all_iff)
  then have "same_sizes (shadow_update h mom hp e) (foldl (shadow_update h mom) (shadow_update h mom hp e) ps)"
    by (rule Cons.IH)
  with s show ?case
    by (auto intro: same_sizes_trans)
qed

lemma ema_calls_return:
  assumes "0 < interval h" and "0 < warm_up h" and "0 \<le> r_iter r" and "entries_ok h hp"
  shows "\<exists>hp1 hp2. ema_after_train_iter h r hp = Inr hp1 \<and> entries_ok h hp1
            \<and> ema_after_train_epoch h r hp = Inr hp2 \<and> entries_ok h hp2
            \<and> ema_before_train_epoch h r hp = Inr hp2"
proof -
  let ?ps = "model_parameters h"
  let ?mom = "momentum_t (momentum h) (warm_up h) (r_iter r)"
  from assms(4) have ok: "list_all (entry_ok h hp) ?ps"
    by (simp add: entries_ok_def)
  from assms(2,3) have m: "ema_momentum (momentum h) (warm_up h) (r_iter r) = Inr ?mom"
    by (rule ema_momentum_returns)
  let ?hp1 = "if (r_iter r + 1) mod interval h \<noteq> 0 then hp else foldl (shadow_update h ?mom) hp ?ps"
  let ?hp2 = "foldl (shadow_swap h) hp ?ps"
  from assms(1) update_loop_foldl [OF m ok]
  have u: "ema_after_train_iter h r hp = Inr ?hp1"
    by (simp add: ema_after_train_iter_def)
  from ok have s: "swap_ema_parameters h hp = Inr ?hp2"
    by (simp add: swap_ema_parameters_def swap_loop_foldl)
  from ok have "same_sizes hp ?hp1"
    by (simp add: same_sizes_refl same_sizes_foldl_shadow_update)
  with ok have ok1: "entries_ok h ?hp1"
    by (simp add: entries_ok_def entry_ok_same_sizes list_all_iff)
  from ok have "same_sizes hp ?hp2"
    by (rule same_sizes_foldl_shadow_swap)
  with ok have ok2: "entries_ok h ?hp2"
    by (simp add: entries_ok_def entry_ok_same_sizes list_all_iff)
  from u s ok1 ok2 show ?thesis
    by (simp add: ema_after_train_epoch_def ema_before_train_epoch_def)
qed

text \<open>
  C7, as the code has it. The update (\<open>after_train_iter\<close>) and the swaps
  (\<open>after_train_epoch\<close>, \<open>before_train_epoch\<close>) never look at the model the runner
  holds: whatever model \<open>m\<close> the runner holds at the call, whether its parameters are
  those captured by \<open>before_run\<close> or not, each call has the same outcome, the same
  heap or the same exception. For a hook with a positive interval and a positive
  warm-up, at an iteration from 0 on and on a store whose entries are in order, the
  calls return without an exception and leave the entries in order.
\<close>

theorem ema_calls_ignore_current_model:
  "ema_after_train_iter h (r\<lparr>r_model := m\<rparr>) hp = ema_after_train_iter h r hp
   \<and> ema_after_train_epoch h (r\<lparr>r_model := m\<rparr>) hp = ema_after_train_epoch h r hp
   \<and> ema_before_train_epoch h (r\<lparr>r_model := m\<rparr>) hp = ema_before_train_epoch h r hp
   \<and> (0 < interval h \<and> 0 < warm_up h \<and> 0 \<le> r_iter r \<and> entries_ok h hp \<longrightarrow>
        (\<exists>hp1 hp2. ema_after_train_iter h (r\<lparr>r_model := m\<rparr>) hp = Inr hp1 \<and> entries_ok h hp1
            \<and> ema_after_train_epoch h (r\<lparr>r_model := m\<rparr>) hp = Inr hp2 \<and> entries_ok h hp2
            \<and> ema_before_train_epoch h (r\<lparr>r_model := m\<rparr>) hp = Inr hp2))"
proof -
  have same: "ema_after_train_iter h (r\<lparr>r_model := m\<rparr>) hp = ema_after_train_iter h r hp"
      "ema_after_train_epoch h (r\<lparr>r_model := m\<rparr>) hp = ema_after_train_epoch h r hp"
      "ema_before_train_epoch h (r\<lparr>r_model := m\<rparr>) hp = ema_before_train_epoch h r hp"
    by (simp_all add: ema_after_train_iter_def ema_after_train_epoch_def ema_before_train_epoch_def)
  have "\<exists>hp1 hp2. ema_after_train_iter h (r\<lparr>r_model := m\<rparr>) hp = Inr hp1 \<and> entries_ok h hp1
            \<and> ema_after_train_epoch h (r\<lparr>r_model := m\<rparr>) hp = Inr hp2 \<and> entries_ok h hp2
            \<and> ema_before_train_epoch h (r\<lparr>r_model := m\<rparr>) hp = Inr hp2"
    if "0 < interval h" and "0 < warm_up h" and "0 \<le> r_iter r" and "entries_ok h hp"
    using ema_calls_return [OF that] unfolding same .
  with same show ?thesis
    by blast
qed

lemma register_ema_unfold:
  assumes "distinct (map fst (named_parameters m))" and "distinct (map fst (named_buffers m))"
    and "register_ema h m hp = Inr (h', m', hp')"
  shows "\<exists>peb. register_loop (named_parameters m) [] m hp = Inr (peb, m', hp')
           \<and> h' = h\<lparr>param_ema_buffer := peb, model_parameters := named_parameters m,
                     model_buffers := named_buffers m'\<rparr>"
proof -
  from assms(1) have mp: "dict_of_pairs (named_parameters m) [] = named_parameters m"
    by (rule dict_of_pairs_id)
  with assms(3) obtain peb where loop: "register_loop (named_parameters m) [] m hp = Inr (peb, m', hp')"
    and h': "h' = h\<lparr>param_ema_buffer := peb, model_parameters := named_parameters m,
                     model_buffers := dict_of_pairs (named_buffers m') []\<rparr>"
    by (auto simp: register_ema_def Let_def split: sum.splits)
  from loop assms(2) have "distinct (map fst (named_buffers m'))"
    by (rule register_loop_buffer_keys)
  then have "dict_of_pairs (named_buffers m') [] = named_buffers m'"
    by (rule dict_of_pairs_id)
  with loop h' show ?thesis
    by simp
qed

text \<open>
  C6, as the code has it. For a model with unique parameter and buffer names whose
  parameters are tensors of the heap, a registration that returns has captured the
  parameters as they are, has given every parameter, floating-point or not, exactly one
  entry of the name map (\<open>name\<close> to \<open>ema_\<close> followed by the name with \<open>_\<close> for \<open>.\<close>),
  and has registered under that buffer name a tensor made during the registration; the
  tensors that existed before are unchanged. When no two parameters are given the same
  buffer name, the shadow buffer of every parameter is a clone of the parameter (same
  dtype, same values).
\<close>

theorem register_ema_shadows_every_parameter:
  assumes names: "distinct (map fst (named_parameters m))"
    and bufs: "distinct (map fst (named_buffers m))"
    and alloc: "\<forall>a \<in> snd ` set (named_parameters m). a < next_free hp"
    and reg: "register_ema h m hp = Inr (h', m', hp')"
  shows "model_parameters h' = named_parameters m
     \<and> map fst (param_ema_buffer h') = map fst (named_parameters m)
     \<and> (\<forall>(n, p) \<in> set (named_parameters m).
          dict_get (param_ema_buffer h') n = Some (ema_buffer_name n)
          \<and> (\<exists>b. shadow_of h' n = Some b
                 \<and> dict_get (named_buffers m') (ema_buffer_name n) = Some b
                 \<and> next_free hp \<le> b \<and> b < next_free hp'))
     \<and> (\<forall>a < next_free hp. cells hp' a = cells hp a)
     \<and> (distinct (map (\<lambda>e. ema_buffer_name (fst e)) (named_parameters m)) \<longrightarrow>
          (\<forall>(n, p) \<in> set (named_parameters m).
             \<exists>b. shadow_of h' n = Some b \<and> cells hp' b = cells hp p))"
proof -
  let ?ps = "named_parameters m"
  from register_ema_unfold [OF names bufs reg] obtain peb
    where loop: "register_loop ?ps [] m hp = Inr (peb, m', hp')"
      and h': "h' = h\<lparr>param_ema_buffer := peb, model_parameters := ?ps,
                     model_buffers := named_buffers m'\<rparr>"
    by blast
  have peb: "dict_get peb k = (if k \<in> fst ` set ?ps then Some (ema_buffer_name k) else None)" for k
    using register_loop_names [OF loop, of k] by simp
  have sh: "shadow_of h' n = dict_get (named_buffers m') (ema_buffer_name n)"
    if "(n, p) \<in> set ?ps" for n p
  proof -
    from that have "n \<in> fst ` set ?ps" by force
    then show ?thesis
      by (simp add: shadow_of_def h' peb)
  qed
  have A: "model_parameters h' = ?ps"
    by (simp add: h')
  from register_loop_keys [OF loop names] have B: "map fst (param_ema_buffer h') = map fst ?ps"
    by (simp add: h')
  have C: "\<forall>(n, p) \<in> set ?ps.
          dict_get (param_ema_buffer h') n = Some (ema_buffer_name n)
          \<and> (\<exists>b. shadow_of h' n = Some b
                 \<and> dict_get (named_buffers m') (ema_buffer_name n) = Some b
                 \<and> next_free hp \<le> b \<and> b < next_free hp')"
  proof (clarify, rule conjI)
    fix n p assume mem: "(n, p) \<in> set ?ps"
    then have "n \<in> fst ` set ?ps" by force
    then show "dict_get (param_ema_buffer h') n = Some (ema_buffer_name n)"
      by (simp add: h' peb)
    from register_loop_buffer_exists [OF loop mem] sh [OF mem]
    show "\<exists>b. shadow_of h' n = Some b
                 \<and> dict_get (named_buffers m') (ema_buffer_name n) = Some b
                 \<and> next_free hp \<le> b \<and> b < next_free hp'"
      by auto
  qed
  from register_loop_frame [OF loop] have D: "\<forall>a < next_free hp. cells hp' a = cells hp a"
    by simp
  have E: "distinct (map (\<lambda>e. ema_buffer_name (fst e)) ?ps) \<longrightarrow>
          (\<forall>(n, p) \<in> set ?ps. \<exists>b. shadow_of h' n = Some b \<and> cells hp' b = cells hp p)"
  proof (intro impI, clarify)
    fix n p
    assume d: "distinct (map (\<lambda>e. ema_buffer_name (fst e)) ?ps)" and mem: "(n, p) \<in> set ?ps"
    from mem obtain i where i: "i < length ?ps" "?ps ! i = (n, p)"
      by (auto simp: in_set_conv_nth)
    from mem alloc have "p < next_free hp" by force
    with register_loop_clones [OF loop d i(1)] i(2) sh [OF mem]
    show "\<exists>b. shadow_of h' n = Some b \<and> cells hp' b = cells hp p"
      by simp
  qed
  from A B C D E show ?thesis
    by blast
qed

lemma register_ema_establishes:
  assumes names: "distinct (map fst (named_parameters m))"
    and bufs: "distinct (map fst (named_buffers m))"
    and addrs: "distinct (map snd (named_parameters m))"
    and alloc: "\<forall>a \<in> snd ` set (named_parameters m). a < next_free hp"
    and mangled: "distinct (map (\<lambda>e. ema_buffer_name (fst e)) (named_parameters m))"
    and reg: "register_ema h m hp = Inr (h', m', hp')"
  shows "entries_ok h' hp'" and "one_to_one h'"
proof -
  let ?ps = "named_parameters m"
  from register_ema_unfold [OF names bufs reg] obtain peb
    where loop: "register_loop ?ps [] m hp = Inr (peb, m', hp')"
      and h': "h' = h\<lparr>param_ema_buffer := peb, model_parameters := ?ps,
                     model_buffers := named_buffers m'\<rparr>"
    by blast
  have peb: "dict_get peb k = (if k \<in> fst ` set ?ps then Some (ema_buffer_name k) else None)" for k
    using register_loop_names [OF loop, of k] by simp
  have sh: "shadow_of h' (fst (?ps ! i)) = Some (next_free hp + i)
      \<and> cells hp' (next_free hp + i) = cells hp (snd (?ps ! i))" if "i < length ?ps" for i
  proof -
    from that have mem: "?ps ! i \<in> set ?ps" by simp
    then have "fst (?ps ! i) \<in> fst ` set ?ps" by (rule imageI)
    moreover from mem alloc have "snd (?ps ! i) < next_free hp" by force
    ultimately show ?thesis
      using register_loop_clones [OF loop mangled that] by (simp add: shadow_of_def h' peb)
  qed
  from register_loop_frame [OF loop] have frame: "\<forall>a < next_free hp. cells hp' a = cells hp a"
    by simp
  have "entry_ok h' hp' e" if "e \<in> set ?ps" for e
  proof -
    from that obtain i where i: "i < length ?ps" "?ps ! i = e"
      by (auto simp: in_set_conv_nth)
    from that alloc have lt: "snd e < next_free hp" by force
    with frame have "cells hp' (snd e) = cells hp (snd e)" by simp
    with sh [OF i(1)] i(2) lt show ?thesis
      by (simp add: entry_ok_def)
  qed
  then show "entries_ok h' hp'"
    by (simp add: entries_ok_def h' list_all_iff)
  have "shadows h' ?ps = map (\<lambda>i. next_free hp + i) [0..<length ?ps]"
    by (rule nth_equalityI) (simp_all add: shadows_def sh)
  moreover have "distinct (map (\<lambda>i. next_free hp + i) [0..<length ?ps])"
    by (simp add: distinct_map inj_on_def)
  moreover from alloc have "set (map snd ?ps) \<inter> set (map (\<lambda>i. next_free hp + i) [0..<length ?ps]) = {}"
    by fastforce
  ultimately show "one_to_one h'"
    using addrs by (simp add: one_to_one_def h')
qed

section \<open>The EMA hook on the example models\<close>

lemma head_registration:
  "register_ema default_hook head_model head_heap
     = Inr (head_hook, head_model_registered, head_heap_registered)"
  by (simp add: register_ema_def default_hook_def head_model_def head_heap_def head_hook_def
      head_model_registered_def head_heap_registered_def clone_def register_buffer_def
      ema_buffer_name_def has_attr_def Let_def)

lemma head_trained_ok: "entries_ok head_hook head_heap_trained" "one_to_one head_hook"
  by (simp_all add: entries_ok_def entry_ok_def shadow_of_def one_to_one_def shadows_def
      head_hook_def head_heap_trained_def)

lemma head_hook_config: "0 < interval head_hook" "0 < warm_up head_hook"
  by (simp_all add: head_hook_def default_hook_def)

lemma ema_init_default: "ema_init (9999 / 10000) 2 2000 None = Inr default_hook"
  by (simp add: ema_init_def default_hook_def)

theorem ema_update_schedule_witness:
  "0 < interval head_hook \<and> 0 < warm_up head_hook \<and> entries_ok head_hook head_heap_trained
   \<and> one_to_one head_hook
   \<and> ema_after_train_iter head_hook \<lparr>r_iter = 0, r_model = head_model_registered\<rparr> head_heap_trained
        = Inr head_heap_trained
   \<and> (\<exists>hp'. ema_after_train_iter head_hook \<lparr>r_iter = 1, r_model = head_model_registered\<rparr>
                head_heap_trained = Inr hp'
          \<and> cells hp' 2 = \<lparr>is_floating_point = True,
                             data = ema_formula (momentum_t (9999 / 10000) 2000 1) [1, 2] [3, 5]\<rparr>
          \<and> cells hp' 3 = \<lparr>is_floating_point = False, data = [7]\<rparr>
          \<and> cells hp' 0 = \<lparr>is_floating_point = True, data = [3, 5]\<rparr>)"
proof -
  have nn: "0 \<le> r_iter \<lparr>r_iter = 0, r_model = head_model_registered\<rparr>"
      "0 \<le> r_iter \<lparr>r_iter = 1, r_model = head_model_registered\<rparr>"
    by simp_all
  note t0 = ema_update_schedule [OF head_hook_config head_trained_ok(1) nn(1)]
  note t1 = ema_update_schedule [OF head_hook_config head_trained_ok(1) nn(2),
      unfolded runner.select_convs]
  let ?hp' = "foldl (shadow_update head_hook (momentum_t (momentum head_hook) (warm_up head_hook) 1))
                head_heap_trained (model_parameters head_hook)"
  have i: "interval head_hook = 2" "momentum head_hook = 9999 / 10000" "warm_up head_hook = 2000"
    by (simp_all add: head_hook_def default_hook_def)
  from t0 have a: "ema_after_train_iter head_hook \<lparr>r_iter = 0, r_model = head_model_registered\<rparr>
      head_heap_trained = Inr head_heap_trained"
    by (simp add: i)
  from t1 have b: "ema_after_train_iter head_hook \<lparr>r_iter = 1, r_model = head_model_registered\<rparr>
      head_heap_trained = Inr ?hp'"
    by (simp add: i)
  have mem: "(''head.weight'', 0) \<in> set (model_parameters head_hook)"
      "(''head.steps'', 1) \<in> set (model_parameters head_hook)"
    and sh: "shadow_of head_hook ''head.weight'' = Some 2" "shadow_of head_hook ''head.steps'' = Some 3"
      "shadows head_hook (model_parameters head_hook) = [2, 3]"
    by (simp_all add: head_hook_def shadow_of_def shadows_def)
  from t1 head_trained_ok(2) have closed:
    "\<forall>(n, p) \<in> set (model_parameters head_hook). \<forall>b. shadow_of head_hook n = Some b \<longrightarrow>
       cells ?hp' b =
         (if is_floating_point (cells head_heap_trained p)
          then (cells head_heap_trained b)\<lparr>data := ema_formula (momentum_t (momentum head_hook) (warm_up head_hook) 1)
                   (data (cells head_heap_trained b)) (data (cells head_heap_trained p))\<rparr>
          else cells head_heap_trained b)"
    and other: "\<forall>a. a \<notin> set (shadows head_hook (model_parameters head_hook)) \<longrightarrow>
         cells ?hp' a = cells head_heap_trained a"
    by blast+
  from closed mem(1) sh(1) have c2: "cells ?hp' 2 = \<lparr>is_floating_point = True,
        data = ema_formula (momentum_t (9999 / 10000) 2000 1) [1, 2] [3, 5]\<rparr>"
    by (fastforce simp: head_heap_trained_def i)
  from closed mem(2) sh(2) have c3: "cells ?hp' 3 = \<lparr>is_floating_point = False, data = [7]\<rparr>"
    by (fastforce simp: head_heap_trained_def)
  from other sh(3) have c0: "cells ?hp' 0 = \<lparr>is_floating_point = True, data = [3, 5]\<rparr>"
    by (simp add: head_heap_trained_def)
  from head_hook_config head_trained_ok a b c2 c3 c0 show ?thesis
    by simp
qed

text \<open>
  The parameter \<open>head.steps\<close> is not floating-point and has the shadow buffer
  \<open>ema_head_steps\<close> (tensor 3). After iteration 1, with the interval 2, the update is
  due and runs, and the buffer still holds 7 while the parameter holds 8: the update
  rule would have left \<open>momentum_t * 7 + (1 - momentum_t) * 8\<close> there, which is not 7.
\<close>

theorem ema_update_integer_parameter_counterexample:
  "dict_get (model_parameters head_hook) ''head.steps'' = Some 1
   \<and> shadow_of head_hook ''head.steps'' = Some 3
   \<and> cells head_heap_trained 1 = \<lparr>is_floating_point = False, data = [8]\<rparr>
   \<and> cells head_heap_trained 3 = \<lparr>is_floating_point = False, data = [7]\<rparr>
   \<and> (1 + 1) mod interval head_hook = 0
   \<and> (\<exists>hp'. ema_after_train_iter head_hook \<lparr>r_iter = 1, r_model = head_model_registered\<rparr>
                head_heap_trained = Inr hp'
          \<and> data (cells hp' 3) = [7]
          \<and> data (cells hp' 3)
               \<noteq> ema_formula (momentum_t (momentum head_hook) (warm_up head_hook) 1) [7] [8])"
proof -
  let ?m = "momentum_t (9999 / 10000) 2000 1"
  have "?m < 9999 / 10000"
    by (rule momentum_t_less_base) simp
  then have ne: "ema_formula ?m [7] [8] \<noteq> [7]"
    by (simp add: ema_formula_def algebra_simps)
  have "\<exists>hp'. ema_after_train_iter head_hook \<lparr>r_iter = 1, r_model = head_model_registered\<rparr>
                head_heap_trained = Inr hp'
          \<and> data (cells hp' 3) = [7]"
    by (simp add: ema_after_train_iter_def head_hook_def default_hook_def head_heap_trained_def
        ema_momentum_returns add_in_place_def mul_in_place_def)
  with ne show ?thesis
    by (auto simp: head_hook_def default_hook_def head_heap_trained_def shadow_of_def)
qed

theorem ema_calls_ignore_current_model_witness:
  "0 < interval head_hook \<and> 0 < warm_up head_hook \<and> entries_ok head_hook head_heap_trained
   \<and> (\<exists>hp1 hp2.
         ema_after_train_iter head_hook \<lparr>r_iter = 1, r_model = head_model_registered\<rparr> head_heap_trained = Inr hp1
       \<and> ema_after_train_epoch head_hook \<lparr>r_iter = 1, r_model = head_model_registered\<rparr> head_heap_trained = Inr hp2
       \<and> ema_after_train_iter head_hook \<lparr>r_iter = 1, r_model = grown_model\<rparr> head_heap_trained = Inr hp1
       \<and> ema_after_train_epoch head_hook \<lparr>r_iter = 1, r_model = grown_model\<rparr> head_heap_trained = Inr hp2
       \<and> ema_before_train_epoch head_hook \<lparr>r_iter = 1, r_model = grown_model\<rparr> head_heap_trained = Inr hp2)"
proof -
  let ?r = "\<lparr>r_iter = 1, r_model = head_model_registered\<rparr>"
  let ?g = "\<lparr>r_iter = 1, r_model = grown_model\<rparr>"
  have g: "?r\<lparr>r_model := grown_model\<rparr> = ?g" and nn: "0 \<le> r_iter ?r"
    by simp_all
  note t = ema_calls_ignore_current_model [where h = head_hook and m = grown_model
      and r = ?r and hp = head_heap_trained, unfolded g]
  from t have e: "ema_after_train_iter head_hook ?g head_heap_trained
        = ema_after_train_iter head_hook ?r head_heap_trained"
      "ema_after_train_epoch head_hook ?g head_heap_trained
        = ema_after_train_epoch head_hook ?r head_heap_trained"
    by blast+
  from t head_hook_config head_trained_ok(1) nn obtain hp1 hp2
    where r: "ema_after_train_iter head_hook ?g head_heap_trained = Inr hp1"
      "ema_after_train_epoch head_hook ?g head_heap_trained = Inr hp2"
      "ema_before_train_epoch head_hook ?g head_heap_trained = Inr hp2"
    by blast
  from r e have "ema_after_train_iter head_hook ?r head_heap_trained = Inr hp1"
      "ema_after_train_epoch head_hook ?r head_heap_trained = Inr hp2"
    by simp_all
  with r head_hook_config head_trained_ok(1) show ?thesis
    by blast
qed

text \<open>
  A hook that captured the two parameters of \<open>head_model\<close>, called with a runner whose
  model has a third parameter that the hook never captured: the update and both swaps
  return without an exception.
\<close>

theorem ema_calls_mismatch_counterexample:
  "dict_get (named_parameters grown_model) ''neck.weight'' = Some 4
   \<and> dict_get (model_parameters head_hook) ''neck.weight'' = None
   \<and> \<not> isl (ema_after_train_iter head_hook \<lparr>r_iter = 1, r_model = grown_model\<rparr> head_heap_trained)
   \<and> \<not> isl (ema_after_train_epoch head_hook \<lparr>r_iter = 1, r_model = grown_model\<rparr> head_heap_trained)
   \<and> \<not> isl (ema_before_train_epoch head_hook \<lparr>r_iter = 1, r_model = grown_model\<rparr> head_heap_trained)"
  by (simp add: grown_model_def head_hook_def default_hook_def head_heap_trained_def
      ema_after_train_iter_def ema_after_train_epoch_def ema_before_train_epoch_def
      swap_ema_parameters_def ema_momentum_returns copy_in_place_def add_in_place_def
      mul_in_place_def)

theorem register_ema_shadows_every_parameter_witness:
  "register_ema default_hook head_model head_heap
     = Inr (head_hook, head_model_registered, head_heap_registered)
   \<and> model_parameters head_hook = [(''head.weight'', 0), (''head.steps'', 1)]
   \<and> map fst (param_ema_buffer head_hook) = [''head.weight'', ''head.steps'']
   \<and> dict_get (param_ema_buffer head_hook) ''head.weight'' = Some ''ema_head_weight''
   \<and> shadow_of head_hook ''head.weight'' = Some 2
   \<and> shadow_of head_hook ''head.steps'' = Some 3
   \<and> cells head_heap_registered 2 = cells head_heap 0
   \<and> cells head_heap_registered 3 = cells head_heap 1
   \<and> cells head_heap_registered 0 = cells head_heap 0"
proof -
  have names: "distinct (map fst (named_parameters head_model))"
    and bufs: "distinct (map fst (named_buffers head_model))"
    and alloc: "\<forall>a \<in> snd ` set (named_parameters head_model). a < next_free head_heap"
    and mangled: "distinct (map (\<lambda>e. ema_buffer_name (fst e)) (named_parameters head_model))"
    by (simp_all add: head_model_def head_heap_def ema_buffer_name_def)
  note t = register_ema_shadows_every_parameter [OF names bufs alloc head_registration]
  from t mangled have
    "\<forall>(n, p) \<in> set (named_parameters head_model).
        \<exists>b. shadow_of head_hook n = Some b \<and> cells head_heap_registered b = cells head_heap p"
    by blast
  then have "(\<exists>b. shadow_of head_hook ''head.weight'' = Some b \<and> cells head_heap_registered b = cells head_heap 0)
      \<and> (\<exists>b. shadow_of head_hook ''head.steps'' = Some b \<and> cells head_heap_registered b = cells head_heap 1)"
    by (simp add: head_model_def)
  moreover have "shadow_of head_hook ''head.weight'' = Some 2" "shadow_of head_hook ''head.steps'' = Some 3"
    by (simp_all add: shadow_of_def head_hook_def)
  ultimately have cl: "cells head_heap_registered 2 = cells head_heap 0"
      "cells head_heap_registered 3 = cells head_heap 1"
    by simp_all
  from t have "model_parameters head_hook = named_parameters head_model"
    and "map fst (param_ema_buffer head_hook) = map fst (named_parameters head_model)"
    and "\<forall>a < next_free head_heap. cells head_heap_registered a = cells head_heap a"
    by blast+
  with cl head_registration show ?thesis
    by (simp add: head_model_def head_heap_def shadow_of_def head_hook_def)
qed

text \<open>
  The parameter \<open>head.steps\<close> is not floating-point, and \<open>before_run\<close> registers the
  buffer \<open>ema_head_steps\<close> for it, a clone of its value.
\<close>

theorem register_ema_integer_parameter_counterexample:
  "\<not> is_floating_point (cells head_heap 1)
   \<and> dict_get (named_parameters head_model) ''head.steps'' = Some 1
   \<and> register_ema default_hook head_model head_heap
       = Inr (head_hook, head_model_registered, head_heap_registered)
   \<and> dict_get (param_ema_buffer head_hook) ''head.steps'' = Some ''ema_head_steps''
   \<and> dict_get (named_buffers head_model_registered) ''ema_head_steps'' = Some 3
   \<and> dict_get (named_buffers head_model) ''ema_head_steps'' = None
   \<and> cells head_heap_registered 3 = \<lparr>is_floating_point = False, data = [7]\<rparr>"
  using head_registration
  by (simp add: head_heap_def head_model_def head_hook_def head_model_registered_def
      head_heap_registered_def)

text \<open>
  C3 on the model with the parameters \<open>a_bias\<close> and \<open>a.bias\<close>. Both names are given
  the buffer name \<open>ema_a_bias\<close>, the second registration overwrites the first, and the
  two parameters share one shadow buffer (tensor 3). With the values 1 and 2 in the
  parameters (and 2 in the buffer), one swap leaves 2, 1 and 2, and the second swap
  leaves 2, 2 and 1: the parameter \<open>a_bias\<close> is not restored to 1. (Where parameters and
  shadow buffers are pairwise different tensors, two swaps restore the heap: lemma
  \<open>swap_twice_restores\<close>.)
\<close>

theorem swap_twice_shared_buffer:
  "(case register_ema default_hook bias_model bias_heap of
      Inl _ \<Rightarrow> False
    | Inr (h, m, hp) \<Rightarrow>
        shadow_of h ''a.bias'' = Some 3 \<and> shadow_of h ''a_bias'' = Some 3
        \<and> map (\<lambda>a. data (cells hp a)) [0, 1, 3] = [[1], [2], [2]]
        \<and> (case swap_ema_parameters h hp of
              Inl _ \<Rightarrow> False
            | Inr hp1 \<Rightarrow>
                map (\<lambda>a. data (cells hp1 a)) [0, 1, 3] = [[2], [1], [2]]
                \<and> (case swap_ema_parameters h hp1 of
                      Inl _ \<Rightarrow> False
                    | Inr hp2 \<Rightarrow> map (\<lambda>a. data (cells hp2 a)) [0, 1, 3] = [[2], [2], [1]])))"
  by (simp add: register_ema_def default_hook_def bias_model_def bias_heap_def clone_def
      register_buffer_def ema_buffer_name_def has_attr_def Let_def shadow_of_def
      swap_ema_parameters_def copy_in_place_def)

section \<open>Properties of the \<open>float32\<close> rounding\<close>

lemmas f32_eval = add_f32_def round_f32_def f32_step_def ilog2_def pow2_def round_half_even_def
  log2_nat.simps

lemma log2_nat_bounds: "0 < n \<Longrightarrow> 2 ^ log2_nat n \<le> n \<and> n < 2 ^ Suc (log2_nat n)"
proof (induction n rule: log2_nat.induct)
  case (1 n)
  show ?case
  proof (cases "n < 2")
    case True
    with 1(2) have "n = 1" by simp
    then show ?thesis by (simp add: log2_nat.simps)
  next
    case False
    then have "0 < n div 2" by simp
    with 1(1) False have ih: "2 ^ log2_nat (n div 2) \<le> n div 2" "n div 2 < 2 ^ Suc (log2_nat (n div 2))"
      by simp_all
    from False have eq: "log2_nat n = Suc (log2_nat (n div 2))"
      by (simp add: log2_nat.simps [of n])
    from ih show ?thesis
      unfolding eq by simp linarith
  qed
qed

lemma pow2_pos: "0 < pow2 e"
  by (simp add: pow2_def)

lemma pow2_nat: "pow2 (int k) = 2 ^ k"
  by (simp add: pow2_def)

lemma pow2_Suc: "pow2 (e + 1) = 2 * pow2 e"
proof (cases "0 \<le> e")
  case True
  then show ?thesis by (simp add: pow2_def nat_add_distrib)
next
  case False
  then have "nat (- e) = Suc (nat (- (e + 1)))" by simp
  with False show ?thesis by (auto simp: pow2_def)
qed

lemma pow2_neg: "pow2 (- int k) = 1 / 2 ^ k"
  by (simp add: pow2_def)

lemma ilog2_bounds:
  assumes "0 < x"
  shows "pow2 (ilog2 x) \<le> x \<and> x < pow2 (ilog2 x + 1)"
proof (cases "1 \<le> x")
  case True
  define m where "m = nat \<lfloor>x\<rfloor>"
  from True have m: "0 < m" "real m \<le> x" "x < real m + 1"
    by (simp_all add: m_def)
  from log2_nat_bounds [OF m(1)] have b: "2 ^ log2_nat m \<le> m" "m < 2 ^ Suc (log2_nat m)"
    by simp_all
  from b(1) have "(2::real) ^ log2_nat m \<le> real m"
    by (metis of_nat_le_iff of_nat_numeral of_nat_power)
  with m(2) have lo: "2 ^ log2_nat m \<le> x"
    by linarith
  from b(2) have "m + 1 \<le> 2 ^ Suc (log2_nat m)" by simp
  then have "real (m + 1) \<le> 2 ^ Suc (log2_nat m)"
    by (metis of_nat_le_iff of_nat_numeral of_nat_power)
  then have "real m + 1 \<le> 2 ^ Suc (log2_nat m)"
    by (simp only: of_nat_add of_nat_1)
  with m(3) have hi: "x < 2 ^ Suc (log2_nat m)"
    by linarith
  note lo hi
  moreover from True have "ilog2 x = int (log2_nat m)"
    by (simp add: ilog2_def m_def)
  ultimately show ?thesis
    by (simp add: pow2_Suc pow2_nat)
next
  case False
  define m where "m = nat \<lceil>1 / x\<rceil>"
  define k where "k = log2_nat (m - 1)"
  from False assms have inv: "1 < 1 / x" by simp
  then have "1 < \<lceil>1 / x\<rceil>" by linarith
  then have m2: "2 \<le> m" unfolding m_def by linarith
  from inv have mb: "real m - 1 < 1 / x" "1 / x \<le> real m"
    by (simp_all add: m_def) linarith+
  from m2 have "0 < m - 1" by simp
  from log2_nat_bounds [OF this] have b: "2 ^ k \<le> m - 1" "m - 1 < 2 ^ Suc k"
    by (simp_all add: k_def)
  from b(1) have "(2::real) ^ k \<le> real (m - 1)"
    by (metis of_nat_le_iff of_nat_numeral of_nat_power)
  moreover from m2 have "real (m - 1) = real m - 1" by (simp add: of_nat_diff)
  ultimately have lo: "2 ^ k < 1 / x" using mb(1) by linarith
  from b(2) have "m \<le> 2 ^ Suc k" by simp
  then have "real m \<le> 2 ^ Suc k"
    by (metis of_nat_le_iff of_nat_numeral of_nat_power)
  with mb(2) have hi: "1 / x \<le> 2 ^ Suc k" by linarith
  from False have il: "ilog2 x = - int (Suc k)"
    by (simp add: ilog2_def m_def k_def)
  from hi assms have "1 / 2 ^ Suc k \<le> x"
    by (simp add: field_simps)
  moreover from lo assms have "x < 1 / 2 ^ k"
    by (simp add: field_simps)
  moreover have "pow2 (- int (Suc k) + 1) = 1 / 2 ^ k"
    using pow2_neg [of k] by simp
  ultimately show ?thesis
    unfolding il by (simp only: pow2_neg)
qed

lemma round_half_even_of_int: "round_half_even (of_int m) = m"
  by (simp add: round_half_even_def)

lemma round_half_even_near: "\<bar>of_int (round_half_even y) - y\<bar> \<le> 1 / 2"
  unfolding round_half_even_def by (auto split: if_splits)

lemma f32_step_pos: "0 < f32_step x"
  by (simp add: f32_step_def pow2_pos)

lemma round_f32_nearest: "\<bar>round_f32 x - x\<bar> \<le> f32_step x / 2"
proof (cases "x = 0")
  case True
  then show ?thesis using f32_step_pos [of 0] by (simp add: round_f32_def)
next
  case False
  let ?s = "f32_step x"
  have s: "0 < ?s" by (rule f32_step_pos)
  have "\<bar>of_int (round_half_even (x / ?s)) - x / ?s\<bar> \<le> 1 / 2"
    by (rule round_half_even_near)
  with s have "\<bar>of_int (round_half_even (x / ?s)) - x / ?s\<bar> * ?s \<le> 1 / 2 * ?s"
    by (intro mult_right_mono) simp_all
  moreover from s have "(of_int (round_half_even (x / ?s)) - x / ?s) * ?s
      = of_int (round_half_even (x / ?s)) * ?s - x"
    by (simp add: left_diff_distrib)
  then have "\<bar>of_int (round_half_even (x / ?s)) * ?s - x\<bar>
      = \<bar>(of_int (round_half_even (x / ?s)) - x / ?s) * ?s\<bar>"
    by simp
  with s have "\<bar>of_int (round_half_even (x / ?s)) - x / ?s\<bar> * ?s
      = \<bar>of_int (round_half_even (x / ?s)) * ?s - x\<bar>"
    by (simp add: abs_mult)
  ultimately show ?thesis
    using False by (simp add: round_f32_def)
qed

lemma round_f32_of_int:
  assumes "\<bar>n\<bar> \<le> 2 ^ 24"
  shows "round_f32 (of_int n) = of_int n"
proof (cases "n = 0")
  case True
  then show ?thesis by (simp add: round_f32_def)
next
  case False
  define m where "m = nat \<bar>n\<bar>"
  define e where "e = log2_nat m"
  from False have m: "0 < m" "int m = \<bar>n\<bar>" by (simp_all add: m_def)
  from log2_nat_bounds [OF m(1)] have b: "2 ^ e \<le> m" "m < 2 ^ Suc e"
    by (simp_all add: e_def)
  from assms m(2) have "m \<le> 2 ^ 24" by (metis of_nat_le_iff of_nat_numeral of_nat_power)
  with b(1) have "(2::nat) ^ e \<le> 2 ^ 24" by simp
  then have e24: "e \<le> 24" by (rule power_le_imp_le_exp [rotated]) simp
  from False have one: "1 \<le> \<bar>real_of_int n\<bar>"
    by (metis m(1) m(2) of_int_abs of_int_1_le_iff int_one_le_iff_zero_less of_nat_0_less_iff)
  have fl: "nat \<lfloor>\<bar>real_of_int n\<bar>\<rfloor> = m"
    by (metis floor_of_int m_def of_int_abs)
  from one fl have il: "ilog2 \<bar>real_of_int n\<bar> = int e"
    by (simp add: ilog2_def e_def)
  show ?thesis
  proof (cases "e = 24")
    case True
    with b(1) \<open>m \<le> 2 ^ 24\<close> have "m = 2 ^ 24" by simp
    with m(2) have "\<bar>n\<bar> = 2 ^ 24" by simp
    then consider "n = 16777216" | "n = - 16777216" by fastforce
    then show ?thesis
    proof cases
      case 1
      show ?thesis unfolding 1 by (simp add: f32_eval)
    next
      case 2
      show ?thesis unfolding 2 by (simp add: f32_eval)
    qed
  next
    case False
    with e24 have lt: "e < 24" by simp
    then have p: "f32_step (real_of_int n) = 1 / 2 ^ (23 - e)"
      by (auto simp: f32_step_def il pow2_def nat_diff_distrib' intro: arg_cong)
    have "real_of_int n * 2 ^ (23 - e) = of_int (n * 2 ^ (23 - e))"
      by simp
    then have r: "round_half_even (real_of_int n * 2 ^ (23 - e)) = n * 2 ^ (23 - e)"
      by (simp only: round_half_even_of_int)
    from \<open>n \<noteq> 0\<close> show ?thesis
      by (simp add: round_f32_def p r)
  qed
qed

lemma add_f32_of_int:
  assumes "\<bar>b\<bar> \<le> 2 ^ 24" and "\<bar>a + b\<bar> \<le> 2 ^ 24"
  shows "add_f32 (of_int a) (of_int b) = of_int a + of_int b"
proof -
  from assms(1) have "round_f32 (of_int b) = of_int b"
    by (rule round_f32_of_int)
  moreover from assms(2) have "round_f32 (of_int (a + b)) = of_int (a + b)"
    by (rule round_f32_of_int)
  ultimately show ?thesis
    by (simp add: add_f32_def)
qed

text \<open>
  The \<open>float32\<close> nearest to 0.1, and the sum of it and 320 in \<open>float32\<close>: the exact
  sum is not a \<open>float32\<close>.
\<close>

lemma round_f32_tenth: "round_f32 (1 / 10) = 13421773 / 134217728"
  and round_f32_tenth_fixed: "round_f32 (13421773 / 134217728) = 13421773 / 134217728"
  and add_f32_tenth_320: "add_f32 (13421773 / 134217728) 320 = 10489037 / 32768"
  by (simp_all add: f32_eval)

section \<open>Properties of the mosaic transform\<close>

lemma paste_shape [simp]: "shape (paste a y1 y2 x1 x2 v) = shape a"
  and paste_dtype [simp]: "dtype (paste a y1 y2 x1 x2 v) = dtype a"
  by (simp_all add: paste_def split: prod.splits)

lemma in_region_paste [simp]:
  "in_region (paste a y1 y2 x1 x2 v) y1' y2' x1' x2' r q = in_region a y1' y2' x1' x2' r q"
  by (simp add: in_region_def)

lemma px_paste:
  "px (paste a y1 y2 x1 x2 v) r q k =
     (if in_region a y1 y2 x1 x2 r q
      then cast_to (dtype a)
             (px v (bidx (fst (shape v)) (r - slice_start y1 (fst (shape a))))
                   (bidx (fst (snd (shape v))) (q - slice_start x1 (fst (snd (shape a)))))
                   (bidx (snd (snd (shape v))) k))
      else px a r q k)"
  by (simp add: paste_def split: prod.splits)

lemma paste_idem: "paste (paste a y1 y2 x1 x2 v) y1 y2 x1 x2 v = paste a y1 y2 x1 x2 v"
proof -
  have "px (paste (paste a y1 y2 x1 x2 v) y1 y2 x1 x2 v) = px (paste a y1 y2 x1 x2 v)"
    by (intro ext) (simp add: px_paste)
  moreover have "paste (paste a y1 y2 x1 x2 v) y1 y2 x1 x2 v
      = (paste a y1 y2 x1 x2 v)\<lparr>px := px (paste (paste a y1 y2 x1 x2 v) y1 y2 x1 x2 v)\<rparr>"
    by (simp add: paste_def [of "paste a y1 y2 x1 x2 v"] split: prod.splits)
  ultimately show ?thesis by simp
qed

lemma setitem_Inr: "setitem a y1 y2 x1 x2 v = Inr a' \<Longrightarrow> a' = paste a y1 y2 x1 x2 v"
  by (auto simp: setitem_def split: prod.splits if_splits)

lemma place_images_result:
  "place_images keys canvas results (x1, y1, x2, y2) = Inr canvas' \<Longrightarrow>
   dict_get canvas' k =
     (if k \<in> set keys
      then map_option (\<lambda>a. paste a y1 y2 x1 x2 (the (dict_get (images results) k))) (dict_get canvas k)
      else dict_get canvas k)"
proof (induction keys arbitrary: canvas)
  case Nil
  then show ?case by simp
next
  case (Cons key keys)
  from Cons.prems obtain v a where v: "dict_get (images results) key = Some v"
    and a: "dict_get canvas key = Some a"
    and rest: "place_images keys (dict_set canvas key (paste a y1 y2 x1 x2 v)) results (x1, y1, x2, y2)
                 = Inr canvas'"
    by (auto split: option.splits sum.splits dest: setitem_Inr)
  from Cons.IH [OF rest] v a show ?case
    by (auto simp: dict_get_dict_set paste_idem)
qed

lemma place_images_present:
  "place_images keys canvas results box = Inr canvas' \<Longrightarrow> k \<in> set keys \<Longrightarrow>
   dict_get (images results) k \<noteq> None \<and> dict_get canvas k \<noteq> None"
proof (induction keys arbitrary: canvas)
  case Nil
  then show ?case by simp
next
  case (Cons key keys)
  obtain x1 y1 x2 y2 where box: "box = (x1, y1, x2, y2)" by (cases box)
  from Cons.prems(1) obtain v a where v: "dict_get (images results) key = Some v"
    and a: "dict_get canvas key = Some a"
    and rest: "place_images keys (dict_set canvas key (paste a y1 y2 x1 x2 v)) results box = Inr canvas'"
    by (auto simp: box split: option.splits sum.splits dest: setitem_Inr)
  from Cons.IH [OF rest] Cons.prems(2) v a show ?case
    by (auto simp: dict_get_dict_set split: if_splits)
qed

lemma shift_bboxes_frame:
  "shift_bboxes keys results x1 y1 = Inr results' \<Longrightarrow>
   pad_shape results' = pad_shape results \<and> img_fields results' = img_fields results
   \<and> bbox_fields results' = bbox_fields results \<and> images results' = images results
   \<and> gt_labels results' = gt_labels results"
  by (induction keys arbitrary: results) (auto split: option.splits)

lemma shift_bboxes_result:
  "shift_bboxes keys results x1 y1 = Inr results' \<Longrightarrow>
   dict_get (bboxes results') k =
     map_option ((map (shift_row (real x1) (real y1))) ^^ count_list keys k) (dict_get (bboxes results) k)"
proof (induction keys arbitrary: results)
  case Nil
  then show ?case by (simp add: option.map_ident)
next
  case (Cons key keys)
  let ?f = "map (shift_row (real x1) (real y1))"
  from Cons.prems obtain b where b: "dict_get (bboxes results) key = Some b"
    and rest: "shift_bboxes keys (results\<lparr>bboxes := dict_set (bboxes results) key (?f b)\<rparr>) x1 y1
                 = Inr results'"
    by (auto split: option.splits)
  from Cons.IH [OF rest] b show ?case
    by (auto simp: dict_get_dict_set funpow_swap1)
qed

lemma new_canvas_get:
  "dict_get (new_canvas keys sh pad_val canvas) k =
     (if k \<in> set keys then Some (np_full_uint8 sh pad_val) else dict_get canvas k)"
  by (induction keys arbitrary: canvas) (auto simp: dict_get_dict_set)

lemma output_images_result:
  "output_images keys canvas out = Inr imgs \<Longrightarrow>
   dict_get imgs k = (if k \<in> set keys then dict_get canvas k else dict_get out k)"
proof (induction keys arbitrary: out)
  case Nil
  then show ?case by simp
next
  case (Cons key keys)
  from Cons.prems obtain a where a: "dict_get canvas key = Some a"
    and rest: "output_images keys canvas (dict_set out key a) = Inr imgs"
    by (auto split: option.splits)
  from Cons.IH [OF rest] a show ?case
    by (auto simp: dict_get_dict_set)
qed

lemma output_bboxes_result:
  "output_bboxes keys rs out = Inr bbs \<Longrightarrow> k \<in> set keys \<Longrightarrow>
   \<exists>b. concat_bboxes k rs = Inr b \<and> dict_get bbs k = Some b"
proof (induction keys arbitrary: out)
  case Nil
  then show ?case by simp
next
  case (Cons key keys)
  from Cons.prems(1) obtain b where b: "concat_bboxes key rs = Inr b"
    and rest: "output_bboxes keys rs (dict_set out key b) = Inr bbs"
    by (auto split: sum.splits)
  have other: "dict_get bbs' k' = dict_get out' k'"
    if "output_bboxes ks rs out' = Inr bbs'" "k' \<notin> set ks" for ks out' bbs' k'
    using that
    by (induction ks arbitrary: out') (auto simp: dict_get_dict_set split: sum.splits)
  show ?case
  proof (cases "k \<in> set keys")
    case True
    with Cons.IH [OF rest] show ?thesis by simp
  next
    case False
    with Cons.prems(2) have "k = key" by simp
    with False other [OF rest, of k] b show ?thesis
      by (simp add: dict_get_dict_set)
  qed
qed

lemma concat_bboxes_4:
  "concat_bboxes k [r0, r1, r2, r3] = Inr b \<Longrightarrow>
   \<exists>b0 b1 b2 b3. dict_get (bboxes r0) k = Some b0 \<and> dict_get (bboxes r1) k = Some b1
     \<and> dict_get (bboxes r2) k = Some b2 \<and> dict_get (bboxes r3) k = Some b3
     \<and> b = b0 @ b1 @ b2 @ b3"
  by (auto split: option.splits sum.splits)

lemma concat_labels_4:
  "concat_labels [r0, r1, r2, r3] = Inr l \<Longrightarrow>
   \<exists>l0 l1 l2 l3. gt_labels r0 = Some l0 \<and> gt_labels r1 = Some l1
     \<and> gt_labels r2 = Some l2 \<and> gt_labels r3 = Some l3 \<and> l = l0 @ l1 @ l2 @ l3"
  by (auto split: option.splits sum.splits)

lemma place_tiles_4:
  assumes "place_tiles keys xc yc canvas [(0, t0), (1, t1), (2, t2), (3, t3)] = Inr (canvas', rs)"
    and "pad_shape t0 = Some (h0, w0, c0)" and "pad_shape t1 = Some (h1, w1, c1)"
    and "pad_shape t2 = Some (h2, w2, c2)" and "pad_shape t3 = Some (h3, w3, c3)"
  shows "\<exists>cv1 cv2 cv3 r0 r1 r2 r3.
            place_images keys canvas t0 (xc - w0, yc - h0, xc, yc) = Inr cv1
          \<and> shift_bboxes (get_fields (bbox_fields t0)) t0 (xc - w0) (yc - h0) = Inr r0
          \<and> place_images keys cv1 t1 (xc, yc - h1, xc + w1, yc) = Inr cv2
          \<and> shift_bboxes (get_fields (bbox_fields t1)) t1 xc (yc - h1) = Inr r1
          \<and> place_images keys cv2 t2 (xc - w2, yc, xc, yc + h2) = Inr cv3
          \<and> shift_bboxes (get_fields (bbox_fields t2)) t2 (xc - w2) yc = Inr r2
          \<and> place_images keys cv3 t3 (xc, yc, xc + w3, yc + h3) = Inr canvas'
          \<and> shift_bboxes (get_fields (bbox_fields t3)) t3 xc yc = Inr r3
          \<and> rs = [r0, r1, r2, r3]"
  using assms
  by (auto simp: tile_box_def split: sum.splits)

lemma mosaic_call_Inr:
  assumes "mosaic_call pad_val t0 t1 t2 t3 = Inr out"
    and "pad_shape t0 = Some (h0, w0, c0)" and "pad_shape t1 = Some (h1, w1, c1)"
    and "pad_shape t2 = Some (h2, w2, c2)" and "pad_shape t3 = Some (h3, w3, c3)"
  shows "\<exists>canvas' rs imgs bbs labels.
           place_tiles (get_fields (img_fields t0)) (max w0 w2) (max h0 h1)
             (new_canvas (get_fields (img_fields t0))
                (max h0 h1 + max h2 h3, max w0 w2 + max w1 w3, c0) pad_val [])
             [(0, t0), (1, t1), (2, t2), (3, t3)] = Inr (canvas', rs)
         \<and> output_images (get_fields (img_fields t0)) canvas' [] = Inr imgs
         \<and> output_bboxes (get_fields (bbox_fields (hd rs))) rs [] = Inr bbs
         \<and> concat_labels rs = Inr labels
         \<and> out = \<lparr>out_img_fields = get_fields (img_fields t0),
                   out_bbox_fields = get_fields (bbox_fields (hd rs)),
                   out_images = imgs, out_bboxes = bbs, out_gt_labels = labels,
                   img_shape = (max h0 h1 + max h2 h3, max w0 w2 + max w1 w3, c0),
                   ori_shape = (max h0 h1 + max h2 h3, max w0 w2 + max w1 w3, c0)\<rparr>"
  using assms
  by (simp add: mosaic_call_def canvas_shape_def Let_def split: sum.splits prod.splits)

lemma mosaic_call_image:
  assumes call: "mosaic_call pad_val t0 t1 t2 t3 = Inr out"
    and sh: "pad_shape t0 = Some (h0, w0, c0)" "pad_shape t1 = Some (h1, w1, c1)"
      "pad_shape t2 = Some (h2, w2, c2)" "pad_shape t3 = Some (h3, w3, c3)"
    and key: "key \<in> set (out_img_fields out)"
  shows "\<exists>v0 v1 v2 v3.
           dict_get (images t0) key = Some v0 \<and> dict_get (images t1) key = Some v1
         \<and> dict_get (images t2) key = Some v2 \<and> dict_get (images t3) key = Some v3
         \<and> dict_get (out_images out) key
             = Some (mosaic_canvas pad_val (h0, w0) (h1, w1) (h2, w2) (h3, w3) c0 v0 v1 v2 v3)"
proof -
  let ?keys = "get_fields (img_fields t0)"
  let ?yc = "max h0 h1" and ?xc = "max w0 w2"
  let ?full = "np_full_uint8 (?yc + max h2 h3, ?xc + max w1 w3, c0) pad_val"
  let ?cv0 = "new_canvas ?keys (?yc + max h2 h3, ?xc + max w1 w3, c0) pad_val []"
  from mosaic_call_Inr [OF call sh] obtain canvas' rs imgs bbs labels
    where tiles: "place_tiles ?keys ?xc ?yc ?cv0 [(0, t0), (1, t1), (2, t2), (3, t3)] = Inr (canvas', rs)"
      and imgs: "output_images ?keys canvas' [] = Inr imgs"
      and out: "out_img_fields out = ?keys" "out_images out = imgs"
    by auto
  from key out(1) have k: "key \<in> set ?keys" by simp
  from place_tiles_4 [OF tiles sh] obtain cv1 cv2 cv3
    where p0: "place_images ?keys ?cv0 t0 (?xc - w0, ?yc - h0, ?xc, ?yc) = Inr cv1"
      and p1: "place_images ?keys cv1 t1 (?xc, ?yc - h1, ?xc + w1, ?yc) = Inr cv2"
      and p2: "place_images ?keys cv2 t2 (?xc - w2, ?yc, ?xc, ?yc + h2) = Inr cv3"
      and p3: "place_images ?keys cv3 t3 (?xc, ?yc, ?xc + w3, ?yc + h3) = Inr canvas'"
    by blast
  from place_images_present [OF p0 k] place_images_present [OF p1 k]
    place_images_present [OF p2 k] place_images_present [OF p3 k]
  obtain v0 v1 v2 v3 where v: "dict_get (images t0) key = Some v0" "dict_get (images t1) key = Some v1"
      "dict_get (images t2) key = Some v2" "dict_get (images t3) key = Some v3"
    by auto
  have g0: "dict_get ?cv0 key = Some ?full"
    using k by (simp add: new_canvas_get)
  from place_images_result [OF p0, of key] k v g0
  have g1: "dict_get cv1 key = Some (paste ?full (?yc - h0) ?yc (?xc - w0) ?xc v0)"
    by simp
  from place_images_result [OF p1, of key] k v g1
  have g2: "dict_get cv2 key
      = Some (paste (paste ?full (?yc - h0) ?yc (?xc - w0) ?xc v0) (?yc - h1) ?yc ?xc (?xc + w1) v1)"
    by simp
  from place_images_result [OF p2, of key] k v g2
  have g3: "dict_get cv3 key
      = Some (paste (paste (paste ?full (?yc - h0) ?yc (?xc - w0) ?xc v0) (?yc - h1) ?yc ?xc (?xc + w1) v1)
                ?yc (?yc + h2) (?xc - w2) ?xc v2)"
    by simp
  from place_images_result [OF p3, of key] k v g3
  have g4: "dict_get canvas' key
      = Some (mosaic_canvas pad_val (h0, w0) (h1, w1) (h2, w2) (h3, w3) c0 v0 v1 v2 v3)"
    by (simp add: mosaic_canvas_def Let_def)
  from output_images_result [OF imgs, of key] k g4 out(2) v show ?thesis
    by simp
qed

lemma in_region_box:
  assumes "shape a = (H, W, C)" and "y1 \<le> y2" and "y2 \<le> H" and "x1 \<le> x2" and "x2 \<le> W"
  shows "in_region a y1 y2 x1 x2 r q \<longleftrightarrow> y1 \<le> r \<and> r < y2 \<and> x1 \<le> q \<and> q < x2"
    and "slice_start y1 H = y1" and "slice_start x1 W = x1"
  using assms by (auto simp: in_region_def slice_start_def slice_len_def)

lemma px_paste_box:
  assumes "shape a = (H, W, C)" and "y1 \<le> y2" and "y2 \<le> H" and "x1 \<le> x2" and "x2 \<le> W"
  shows "px (paste a y1 y2 x1 x2 v) r q k =
     (if y1 \<le> r \<and> r < y2 \<and> x1 \<le> q \<and> q < x2
      then cast_to (dtype a)
             (px v (bidx (fst (shape v)) (r - y1)) (bidx (fst (snd (shape v))) (q - x1))
                   (bidx (snd (snd (shape v))) k))
      else px a r q k)"
  using in_region_box [OF assms] assms(1) by (simp add: px_paste)

lemma mosaic_canvas_shape:
  "shape (mosaic_canvas pad_val (h0, w0) (h1, w1) (h2, w2) (h3, w3) c v0 v1 v2 v3)
     = (max h0 h1 + max h2 h3, max w0 w2 + max w1 w3, c)"
  and mosaic_canvas_dtype:
  "dtype (mosaic_canvas pad_val (h0, w0) (h1, w1) (h2, w2) (h3, w3) c v0 v1 v2 v3) = UInt8"
  by (simp_all add: mosaic_canvas_def Let_def np_full_uint8_def)

lemma px_mosaic_canvas:
  "px (mosaic_canvas pad_val (h0, w0) (h1, w1) (h2, w2) (h3, w3) c v0 v1 v2 v3) r q k =
     (if max h0 h1 \<le> r \<and> r < max h0 h1 + h3 \<and> max w0 w2 \<le> q \<and> q < max w0 w2 + w3
      then astype_uint8 (px v3 (bidx (fst (shape v3)) (r - max h0 h1))
                               (bidx (fst (snd (shape v3))) (q - max w0 w2))
                               (bidx (snd (snd (shape v3))) k))
      else if max h0 h1 \<le> r \<and> r < max h0 h1 + h2 \<and> max w0 w2 - w2 \<le> q \<and> q < max w0 w2
      then astype_uint8 (px v2 (bidx (fst (shape v2)) (r - max h0 h1))
                               (bidx (fst (snd (shape v2))) (q - (max w0 w2 - w2)))
                               (bidx (snd (snd (shape v2))) k))
      else if max h0 h1 - h1 \<le> r \<and> r < max h0 h1 \<and> max w0 w2 \<le> q \<and> q < max w0 w2 + w1
      then astype_uint8 (px v1 (bidx (fst (shape v1)) (r - (max h0 h1 - h1)))
                               (bidx (fst (snd (shape v1))) (q - max w0 w2))
                               (bidx (snd (snd (shape v1))) k))
      else if max h0 h1 - h0 \<le> r \<and> r < max h0 h1 \<and> max w0 w2 - w0 \<le> q \<and> q < max w0 w2
      then astype_uint8 (px v0 (bidx (fst (shape v0)) (r - (max h0 h1 - h0)))
                               (bidx (fst (snd (shape v0))) (q - (max w0 w2 - w0)))
                               (bidx (snd (snd (shape v0))) k))
      else astype_uint8 pad_val)"
proof -
  let ?yc = "max h0 h1" and ?xc = "max w0 w2"
  let ?H = "?yc + max h2 h3" and ?W = "?xc + max w1 w3"
  let ?a0 = "np_full_uint8 (?H, ?W, c) pad_val"
  let ?a1 = "paste ?a0 (?yc - h0) ?yc (?xc - w0) ?xc v0"
  let ?a2 = "paste ?a1 (?yc - h1) ?yc ?xc (?xc + w1) v1"
  let ?a3 = "paste ?a2 ?yc (?yc + h2) (?xc - w2) ?xc v2"
  let ?a4 = "paste ?a3 ?yc (?yc + h3) ?xc (?xc + w3) v3"
  have s0: "shape ?a0 = (?H, ?W, c)" and d0: "dtype ?a0 = UInt8"
    and p0: "px ?a0 r q k = astype_uint8 pad_val"
    by (simp_all add: np_full_uint8_def)
  have s1: "shape ?a1 = (?H, ?W, c)" and s2: "shape ?a2 = (?H, ?W, c)"
    and s3: "shape ?a3 = (?H, ?W, c)"
    by (simp_all add: s0)
  have d: "dtype ?a1 = UInt8" "dtype ?a2 = UInt8" "dtype ?a3 = UInt8"
    by (simp_all add: d0)
  have p1: "px ?a1 r q k =
      (if ?yc - h0 \<le> r \<and> r < ?yc \<and> ?xc - w0 \<le> q \<and> q < ?xc
       then astype_uint8 (px v0 (bidx (fst (shape v0)) (r - (?yc - h0)))
                               (bidx (fst (snd (shape v0))) (q - (?xc - w0)))
                               (bidx (snd (snd (shape v0))) k))
       else astype_uint8 pad_val)"
    by (subst px_paste_box [OF s0]) (simp_all add: d0 p0)
  have p2: "px ?a2 r q k =
      (if ?yc - h1 \<le> r \<and> r < ?yc \<and> ?xc \<le> q \<and> q < ?xc + w1
       then astype_uint8 (px v1 (bidx (fst (shape v1)) (r - (?yc - h1)))
                               (bidx (fst (snd (shape v1))) (q - ?xc))
                               (bidx (snd (snd (shape v1))) k))
       else px ?a1 r q k)"
    by (subst px_paste_box [OF s1]) (simp_all add: d0)
  have p3: "px ?a3 r q k =
      (if ?yc \<le> r \<and> r < ?yc + h2 \<and> ?xc - w2 \<le> q \<and> q < ?xc
       then astype_uint8 (px v2 (bidx (fst (shape v2)) (r - ?yc))
                               (bidx (fst (snd (shape v2))) (q - (?xc - w2)))
                               (bidx (snd (snd (shape v2))) k))
       else px ?a2 r q k)"
    by (subst px_paste_box [OF s2]) (simp_all add: d0)
  have p4: "px ?a4 r q k =
      (if ?yc \<le> r \<and> r < ?yc + h3 \<and> ?xc \<le> q \<and> q < ?xc + w3
       then astype_uint8 (px v3 (bidx (fst (shape v3)) (r - ?yc))
                               (bidx (fst (snd (shape v3))) (q - ?xc))
                               (bidx (snd (snd (shape v3))) k))
       else px ?a3 r q k)"
    by (subst px_paste_box [OF s3]) (simp_all add: d0)
  have "mosaic_canvas pad_val (h0, w0) (h1, w1) (h2, w2) (h3, w3) c v0 v1 v2 v3 = ?a4"
    by (simp add: mosaic_canvas_def Let_def)
  then show ?thesis
    by (simp only: p4 p3 p2 p1)
qed

lemma bidx_less: "i < d \<Longrightarrow> bidx d i = i"
  by (auto simp: bidx_def)

lemma count_list_distinct: "distinct xs \<Longrightarrow> x \<in> set xs \<Longrightarrow> count_list xs x = 1"
  by (induction xs) auto

lemma astype_uint8_range: "\<exists>n<256. astype_uint8 v = real n"
proof -
  let ?i = "(if 0 \<le> v then \<lfloor>v\<rfloor> else \<lceil>v\<rceil>) mod 256"
  have "0 \<le> ?i" and "?i < 256" by simp_all
  then have "nat ?i < 256" and "real_of_int ?i = real (nat ?i)" by simp_all
  then show ?thesis
    unfolding astype_uint8_def by blast
qed

lemma astype_uint8_in_range: "0 \<le> v \<Longrightarrow> v < 256 \<Longrightarrow> astype_uint8 v = of_int \<lfloor>v\<rfloor>"
proof -
  assume "0 \<le> v" and "v < 256"
  then have "0 \<le> \<lfloor>v\<rfloor>" and "\<lfloor>v\<rfloor> < 256" by (simp_all add: floor_less_iff)
  then have "\<lfloor>v\<rfloor> mod 256 = \<lfloor>v\<rfloor>" by simp
  with \<open>0 \<le> v\<close> show ?thesis by (simp add: astype_uint8_def)
qed

text \<open>
  C1. When \<open>__call__\<close> returns, for tiles of any pad shapes \<open>(h0, w0)\<close>, \<open>(h1, w1)\<close>,
  \<open>(h2, w2)\<close>, \<open>(h3, w3)\<close>: the shape it reports (\<open>img_shape\<close> and \<open>ori_shape\<close>) has
  height \<open>max h0 h1 + max h2 h3\<close> and width \<open>max w0 w2 + max w1 w3\<close>, that is
  \<open>yc\<close> plus the taller of the bottom tiles and \<open>xc\<close> plus the wider of the right
  tiles, and every image of the result has that shape.
\<close>

theorem mosaic_canvas_size:
  assumes "mosaic_call pad_val t0 t1 t2 t3 = Inr out"
    and "pad_shape t0 = Some (h0, w0, c0)" and "pad_shape t1 = Some (h1, w1, c1)"
    and "pad_shape t2 = Some (h2, w2, c2)" and "pad_shape t3 = Some (h3, w3, c3)"
  shows "img_shape out = (max h0 h1 + max h2 h3, max w0 w2 + max w1 w3, c0)
       \<and> ori_shape out = (max h0 h1 + max h2 h3, max w0 w2 + max w1 w3, c0)
       \<and> (\<forall>key \<in> set (out_img_fields out).
             \<exists>a. dict_get (out_images out) key = Some a
                \<and> shape a = (max h0 h1 + max h2 h3, max w0 w2 + max w1 w3, c0))"
proof -
  from mosaic_call_Inr [OF assms]
  have "img_shape out = (max h0 h1 + max h2 h3, max w0 w2 + max w1 w3, c0)"
    and "ori_shape out = (max h0 h1 + max h2 h3, max w0 w2 + max w1 w3, c0)"
    by auto
  moreover have "\<exists>a. dict_get (out_images out) key = Some a
        \<and> shape a = (max h0 h1 + max h2 h3, max w0 w2 + max w1 w3, c0)"
    if "key \<in> set (out_img_fields out)" for key
    using mosaic_call_image [OF assms that] by (auto simp: mosaic_canvas_shape)
  ultimately show ?thesis
    by blast
qed

lemma mosaic_call_boxes:
  assumes call: "mosaic_call pad_val t0 t1 t2 t3 = Inr out"
    and sh: "pad_shape t0 = Some (h0, w0, c0)" "pad_shape t1 = Some (h1, w1, c1)"
      "pad_shape t2 = Some (h2, w2, c2)" "pad_shape t3 = Some (h3, w3, c3)"
    and same: "get_fields (bbox_fields t1) = get_fields (bbox_fields t0)"
      "get_fields (bbox_fields t2) = get_fields (bbox_fields t0)"
      "get_fields (bbox_fields t3) = get_fields (bbox_fields t0)"
    and once: "distinct (get_fields (bbox_fields t0))"
  shows "out_bbox_fields out = get_fields (bbox_fields t0)"
    and "key \<in> set (out_bbox_fields out) \<Longrightarrow>
      \<exists>b0 b1 b2 b3.
         dict_get (bboxes t0) key = Some b0 \<and> dict_get (bboxes t1) key = Some b1
       \<and> dict_get (bboxes t2) key = Some b2 \<and> dict_get (bboxes t3) key = Some b3
       \<and> dict_get (out_bboxes out) key =
           Some (map (shift_row (real (max w0 w2 - w0)) (real (max h0 h1 - h0))) b0
               @ map (shift_row (real (max w0 w2)) (real (max h0 h1 - h1))) b1
               @ map (shift_row (real (max w0 w2 - w2)) (real (max h0 h1))) b2
               @ map (shift_row (real (max w0 w2)) (real (max h0 h1))) b3)"
    and "\<exists>l0 l1 l2 l3. gt_labels t0 = Some l0 \<and> gt_labels t1 = Some l1
           \<and> gt_labels t2 = Some l2 \<and> gt_labels t3 = Some l3
           \<and> out_gt_labels out = l0 @ l1 @ l2 @ l3"
proof -
  let ?keys = "get_fields (img_fields t0)"
  let ?yc = "max h0 h1" and ?xc = "max w0 w2"
  let ?cv0 = "new_canvas ?keys (?yc + max h2 h3, ?xc + max w1 w3, c0) pad_val []"
  let ?bf = "get_fields (bbox_fields t0)"
  from mosaic_call_Inr [OF call sh] obtain canvas' rs bbs labels
    where tiles: "place_tiles ?keys ?xc ?yc ?cv0 [(0, t0), (1, t1), (2, t2), (3, t3)] = Inr (canvas', rs)"
      and bbs: "output_bboxes (get_fields (bbox_fields (hd rs))) rs [] = Inr bbs"
      and labels: "concat_labels rs = Inr labels"
      and out: "out_bbox_fields out = get_fields (bbox_fields (hd rs))" "out_bboxes out = bbs"
        "out_gt_labels out = labels"
    by auto
  from place_tiles_4 [OF tiles sh] same obtain r0 r1 r2 r3
    where r0: "shift_bboxes ?bf t0 (?xc - w0) (?yc - h0) = Inr r0"
      and r1: "shift_bboxes ?bf t1 ?xc (?yc - h1) = Inr r1"
      and r2: "shift_bboxes ?bf t2 (?xc - w2) ?yc = Inr r2"
      and r3: "shift_bboxes ?bf t3 ?xc ?yc = Inr r3"
      and rs: "rs = [r0, r1, r2, r3]"
    by auto
  from shift_bboxes_frame [OF r0] rs out(1) show f: "out_bbox_fields out = ?bf"
    by simp
  from shift_bboxes_frame [OF r0] shift_bboxes_frame [OF r1] shift_bboxes_frame [OF r2]
    shift_bboxes_frame [OF r3] concat_labels_4 [OF labels [unfolded rs]] out(3)
  show "\<exists>l0 l1 l2 l3. gt_labels t0 = Some l0 \<and> gt_labels t1 = Some l1
           \<and> gt_labels t2 = Some l2 \<and> gt_labels t3 = Some l3
           \<and> out_gt_labels out = l0 @ l1 @ l2 @ l3"
    by simp
  assume "key \<in> set (out_bbox_fields out)"
  with f have k: "key \<in> set ?bf" by simp
  with once have c: "count_list ?bf key = 1"
    by (simp add: count_list_distinct)
  from f out(1) have "get_fields (bbox_fields (hd rs)) = ?bf" by simp
  with output_bboxes_result [OF bbs, of key] k obtain b
    where b: "concat_bboxes key rs = Inr b" "dict_get bbs key = Some b"
    by auto
  from concat_bboxes_4 [OF b(1) [unfolded rs]] obtain b0' b1' b2' b3'
    where b': "dict_get (bboxes r0) key = Some b0'" "dict_get (bboxes r1) key = Some b1'"
      "dict_get (bboxes r2) key = Some b2'" "dict_get (bboxes r3) key = Some b3'"
      "b = b0' @ b1' @ b2' @ b3'"
    by blast
  have once_shifted: "\<exists>b. dict_get (bboxes t) key = Some b \<and> b' = map (shift_row (real x1) (real y1)) b"
    if "shift_bboxes ?bf t x1 y1 = Inr r" and "dict_get (bboxes r) key = Some b'" for t x1 y1 r b'
    using shift_bboxes_result [OF that(1), of key] that(2) c
    by (cases "dict_get (bboxes t) key") auto
  from once_shifted [OF r0 b'(1)] once_shifted [OF r1 b'(2)] once_shifted [OF r2 b'(3)]
    once_shifted [OF r3 b'(4)] b'(5) b(2) out(2)
  show "\<exists>b0 b1 b2 b3.
         dict_get (bboxes t0) key = Some b0 \<and> dict_get (bboxes t1) key = Some b1
       \<and> dict_get (bboxes t2) key = Some b2 \<and> dict_get (bboxes t3) key = Some b3
       \<and> dict_get (out_bboxes out) key =
           Some (map (shift_row (real (?xc - w0)) (real (?yc - h0))) b0
               @ map (shift_row (real ?xc) (real (?yc - h1))) b1
               @ map (shift_row (real (?xc - w2)) (real ?yc)) b2
               @ map (shift_row (real ?xc) (real ?yc)) b3)"
    by blast
qed

lemma mosaic_call_shapes:
  "mosaic_call pad_val t0 t1 t2 t3 = Inr out \<Longrightarrow>
   \<exists>h0 w0 c0 h1 w1 c1 h2 w2 c2 h3 w3 c3.
      pad_shape t0 = Some (h0, w0, c0) \<and> pad_shape t1 = Some (h1, w1, c1)
    \<and> pad_shape t2 = Some (h2, w2, c2) \<and> pad_shape t3 = Some (h3, w3, c3)"
  by (auto simp: mosaic_call_def split: option.splits)

lemma px_mosaic_canvas_join:
  assumes "yc = max h0 h1" and "xc = max w0 w2"
  shows "px (mosaic_canvas pad_val (h0, w0) (h1, w1) (h2, w2) (h3, w3) c v0 v1 v2 v3) r q k =
     (if yc \<le> r \<and> r < yc + h3 \<and> xc \<le> q \<and> q < xc + w3
      then astype_uint8 (px v3 (bidx (fst (shape v3)) (r - yc))
                               (bidx (fst (snd (shape v3))) (q - xc))
                               (bidx (snd (snd (shape v3))) k))
      else if yc \<le> r \<and> r < yc + h2 \<and> xc - w2 \<le> q \<and> q < xc
      then astype_uint8 (px v2 (bidx (fst (shape v2)) (r - yc))
                               (bidx (fst (snd (shape v2))) (q - (xc - w2)))
                               (bidx (snd (snd (shape v2))) k))
      else if yc - h1 \<le> r \<and> r < yc \<and> xc \<le> q \<and> q < xc + w1
      then astype_uint8 (px v1 (bidx (fst (shape v1)) (r - (yc - h1)))
                               (bidx (fst (snd (shape v1))) (q - xc))
                               (bidx (snd (snd (shape v1))) k))
      else if yc - h0 \<le> r \<and> r < yc \<and> xc - w0 \<le> q \<and> q < xc
      then astype_uint8 (px v0 (bidx (fst (shape v0)) (r - (yc - h0)))
                               (bidx (fst (snd (shape v0))) (q - (xc - w0)))
                               (bidx (snd (snd (shape v0))) k))
      else astype_uint8 pad_val)"
  unfolding assms by (rule px_mosaic_canvas)

lemma px_in_tile0:
  assumes "yc = max h0 h1" and "xc = max w0 w2"
    and "yc - h0 \<le> R" and "R < yc" and "xc - w0 \<le> Q" and "Q < xc"
  shows "px (mosaic_canvas pad_val (h0, w0) (h1, w1) (h2, w2) (h3, w3) c v0 v1 v2 v3) R Q k =
           astype_uint8 (px v0 (bidx (fst (shape v0)) (R - (yc - h0)))
                               (bidx (fst (snd (shape v0))) (Q - (xc - w0)))
                               (bidx (snd (snd (shape v0))) k))"
  using assms(3-) by (simp add: px_mosaic_canvas_join [OF assms(1,2)])

lemma px_in_tile1:
  assumes "yc = max h0 h1" and "xc = max w0 w2"
    and "yc - h1 \<le> R" and "R < yc" and "xc \<le> Q" and "Q < xc + w1"
  shows "px (mosaic_canvas pad_val (h0, w0) (h1, w1) (h2, w2) (h3, w3) c v0 v1 v2 v3) R Q k =
           astype_uint8 (px v1 (bidx (fst (shape v1)) (R - (yc - h1)))
                               (bidx (fst (snd (shape v1))) (Q - xc))
                               (bidx (snd (snd (shape v1))) k))"
  using assms(3-) by (simp add: px_mosaic_canvas_join [OF assms(1,2)])

lemma px_in_tile2:
  assumes "yc = max h0 h1" and "xc = max w0 w2"
    and "yc \<le> R" and "R < yc + h2" and "xc - w2 \<le> Q" and "Q < xc"
  shows "px (mosaic_canvas pad_val (h0, w0) (h1, w1) (h2, w2) (h3, w3) c v0 v1 v2 v3) R Q k =
           astype_uint8 (px v2 (bidx (fst (shape v2)) (R - yc))
                               (bidx (fst (snd (shape v2))) (Q - (xc - w2)))
                               (bidx (snd (snd (shape v2))) k))"
  using assms(3-) by (simp add: px_mosaic_canvas_join [OF assms(1,2)])

lemma px_in_tile3:
  assumes "yc = max h0 h1" and "xc = max w0 w2"
    and "yc \<le> R" and "R < yc + h3" and "xc \<le> Q" and "Q < xc + w3"
  shows "px (mosaic_canvas pad_val (h0, w0) (h1, w1) (h2, w2) (h3, w3) c v0 v1 v2 v3) R Q k =
           astype_uint8 (px v3 (bidx (fst (shape v3)) (R - yc))
                               (bidx (fst (snd (shape v3))) (Q - xc))
                               (bidx (snd (snd (shape v3))) k))"
  using assms(3-) by (simp add: px_mosaic_canvas_join [OF assms(1,2)])

lemma px_tile0:
  assumes "yc = max h0 h1" and "xc = max w0 w2" and "shape v0 = (h0, w0, c)"
    and "r < h0" and "q < w0" and "k < c"
  shows "px (mosaic_canvas pad_val (h0, w0) (h1, w1) (h2, w2) (h3, w3) c v0 v1 v2 v3)
            (yc - h0 + r) (xc - w0 + q) k = astype_uint8 (px v0 r q k)"
proof -
  from assms(1,2) have le: "h0 \<le> yc" "w0 \<le> xc" by simp_all
  with assms(4,5) have "yc - h0 \<le> yc - h0 + r" "yc - h0 + r < yc"
      "xc - w0 \<le> xc - w0 + q" "xc - w0 + q < xc"
    by arith+
  from px_in_tile0 [OF assms(1,2) this] assms(3-) show ?thesis
    by (simp add: bidx_less)
qed

lemma px_tile1:
  assumes "yc = max h0 h1" and "xc = max w0 w2" and "shape v1 = (h1, w1, c)"
    and "r < h1" and "q < w1" and "k < c"
  shows "px (mosaic_canvas pad_val (h0, w0) (h1, w1) (h2, w2) (h3, w3) c v0 v1 v2 v3)
            (yc - h1 + r) (xc + q) k = astype_uint8 (px v1 r q k)"
proof -
  from assms(1) have le: "h1 \<le> yc" by simp
  with assms(4,5) have "yc - h1 \<le> yc - h1 + r" "yc - h1 + r < yc" "xc \<le> xc + q" "xc + q < xc + w1"
    by arith+
  from px_in_tile1 [OF assms(1,2) this] assms(3-) show ?thesis
    by (simp add: bidx_less)
qed

lemma px_tile2:
  assumes "yc = max h0 h1" and "xc = max w0 w2" and "shape v2 = (h2, w2, c)"
    and "r < h2" and "q < w2" and "k < c"
  shows "px (mosaic_canvas pad_val (h0, w0) (h1, w1) (h2, w2) (h3, w3) c v0 v1 v2 v3)
            (yc + r) (xc - w2 + q) k = astype_uint8 (px v2 r q k)"
proof -
  from assms(2) have le: "w2 \<le> xc" by simp
  with assms(4,5) have "yc \<le> yc + r" "yc + r < yc + h2" "xc - w2 \<le> xc - w2 + q" "xc - w2 + q < xc"
    by arith+
  from px_in_tile2 [OF assms(1,2) this] assms(3-) show ?thesis
    by (simp add: bidx_less)
qed

lemma px_tile3:
  assumes "yc = max h0 h1" and "xc = max w0 w2" and "shape v3 = (h3, w3, c)"
    and "r < h3" and "q < w3" and "k < c"
  shows "px (mosaic_canvas pad_val (h0, w0) (h1, w1) (h2, w2) (h3, w3) c v0 v1 v2 v3)
            (yc + r) (xc + q) k = astype_uint8 (px v3 r q k)"
proof -
  from assms(4,5) have "yc \<le> yc + r" "yc + r < yc + h3" "xc \<le> xc + q" "xc + q < xc + w3"
    by arith+
  from px_in_tile3 [OF assms(1,2) this] assms(3-) show ?thesis
    by (simp add: bidx_less)
qed

lemma mosaic_call_boxes_listed:
  assumes call: "mosaic_call pad_val t0 t1 t2 t3 = Inr out"
    and sh: "pad_shape t0 = Some (h0, w0, c0)" "pad_shape t1 = Some (h1, w1, c1)"
      "pad_shape t2 = Some (h2, w2, c2)" "pad_shape t3 = Some (h3, w3, c3)"
  shows "out_bbox_fields out = get_fields (bbox_fields t0)"
    and "key \<in> set (out_bbox_fields out) \<Longrightarrow>
      \<exists>b0 b1 b2 b3.
         dict_get (bboxes t0) key = Some b0 \<and> dict_get (bboxes t1) key = Some b1
       \<and> dict_get (bboxes t2) key = Some b2 \<and> dict_get (bboxes t3) key = Some b3
       \<and> dict_get (out_bboxes out) key =
           Some ((map (shift_row (real (max w0 w2 - w0)) (real (max h0 h1 - h0)))
                    ^^ count_list (get_fields (bbox_fields t0)) key) b0
               @ (map (shift_row (real (max w0 w2)) (real (max h0 h1 - h1)))
                    ^^ count_list (get_fields (bbox_fields t1)) key) b1
               @ (map (shift_row (real (max w0 w2 - w2)) (real (max h0 h1)))
                    ^^ count_list (get_fields (bbox_fields t2)) key) b2
               @ (map (shift_row (real (max w0 w2)) (real (max h0 h1)))
                    ^^ count_list (get_fields (bbox_fields t3)) key) b3)"
proof -
  let ?keys = "get_fields (img_fields t0)"
  let ?yc = "max h0 h1" and ?xc = "max w0 w2"
  let ?cv0 = "new_canvas ?keys (?yc + max h2 h3, ?xc + max w1 w3, c0) pad_val []"
  from mosaic_call_Inr [OF call sh] obtain canvas' rs bbs labels
    where tiles: "place_tiles ?keys ?xc ?yc ?cv0 [(0, t0), (1, t1), (2, t2), (3, t3)] = Inr (canvas', rs)"
      and bbs: "output_bboxes (get_fields (bbox_fields (hd rs))) rs [] = Inr bbs"
      and out: "out_bbox_fields out = get_fields (bbox_fields (hd rs))" "out_bboxes out = bbs"
    by auto
  from place_tiles_4 [OF tiles sh] obtain r0 r1 r2 r3
    where r0: "shift_bboxes (get_fields (bbox_fields t0)) t0 (?xc - w0) (?yc - h0) = Inr r0"
      and r1: "shift_bboxes (get_fields (bbox_fields t1)) t1 ?xc (?yc - h1) = Inr r1"
      and r2: "shift_bboxes (get_fields (bbox_fields t2)) t2 (?xc - w2) ?yc = Inr r2"
      and r3: "shift_bboxes (get_fields (bbox_fields t3)) t3 ?xc ?yc = Inr r3"
      and rs: "rs = [r0, r1, r2, r3]"
    by blast
  from shift_bboxes_frame [OF r0] rs out(1)
  show f: "out_bbox_fields out = get_fields (bbox_fields t0)"
    by simp
  assume "key \<in> set (out_bbox_fields out)"
  with out(1) have "key \<in> set (get_fields (bbox_fields (hd rs)))" by simp
  from output_bboxes_result [OF bbs this] obtain b
    where b: "concat_bboxes key rs = Inr b" "dict_get bbs key = Some b"
    by auto
  from concat_bboxes_4 [OF b(1) [unfolded rs]] obtain b0' b1' b2' b3'
    where b': "dict_get (bboxes r0) key = Some b0'" "dict_get (bboxes r1) key = Some b1'"
      "dict_get (bboxes r2) key = Some b2'" "dict_get (bboxes r3) key = Some b3'"
      "b = b0' @ b1' @ b2' @ b3'"
    by blast
  have shifted: "\<exists>b. dict_get (bboxes t) key = Some b
                  \<and> b' = (map (shift_row (real x1) (real y1)) ^^ count_list ks key) b"
    if "shift_bboxes ks t x1 y1 = Inr r" and "dict_get (bboxes r) key = Some b'" for ks t x1 y1 r b'
    using shift_bboxes_result [OF that(1), of key] that(2)
    by (cases "dict_get (bboxes t) key") auto
  from shifted [OF r0 b'(1)] shifted [OF r1 b'(2)] shifted [OF r2 b'(3)]
    shifted [OF r3 b'(4)] b'(5) b(2) out(2)
  show "\<exists>b0 b1 b2 b3.
         dict_get (bboxes t0) key = Some b0 \<and> dict_get (bboxes t1) key = Some b1
       \<and> dict_get (bboxes t2) key = Some b2 \<and> dict_get (bboxes t3) key = Some b3
       \<and> dict_get (out_bboxes out) key =
           Some ((map (shift_row (real (?xc - w0)) (real (?yc - h0)))
                    ^^ count_list (get_fields (bbox_fields t0)) key) b0
               @ (map (shift_row (real ?xc) (real (?yc - h1)))
                    ^^ count_list (get_fields (bbox_fields t1)) key) b1
               @ (map (shift_row (real (?xc - w2)) (real ?yc))
                    ^^ count_list (get_fields (bbox_fields t2)) key) b2
               @ (map (shift_row (real ?xc) (real ?yc))
                    ^^ count_list (get_fields (bbox_fields t3)) key) b3)"
    by blast
qed

text \<open>
  C2, as the code has it. When \<open>__call__\<close> returns, with the join point
  \<open>yc = max h0 h1\<close>, \<open>xc = max w0 w2\<close>: the box fields of the result are those of
  tile 0, and every box array of the result is the concatenation, in tile order, of the
  box arrays of the four tiles, where the rows of a tile have been shifted once for
  every time the tile lists the field in its own \<open>bbox_fields\<close>: once when it lists
  the field once, as the samples of one pipeline do, and not at all when it does not
  list it. The shift of tile 0 is by \<open>(xc - w0, yc - h0)\<close>, of tile 1 by
  \<open>(xc, yc - h1)\<close>, of tile 2 by \<open>(xc - w2, yc)\<close> and of tile 3 by \<open>(xc, yc)\<close>. A
  shifted row \<open>[xa, ya, xb, yb]\<close> holds the sums \<open>xa + x1\<close>, \<open>ya + y1\<close>, \<open>xb + x1\<close>,
  \<open>yb + y1\<close> as \<open>float32\<close> computes them: the exact sum rounded to a multiple of the
  step of \<open>float32\<close> at most half a step away. The sum is exact where the coordinate
  and the sum are integers of magnitude at most \<open>2 ^ 24\<close>. Every image of the result
  holds, from that same origin on, the image of each tile whose shape is its pad shape
  (with the channels of tile 0), value by value, converted to \<open>uint8\<close>.
\<close>

theorem mosaic_tiles_placed_boxes_shifted:
  assumes call: "mosaic_call pad_val t0 t1 t2 t3 = Inr out"
    and sh: "pad_shape t0 = Some (h0, w0, c0)" "pad_shape t1 = Some (h1, w1, c1)"
      "pad_shape t2 = Some (h2, w2, c2)" "pad_shape t3 = Some (h3, w3, c3)"
    and join: "yc = max h0 h1" "xc = max w0 w2"
  shows "out_bbox_fields out = get_fields (bbox_fields t0)
       \<and> (\<forall>key \<in> set (out_bbox_fields out).
           \<exists>b0 b1 b2 b3.
              dict_get (bboxes t0) key = Some b0 \<and> dict_get (bboxes t1) key = Some b1
            \<and> dict_get (bboxes t2) key = Some b2 \<and> dict_get (bboxes t3) key = Some b3
            \<and> dict_get (out_bboxes out) key =
                Some ((map (shift_row (real xc - real w0) (real yc - real h0))
                         ^^ count_list (get_fields (bbox_fields t0)) key) b0
                    @ (map (shift_row (real xc) (real yc - real h1))
                         ^^ count_list (get_fields (bbox_fields t1)) key) b1
                    @ (map (shift_row (real xc - real w2) (real yc))
                         ^^ count_list (get_fields (bbox_fields t2)) key) b2
                    @ (map (shift_row (real xc) (real yc))
                         ^^ count_list (get_fields (bbox_fields t3)) key) b3))
       \<and> (\<forall>dx dy xa ya xb yb.
             shift_row dx dy [xa, ya, xb, yb] =
               [round_f32 (xa + round_f32 dx), round_f32 (ya + round_f32 dy),
                round_f32 (xb + round_f32 dx), round_f32 (yb + round_f32 dy)])
       \<and> (\<forall>x. (\<exists>n. round_f32 x = of_int n * f32_step x)
              \<and> \<bar>round_f32 x - x\<bar> \<le> f32_step x / 2)
       \<and> (\<forall>a b. \<bar>b\<bar> \<le> 2 ^ 24 \<and> \<bar>a + b\<bar> \<le> 2 ^ 24 \<longrightarrow>
             round_f32 (of_int a + round_f32 (of_int b)) = of_int a + of_int b)
       \<and> (\<forall>key \<in> set (out_img_fields out).
           \<exists>a v0 v1 v2 v3.
              dict_get (out_images out) key = Some a
            \<and> dict_get (images t0) key = Some v0 \<and> dict_get (images t1) key = Some v1
            \<and> dict_get (images t2) key = Some v2 \<and> dict_get (images t3) key = Some v3
            \<and> (shape v0 = (h0, w0, c0) \<longrightarrow>
                 (\<forall>r q k. r < h0 \<and> q < w0 \<and> k < c0 \<longrightarrow>
                    px a (yc - h0 + r) (xc - w0 + q) k = astype_uint8 (px v0 r q k)))
            \<and> (shape v1 = (h1, w1, c0) \<longrightarrow>
                 (\<forall>r q k. r < h1 \<and> q < w1 \<and> k < c0 \<longrightarrow>
                    px a (yc - h1 + r) (xc + q) k = astype_uint8 (px v1 r q k)))
            \<and> (shape v2 = (h2, w2, c0) \<longrightarrow>
                 (\<forall>r q k. r < h2 \<and> q < w2 \<and> k < c0 \<longrightarrow>
                    px a (yc + r) (xc - w2 + q) k = astype_uint8 (px v2 r q k)))
            \<and> (shape v3 = (h3, w3, c0) \<longrightarrow>
                 (\<forall>r q k. r < h3 \<and> q < w3 \<and> k < c0 \<longrightarrow>
                    px a (yc + r) (xc + q) k = astype_uint8 (px v3 r q k))))"
proof -
  have d: "real (max w0 w2) - real w0 = real (max w0 w2 - w0)"
      "real (max h0 h1) - real h0 = real (max h0 h1 - h0)"
      "real (max h0 h1) - real h1 = real (max h0 h1 - h1)"
      "real (max w0 w2) - real w2 = real (max w0 w2 - w2)"
    by (simp_all add: of_nat_diff)
  have fields: "out_bbox_fields out = get_fields (bbox_fields t0)"
    by (rule mosaic_call_boxes_listed(1) [OF call sh])
  have boxes: "\<exists>b0 b1 b2 b3.
              dict_get (bboxes t0) key = Some b0 \<and> dict_get (bboxes t1) key = Some b1
            \<and> dict_get (bboxes t2) key = Some b2 \<and> dict_get (bboxes t3) key = Some b3
            \<and> dict_get (out_bboxes out) key =
                Some ((map (shift_row (real xc - real w0) (real yc - real h0))
                         ^^ count_list (get_fields (bbox_fields t0)) key) b0
                    @ (map (shift_row (real xc) (real yc - real h1))
                         ^^ count_list (get_fields (bbox_fields t1)) key) b1
                    @ (map (shift_row (real xc - real w2) (real yc))
                         ^^ count_list (get_fields (bbox_fields t2)) key) b2
                    @ (map (shift_row (real xc) (real yc))
                         ^^ count_list (get_fields (bbox_fields t3)) key) b3)"
    if "key \<in> set (out_bbox_fields out)" for key
    using mosaic_call_boxes_listed(2) [OF call sh that] unfolding join d .
  have rows: "shift_row dx dy [xa, ya, xb, yb] =
               [round_f32 (xa + round_f32 dx), round_f32 (ya + round_f32 dy),
                round_f32 (xb + round_f32 dx), round_f32 (yb + round_f32 dy)]"
    for dx dy xa ya xb yb
    by (simp add: add_f32_def)
  have near: "(\<exists>n. round_f32 x = of_int n * f32_step x) \<and> \<bar>round_f32 x - x\<bar> \<le> f32_step x / 2"
    for x
  proof
    show "\<exists>n. round_f32 x = of_int n * f32_step x"
    proof (cases "x = 0")
      case True
      then have "round_f32 x = of_int 0 * f32_step x" by (simp add: round_f32_def)
      then show ?thesis ..
    next
      case False
      then have "round_f32 x = of_int (round_half_even (x / f32_step x)) * f32_step x"
        by (simp add: round_f32_def)
      then show ?thesis ..
    qed
    show "\<bar>round_f32 x - x\<bar> \<le> f32_step x / 2"
      by (rule round_f32_nearest)
  qed
  have exact: "\<bar>b\<bar> \<le> 2 ^ 24 \<and> \<bar>a + b\<bar> \<le> 2 ^ 24 \<longrightarrow>
             round_f32 (of_int a + round_f32 (of_int b)) = of_int a + of_int b" for a b :: int
    using add_f32_of_int [of b a] by (simp add: add_f32_def)
  have imgs: "\<exists>a v0 v1 v2 v3.
              dict_get (out_images out) key = Some a
            \<and> dict_get (images t0) key = Some v0 \<and> dict_get (images t1) key = Some v1
            \<and> dict_get (images t2) key = Some v2 \<and> dict_get (images t3) key = Some v3
            \<and> (shape v0 = (h0, w0, c0) \<longrightarrow>
                 (\<forall>r q k. r < h0 \<and> q < w0 \<and> k < c0 \<longrightarrow>
                    px a (yc - h0 + r) (xc - w0 + q) k = astype_uint8 (px v0 r q k)))
            \<and> (shape v1 = (h1, w1, c0) \<longrightarrow>
                 (\<forall>r q k. r < h1 \<and> q < w1 \<and> k < c0 \<longrightarrow>
                    px a (yc - h1 + r) (xc + q) k = astype_uint8 (px v1 r q k)))
            \<and> (shape v2 = (h2, w2, c0) \<longrightarrow>
                 (\<forall>r q k. r < h2 \<and> q < w2 \<and> k < c0 \<longrightarrow>
                    px a (yc + r) (xc - w2 + q) k = astype_uint8 (px v2 r q k)))
            \<and> (shape v3 = (h3, w3, c0) \<longrightarrow>
                 (\<forall>r q k. r < h3 \<and> q < w3 \<and> k < c0 \<longrightarrow>
                    px a (yc + r) (xc + q) k = astype_uint8 (px v3 r q k)))"
    if key: "key \<in> set (out_img_fields out)" for key
  proof -
    from mosaic_call_image [OF call sh key] obtain v0 v1 v2 v3
      where v: "dict_get (images t0) key = Some v0" "dict_get (images t1) key = Some v1"
        "dict_get (images t2) key = Some v2" "dict_get (images t3) key = Some v3"
        and a: "dict_get (out_images out) key
             = Some (mosaic_canvas pad_val (h0, w0) (h1, w1) (h2, w2) (h3, w3) c0 v0 v1 v2 v3)"
      by blast
    let ?a = "mosaic_canvas pad_val (h0, w0) (h1, w1) (h2, w2) (h3, w3) c0 v0 v1 v2 v3"
    have p0: "shape v0 = (h0, w0, c0) \<longrightarrow>
                 (\<forall>r q k. r < h0 \<and> q < w0 \<and> k < c0 \<longrightarrow>
                    px ?a (yc - h0 + r) (xc - w0 + q) k = astype_uint8 (px v0 r q k))"
      by (intro impI allI, elim conjE) (rule px_tile0 [OF join])
    have p1: "shape v1 = (h1, w1, c0) \<longrightarrow>
                 (\<forall>r q k. r < h1 \<and> q < w1 \<and> k < c0 \<longrightarrow>
                    px ?a (yc - h1 + r) (xc + q) k = astype_uint8 (px v1 r q k))"
      by (intro impI allI, elim conjE) (rule px_tile1 [OF join])
    have p2: "shape v2 = (h2, w2, c0) \<longrightarrow>
                 (\<forall>r q k. r < h2 \<and> q < w2 \<and> k < c0 \<longrightarrow>
                    px ?a (yc + r) (xc - w2 + q) k = astype_uint8 (px v2 r q k))"
      by (intro impI allI, elim conjE) (rule px_tile2 [OF join])
    have p3: "shape v3 = (h3, w3, c0) \<longrightarrow>
                 (\<forall>r q k. r < h3 \<and> q < w3 \<and> k < c0 \<longrightarrow>
                    px ?a (yc + r) (xc + q) k = astype_uint8 (px v3 r q k))"
      by (intro impI allI, elim conjE) (rule px_tile3 [OF join])
    show ?thesis
      by (rule exI [of _ ?a], rule exI [of _ v0], rule exI [of _ v1], rule exI [of _ v2],
          rule exI [of _ v3]) (intro conjI a v p0 p1 p2 p3)
  qed
  show ?thesis
    by (intro conjI ballI allI fields boxes rows near exact imgs)
qed

lemma example_shapes:
  "pad_shape tile_a = Some (2, 3, 1)" "pad_shape tile_b = Some (1, 2, 1)"
  "pad_shape tile_c = Some (3, 1, 1)" "pad_shape tile_d = Some (2, 2, 1)"
  by (simp_all add: tile_a_def tile_b_def tile_c_def tile_d_def example_tile_def)

lemma example_fields:
  "get_fields (bbox_fields tile_b) = get_fields (bbox_fields tile_a)"
  "get_fields (bbox_fields tile_c) = get_fields (bbox_fields tile_a)"
  "get_fields (bbox_fields tile_d) = get_fields (bbox_fields tile_a)"
  "distinct (get_fields (bbox_fields tile_a))"
  by (simp_all add: tile_a_def tile_b_def tile_c_def tile_d_def example_tile_def get_fields_def)

lemma example_call:
  "\<exists>out. mosaic_call 114 tile_a tile_b tile_c tile_d = Inr out
         \<and> out_img_fields out = [''img''] \<and> out_bbox_fields out = [''gt_bboxes'']"
  by (simp add: mosaic_call_def tile_a_def tile_b_def tile_c_def tile_d_def example_tile_def
      get_fields_def canvas_shape_def tile_box_def setitem_def np_full_uint8_def paste_def
      broadcast_ok_def slice_len_def Let_def)

theorem mosaic_canvas_size_witness:
  "\<exists>out. mosaic_call 114 tile_a tile_b tile_c tile_d = Inr out
         \<and> img_shape out = (5, 5, 1) \<and> ori_shape out = (5, 5, 1)
         \<and> (\<exists>a. dict_get (out_images out) ''img'' = Some a \<and> shape a = (5, 5, 1))"
proof -
  from example_call obtain out where call: "mosaic_call 114 tile_a tile_b tile_c tile_d = Inr out"
    and f: "out_img_fields out = [''img'']"
    by blast
  note t = mosaic_canvas_size [OF call example_shapes]
  from t f have "img_shape out = (5, 5, 1)" "ori_shape out = (5, 5, 1)"
    "\<exists>a. dict_get (out_images out) ''img'' = Some a \<and> shape a = (5, 5, 1)"
    by simp_all
  with call show ?thesis
    by blast
qed

lemma example_listed:
  "count_list (get_fields (bbox_fields tile_a)) ''gt_bboxes'' = 1"
  "count_list (get_fields (bbox_fields tile_b)) ''gt_bboxes'' = 1"
  "count_list (get_fields (bbox_fields tile_c)) ''gt_bboxes'' = 1"
  "count_list (get_fields (bbox_fields tile_d)) ''gt_bboxes'' = 1"
  "count_list (get_fields (bbox_fields tile_b_unlisted)) ''gt_bboxes'' = 0"
  by (simp_all add: tile_a_def tile_b_def tile_c_def tile_d_def tile_b_unlisted_def
      example_tile_def get_fields_def)

lemma example_boxes:
  "dict_get (bboxes tile_a) ''gt_bboxes'' = Some [[0, 0, 2, 1]]"
  "dict_get (bboxes tile_b) ''gt_bboxes'' = Some [[0, 0, 1, 1], [1, 0, 2, 1]]"
  "dict_get (bboxes tile_c) ''gt_bboxes'' = Some []"
  "dict_get (bboxes tile_d) ''gt_bboxes'' = Some [[1 / 2, 1 / 2, 3 / 2, 2]]"
  "dict_get (bboxes tile_b_unlisted) ''gt_bboxes'' = Some [[0, 0, 1, 1], [1, 0, 2, 1]]"
  by (simp_all add: tile_a_def tile_b_def tile_c_def tile_d_def tile_b_unlisted_def
      example_tile_def)

theorem mosaic_tiles_placed_boxes_shifted_witness:
  "\<exists>out. mosaic_call 114 tile_a tile_b tile_c tile_d = Inr out
         \<and> out_bbox_fields out = [''gt_bboxes'']
         \<and> dict_get (out_bboxes out) ''gt_bboxes''
             = Some [[0, 0, 2, 1], [3, 1, 4, 2], [4, 1, 5, 2], [7 / 2, 5 / 2, 9 / 2, 4]]
         \<and> (\<exists>a. dict_get (out_images out) ''img'' = Some a
                \<and> px a 0 0 0 = 100 \<and> px a 1 4 0 = 201 \<and> px a 4 2 0 = 64 \<and> px a 2 3 0 = 1)"
proof -
  from example_call obtain out where call: "mosaic_call 114 tile_a tile_b tile_c tile_d = Inr out"
    and f: "out_img_fields out = [''img'']" "out_bbox_fields out = [''gt_bboxes'']"
    by blast
  have join: "(2::nat) = max 2 1" "(3::nat) = max 3 1"
    by simp_all
  note t = mosaic_tiles_placed_boxes_shifted [OF call example_shapes join]
  from t have bx: "\<forall>key \<in> set (out_bbox_fields out).
           \<exists>b0 b1 b2 b3.
              dict_get (bboxes tile_a) key = Some b0 \<and> dict_get (bboxes tile_b) key = Some b1
            \<and> dict_get (bboxes tile_c) key = Some b2 \<and> dict_get (bboxes tile_d) key = Some b3
            \<and> dict_get (out_bboxes out) key =
                Some ((map (shift_row (real 3 - real 3) (real 2 - real 2))
                         ^^ count_list (get_fields (bbox_fields tile_a)) key) b0
                    @ (map (shift_row (real 3) (real 2 - real 1))
                         ^^ count_list (get_fields (bbox_fields tile_b)) key) b1
                    @ (map (shift_row (real 3 - real 1) (real 2))
                         ^^ count_list (get_fields (bbox_fields tile_c)) key) b2
                    @ (map (shift_row (real 3) (real 2))
                         ^^ count_list (get_fields (bbox_fields tile_d)) key) b3)"
    by (elim conjE)
  from bx f(2) have "\<exists>b0 b1 b2 b3.
              dict_get (bboxes tile_a) ''gt_bboxes'' = Some b0
            \<and> dict_get (bboxes tile_b) ''gt_bboxes'' = Some b1
            \<and> dict_get (bboxes tile_c) ''gt_bboxes'' = Some b2
            \<and> dict_get (bboxes tile_d) ''gt_bboxes'' = Some b3
            \<and> dict_get (out_bboxes out) ''gt_bboxes'' =
                Some ((map (shift_row (real 3 - real 3) (real 2 - real 2))
                         ^^ count_list (get_fields (bbox_fields tile_a)) ''gt_bboxes'') b0
                    @ (map (shift_row (real 3) (real 2 - real 1))
                         ^^ count_list (get_fields (bbox_fields tile_b)) ''gt_bboxes'') b1
                    @ (map (shift_row (real 3 - real 1) (real 2))
                         ^^ count_list (get_fields (bbox_fields tile_c)) ''gt_bboxes'') b2
                    @ (map (shift_row (real 3) (real 2))
                         ^^ count_list (get_fields (bbox_fields tile_d)) ''gt_bboxes'') b3)"
    by simp
  then have boxes: "dict_get (out_bboxes out) ''gt_bboxes''
             = Some [[0, 0, 2, 1], [3, 1, 4, 2], [4, 1, 5, 2], [7 / 2, 5 / 2, 9 / 2, 4]]"
    by (simp add: example_boxes example_listed f32_eval)
  from t have im: "\<forall>key \<in> set (out_img_fields out).
           \<exists>a v0 v1 v2 v3.
              dict_get (out_images out) key = Some a
            \<and> dict_get (images tile_a) key = Some v0 \<and> dict_get (images tile_b) key = Some v1
            \<and> dict_get (images tile_c) key = Some v2 \<and> dict_get (images tile_d) key = Some v3
            \<and> (shape v0 = (2, 3, 1) \<longrightarrow>
                 (\<forall>r q k. r < 2 \<and> q < 3 \<and> k < 1 \<longrightarrow>
                    px a (2 - 2 + r) (3 - 3 + q) k = astype_uint8 (px v0 r q k)))
            \<and> (shape v1 = (1, 2, 1) \<longrightarrow>
                 (\<forall>r q k. r < 1 \<and> q < 2 \<and> k < 1 \<longrightarrow>
                    px a (2 - 1 + r) (3 + q) k = astype_uint8 (px v1 r q k)))
            \<and> (shape v2 = (3, 1, 1) \<longrightarrow>
                 (\<forall>r q k. r < 3 \<and> q < 1 \<and> k < 1 \<longrightarrow>
                    px a (2 + r) (3 - 1 + q) k = astype_uint8 (px v2 r q k)))
            \<and> (shape v3 = (2, 2, 1) \<longrightarrow>
                 (\<forall>r q k. r < 2 \<and> q < 2 \<and> k < 1 \<longrightarrow>
                    px a (2 + r) (3 + q) k = astype_uint8 (px v3 r q k)))"
    by (elim conjE)
  from im f(1) obtain a v0 v1 v2 v3
    where a: "dict_get (out_images out) ''img'' = Some a"
      and v: "dict_get (images tile_a) ''img'' = Some v0" "dict_get (images tile_b) ''img'' = Some v1"
        "dict_get (images tile_c) ''img'' = Some v2" "dict_get (images tile_d) ''img'' = Some v3"
      and p0: "shape v0 = (2, 3, 1) \<longrightarrow>
                 (\<forall>r q k. r < 2 \<and> q < 3 \<and> k < 1 \<longrightarrow>
                    px a (2 - 2 + r) (3 - 3 + q) k = astype_uint8 (px v0 r q k))"
      and p1: "shape v1 = (1, 2, 1) \<longrightarrow>
                 (\<forall>r q k. r < 1 \<and> q < 2 \<and> k < 1 \<longrightarrow>
                    px a (2 - 1 + r) (3 + q) k = astype_uint8 (px v1 r q k))"
      and p2: "shape v2 = (3, 1, 1) \<longrightarrow>
                 (\<forall>r q k. r < 3 \<and> q < 1 \<and> k < 1 \<longrightarrow>
                    px a (2 + r) (3 - 1 + q) k = astype_uint8 (px v2 r q k))"
      and p3: "shape v3 = (2, 2, 1) \<longrightarrow>
                 (\<forall>r q k. r < 2 \<and> q < 2 \<and> k < 1 \<longrightarrow>
                    px a (2 + r) (3 + q) k = astype_uint8 (px v3 r q k))"
    by auto
  from v have vs: "v0 = \<lparr>dtype = Float32, shape = (2, 3, 1), px = (\<lambda>r q k. 201 / 2 + 10 * real r + real q)\<rparr>"
      "v1 = \<lparr>dtype = UInt8, shape = (1, 2, 1), px = (\<lambda>r q k. 200 + 10 * real r + real q)\<rparr>"
      "v2 = \<lparr>dtype = Int64, shape = (3, 1, 1), px = (\<lambda>r q k. 300 + 10 * real r + real q)\<rparr>"
      "v3 = \<lparr>dtype = Float32, shape = (2, 2, 1), px = (\<lambda>r q k. 3 / 2 + 10 * real r + real q)\<rparr>"
    by (simp_all add: tile_a_def tile_b_def tile_c_def tile_d_def example_tile_def)
  have sv: "shape v0 = (2, 3, 1)" "shape v1 = (1, 2, 1)" "shape v2 = (3, 1, 1)" "shape v3 = (2, 2, 1)"
    by (simp_all add: vs)
  from p0 sv(1) have q0: "r < 2 \<and> q < 3 \<and> k < 1 \<longrightarrow>
      px a (2 - 2 + r) (3 - 3 + q) k = astype_uint8 (px v0 r q k)" for r q k
    by blast
  from p1 sv(2) have q1: "r < 1 \<and> q < 2 \<and> k < 1 \<longrightarrow>
      px a (2 - 1 + r) (3 + q) k = astype_uint8 (px v1 r q k)" for r q k
    by blast
  from p2 sv(3) have q2: "r < 3 \<and> q < 1 \<and> k < 1 \<longrightarrow>
      px a (2 + r) (3 - 1 + q) k = astype_uint8 (px v2 r q k)" for r q k
    by blast
  from p3 sv(4) have q3: "r < 2 \<and> q < 2 \<and> k < 1 \<longrightarrow>
      px a (2 + r) (3 + q) k = astype_uint8 (px v3 r q k)" for r q k
    by blast
  from q0 [of 0 0 0] have x0: "px a 0 0 0 = 100" by (simp add: vs astype_uint8_def)
  from q1 [of 0 1 0] have x1: "px a 1 4 0 = 201" by (simp add: vs astype_uint8_def)
  from q2 [of 2 0 0] have x2: "px a 4 2 0 = 64" by (simp add: vs astype_uint8_def)
  from q3 [of 0 0 0] have x3: "px a 2 3 0 = 1" by (simp add: vs astype_uint8_def)
  from call f(2) boxes a x0 x1 x2 x3 show ?thesis
    by blast
qed

lemma drift_call:
  "\<exists>out. mosaic_call 114 drift_tile drift_tile drift_tile drift_tile = Inr out
         \<and> out_bbox_fields out = [''gt_bboxes'']"
  by (simp add: mosaic_call_def drift_tile_def get_fields_def canvas_shape_def tile_box_def
      setitem_def np_full_uint8_def paste_def broadcast_ok_def slice_len_def Let_def)

lemma unlisted_call:
  "\<exists>out. mosaic_call 114 tile_a tile_b_unlisted tile_c tile_d = Inr out
         \<and> out_bbox_fields out = [''gt_bboxes'']"
  by (simp add: mosaic_call_def tile_a_def tile_b_def tile_b_unlisted_def tile_c_def tile_d_def
      example_tile_def get_fields_def canvas_shape_def tile_box_def setitem_def np_full_uint8_def
      paste_def broadcast_ok_def slice_len_def Let_def)

text \<open>
  Four samples as \<open>drift_tile\<close>, so that \<open>xc = yc = 320\<close>. The box of tile 1 starts
  at \<open>x = float32(0.1)\<close> and is shifted by \<open>x1 = 320\<close>: the result holds
  \<open>10489037 / 2 ^ 15\<close>, about 320.1000061, which is not the sum, about 320.1000000015.
  And with the tiles of the example, tile 1 not listing its box field: its two boxes
  stand in the result as they were, not shifted by \<open>(3, 1)\<close>.
\<close>

theorem mosaic_box_rounding_counterexample:
  "dict_get (bboxes drift_tile) ''gt_bboxes''
     = Some [[13421773 / 134217728, 13421773 / 134217728, 1 / 2, 1 / 2]]
   \<and> round_f32 (13421773 / 134217728) = 13421773 / 134217728
   \<and> pad_shape drift_tile = Some (320, 320, 3)
   \<and> (\<exists>out. mosaic_call 114 drift_tile drift_tile drift_tile drift_tile = Inr out
          \<and> dict_get (out_bboxes out) ''gt_bboxes''
              = Some [[13421773 / 134217728, 13421773 / 134217728, 1 / 2, 1 / 2],
                      [10489037 / 32768, 13421773 / 134217728, 641 / 2, 1 / 2],
                      [13421773 / 134217728, 10489037 / 32768, 1 / 2, 641 / 2],
                      [10489037 / 32768, 10489037 / 32768, 641 / 2, 641 / 2]])
   \<and> (10489037 / 32768 :: real) \<noteq> 13421773 / 134217728 + 320
   \<and> dict_get (bboxes tile_b_unlisted) ''gt_bboxes'' = Some [[0, 0, 1, 1], [1, 0, 2, 1]]
   \<and> (\<exists>out. mosaic_call 114 tile_a tile_b_unlisted tile_c tile_d = Inr out
          \<and> dict_get (out_bboxes out) ''gt_bboxes''
              = Some [[0, 0, 2, 1], [0, 0, 1, 1], [1, 0, 2, 1], [7 / 2, 5 / 2, 9 / 2, 4]])"
proof -
  have sh: "pad_shape drift_tile = Some (320, 320, 3)"
    and bs: "dict_get (bboxes drift_tile) ''gt_bboxes''
               = Some [[13421773 / 134217728, 13421773 / 134217728, 1 / 2, 1 / 2]]"
    and once: "count_list (get_fields (bbox_fields drift_tile)) ''gt_bboxes'' = 1"
    by (simp_all add: drift_tile_def get_fields_def)
  from drift_call obtain out
    where call: "mosaic_call 114 drift_tile drift_tile drift_tile drift_tile = Inr out"
      and f: "out_bbox_fields out = [''gt_bboxes'']"
    by blast
  from f have "''gt_bboxes'' \<in> set (out_bbox_fields out)" by simp
  from mosaic_call_boxes_listed(2) [OF call sh sh sh sh this]
  have "dict_get (out_bboxes out) ''gt_bboxes''
              = Some [[13421773 / 134217728, 13421773 / 134217728, 1 / 2, 1 / 2],
                      [10489037 / 32768, 13421773 / 134217728, 641 / 2, 1 / 2],
                      [13421773 / 134217728, 10489037 / 32768, 1 / 2, 641 / 2],
                      [10489037 / 32768, 10489037 / 32768, 641 / 2, 641 / 2]]"
    by (simp add: bs once f32_eval)
  with call have drift: "\<exists>out. mosaic_call 114 drift_tile drift_tile drift_tile drift_tile = Inr out
          \<and> dict_get (out_bboxes out) ''gt_bboxes''
              = Some [[13421773 / 134217728, 13421773 / 134217728, 1 / 2, 1 / 2],
                      [10489037 / 32768, 13421773 / 134217728, 641 / 2, 1 / 2],
                      [13421773 / 134217728, 10489037 / 32768, 1 / 2, 641 / 2],
                      [10489037 / 32768, 10489037 / 32768, 641 / 2, 641 / 2]]"
    by blast
  have shu: "pad_shape tile_b_unlisted = Some (1, 2, 1)"
    by (simp add: tile_b_unlisted_def tile_b_def example_tile_def)
  from unlisted_call obtain out'
    where call': "mosaic_call 114 tile_a tile_b_unlisted tile_c tile_d = Inr out'"
      and f': "out_bbox_fields out' = [''gt_bboxes'']"
    by blast
  from f' have "''gt_bboxes'' \<in> set (out_bbox_fields out')" by simp
  from mosaic_call_boxes_listed(2) [OF call' example_shapes(1) shu example_shapes(3,4) this]
  have "dict_get (out_bboxes out') ''gt_bboxes''
              = Some [[0, 0, 2, 1], [0, 0, 1, 1], [1, 0, 2, 1], [7 / 2, 5 / 2, 9 / 2, 4]]"
    by (simp add: example_boxes example_listed f32_eval)
  with call' have unlisted: "\<exists>out. mosaic_call 114 tile_a tile_b_unlisted tile_c tile_d = Inr out
          \<and> dict_get (out_bboxes out) ''gt_bboxes''
              = Some [[0, 0, 2, 1], [0, 0, 1, 1], [1, 0, 2, 1], [7 / 2, 5 / 2, 9 / 2, 4]]"
    by blast
  have ne: "(10489037 / 32768 :: real) \<noteq> 13421773 / 134217728 + 320"
    by simp
  from bs round_f32_tenth_fixed sh drift ne example_boxes(5) unlisted show ?thesis
    by (intro conjI)
qed

text \<open>
  C9. When \<open>__call__\<close> returns, for a box field in which every tile has as many boxes
  as it has labels: the labels of the result are the labels of the tiles concatenated
  in tile order 0, 1, 2, 3, the box array of the result has as many rows as there are
  labels, and row by row the box and the label at a position of the result are the
  (shifted) box and the label at one position of one tile.
\<close>

theorem mosaic_labels_follow_boxes:
  assumes call: "mosaic_call pad_val t0 t1 t2 t3 = Inr out"
    and sh: "pad_shape t0 = Some (h0, w0, c0)" "pad_shape t1 = Some (h1, w1, c1)"
      "pad_shape t2 = Some (h2, w2, c2)" "pad_shape t3 = Some (h3, w3, c3)"
    and same: "get_fields (bbox_fields t1) = get_fields (bbox_fields t0)"
      "get_fields (bbox_fields t2) = get_fields (bbox_fields t0)"
      "get_fields (bbox_fields t3) = get_fields (bbox_fields t0)"
    and once: "distinct (get_fields (bbox_fields t0))"
    and key: "key \<in> set (out_bbox_fields out)"
    and b: "dict_get (bboxes t0) key = Some b0" "dict_get (bboxes t1) key = Some b1"
      "dict_get (bboxes t2) key = Some b2" "dict_get (bboxes t3) key = Some b3"
    and l: "gt_labels t0 = Some l0" "gt_labels t1 = Some l1"
      "gt_labels t2 = Some l2" "gt_labels t3 = Some l3"
    and len: "length b0 = length l0" "length b1 = length l1"
      "length b2 = length l2" "length b3 = length l3"
  shows "out_gt_labels out = l0 @ l1 @ l2 @ l3
       \<and> (\<exists>bs. dict_get (out_bboxes out) key = Some bs
              \<and> length bs = length (out_gt_labels out)
              \<and> zip bs (out_gt_labels out) =
                  zip (map (shift_row (real (max w0 w2) - real w0) (real (max h0 h1) - real h0)) b0) l0
                @ zip (map (shift_row (real (max w0 w2)) (real (max h0 h1) - real h1)) b1) l1
                @ zip (map (shift_row (real (max w0 w2) - real w2) (real (max h0 h1))) b2) l2
                @ zip (map (shift_row (real (max w0 w2)) (real (max h0 h1))) b3) l3)"
proof -
  let ?s0 = "map (shift_row (real (max w0 w2) - real w0) (real (max h0 h1) - real h0)) b0"
  let ?s1 = "map (shift_row (real (max w0 w2)) (real (max h0 h1) - real h1)) b1"
  let ?s2 = "map (shift_row (real (max w0 w2) - real w2) (real (max h0 h1))) b2"
  let ?s3 = "map (shift_row (real (max w0 w2)) (real (max h0 h1))) b3"
  have d: "real (max w0 w2) - real w0 = real (max w0 w2 - w0)"
      "real (max h0 h1) - real h0 = real (max h0 h1 - h0)"
      "real (max h0 h1) - real h1 = real (max h0 h1 - h1)"
      "real (max w0 w2) - real w2 = real (max w0 w2 - w2)"
    by (simp_all add: of_nat_diff)
  from mosaic_call_boxes(3) [OF call sh same once] l
  have labels: "out_gt_labels out = l0 @ l1 @ l2 @ l3"
    by auto
  from mosaic_call_boxes(2) [OF call sh same once key] b
  have boxes: "dict_get (out_bboxes out) key = Some (?s0 @ ?s1 @ ?s2 @ ?s3)"
    unfolding d by auto
  from len have "length (?s0 @ ?s1 @ ?s2 @ ?s3) = length (l0 @ l1 @ l2 @ l3)"
    by simp
  moreover from len have "zip (?s0 @ ?s1 @ ?s2 @ ?s3) (l0 @ l1 @ l2 @ l3)
      = zip ?s0 l0 @ zip ?s1 l1 @ zip ?s2 l2 @ zip ?s3 l3"
    by simp
  ultimately show ?thesis
    using labels boxes by simp
qed

theorem mosaic_labels_follow_boxes_witness:
  "\<exists>out bs. mosaic_call 114 tile_a tile_b tile_c tile_d = Inr out
         \<and> out_gt_labels out = [5, 6, 7, 8]
         \<and> dict_get (out_bboxes out) ''gt_bboxes'' = Some bs
         \<and> length bs = length (out_gt_labels out)
         \<and> zip bs (out_gt_labels out) =
             [([0, 0, 2, 1], 5), ([3, 1, 4, 2], 6), ([4, 1, 5, 2], 7), ([7 / 2, 5 / 2, 9 / 2, 4], 8)]"
proof -
  from example_call obtain out where call: "mosaic_call 114 tile_a tile_b tile_c tile_d = Inr out"
    and f: "out_bbox_fields out = [''gt_bboxes'']"
    by blast
  from f have key: "''gt_bboxes'' \<in> set (out_bbox_fields out)"
    by simp
  have b: "dict_get (bboxes tile_a) ''gt_bboxes'' = Some [[0, 0, 2, 1]]"
      "dict_get (bboxes tile_b) ''gt_bboxes'' = Some [[0, 0, 1, 1], [1, 0, 2, 1]]"
      "dict_get (bboxes tile_c) ''gt_bboxes'' = Some []"
      "dict_get (bboxes tile_d) ''gt_bboxes'' = Some [[1 / 2, 1 / 2, 3 / 2, 2]]"
    and l: "gt_labels tile_a = Some [5]" "gt_labels tile_b = Some [6, 7]"
      "gt_labels tile_c = Some []" "gt_labels tile_d = Some [8]"
    by (simp_all add: tile_a_def tile_b_def tile_c_def tile_d_def example_tile_def)
  have len: "length [[0, 0, 2, 1 :: real]] = length [5 :: int]"
      "length [[0, 0, 1, 1], [1, 0, 2, 1 :: real]] = length [6, 7 :: int]"
      "length ([] :: real list list) = length ([] :: int list)"
      "length [[1 / 2, 1 / 2, 3 / 2, 2 :: real]] = length [8 :: int]"
    by simp_all
  from mosaic_labels_follow_boxes [OF call example_shapes example_fields key b l len] call
  show ?thesis
    by (auto simp: f32_eval)
qed

text \<open>
  C10. Whenever \<open>__call__\<close> returns, with the join point \<open>yc = max h0 h1\<close>,
  \<open>xc = max w0 w2\<close>: every image of the result has dtype \<open>uint8\<close> and holds
  integers from 0 to 255 only, whatever the dtypes of the images of the tiles. Its value
  at row \<open>r\<close>, column \<open>q\<close> and channel \<open>k\<close> is, inside the box of a tile, the value
  the image of that tile has at the same place counted from the origin of the box (at
  index 0 along an axis of length 1, which numpy broadcasts), converted to \<open>uint8\<close>,
  and outside the four boxes the pad value, converted to \<open>uint8\<close>. The conversion
  drops the fraction of a value between 0 and 256 and reduces an integer value modulo
  256.
\<close>

theorem mosaic_images_uint8:
  assumes call: "mosaic_call pad_val t0 t1 t2 t3 = Inr out"
    and sh: "pad_shape t0 = Some (h0, w0, c0)" "pad_shape t1 = Some (h1, w1, c1)"
      "pad_shape t2 = Some (h2, w2, c2)" "pad_shape t3 = Some (h3, w3, c3)"
    and join: "yc = max h0 h1" "xc = max w0 w2"
  shows "(\<forall>key \<in> set (out_img_fields out).
           \<exists>a v0 v1 v2 v3.
              dict_get (out_images out) key = Some a
            \<and> dict_get (images t0) key = Some v0 \<and> dict_get (images t1) key = Some v1
            \<and> dict_get (images t2) key = Some v2 \<and> dict_get (images t3) key = Some v3
            \<and> dtype a = UInt8
            \<and> (\<forall>r q k. (\<exists>n<256. px a r q k = real n)
                  \<and> px a r q k =
                      (if yc \<le> r \<and> r < yc + h3 \<and> xc \<le> q \<and> q < xc + w3
                       then astype_uint8 (px v3 (bidx (fst (shape v3)) (r - yc))
                                                (bidx (fst (snd (shape v3))) (q - xc))
                                                (bidx (snd (snd (shape v3))) k))
                       else if yc \<le> r \<and> r < yc + h2 \<and> xc - w2 \<le> q \<and> q < xc
                       then astype_uint8 (px v2 (bidx (fst (shape v2)) (r - yc))
                                                (bidx (fst (snd (shape v2))) (q - (xc - w2)))
                                                (bidx (snd (snd (shape v2))) k))
                       else if yc - h1 \<le> r \<and> r < yc \<and> xc \<le> q \<and> q < xc + w1
                       then astype_uint8 (px v1 (bidx (fst (shape v1)) (r - (yc - h1)))
                                                (bidx (fst (snd (shape v1))) (q - xc))
                                                (bidx (snd (snd (shape v1))) k))
                       else if yc - h0 \<le> r \<and> r < yc \<and> xc - w0 \<le> q \<and> q < xc
                       then astype_uint8 (px v0 (bidx (fst (shape v0)) (r - (yc - h0)))
                                                (bidx (fst (snd (shape v0))) (q - (xc - w0)))
                                                (bidx (snd (snd (shape v0))) k))
                       else astype_uint8 pad_val)))
       \<and> (\<forall>v. 0 \<le> v \<and> v < 256 \<longrightarrow> astype_uint8 v = of_int \<lfloor>v\<rfloor>)
       \<and> (\<forall>i. astype_uint8 (of_int i) = of_int (i mod 256))"
proof -
  have imgs: "\<exists>a v0 v1 v2 v3.
              dict_get (out_images out) key = Some a
            \<and> dict_get (images t0) key = Some v0 \<and> dict_get (images t1) key = Some v1
            \<and> dict_get (images t2) key = Some v2 \<and> dict_get (images t3) key = Some v3
            \<and> dtype a = UInt8
            \<and> (\<forall>r q k. (\<exists>n<256. px a r q k = real n)
                  \<and> px a r q k =
                      (if yc \<le> r \<and> r < yc + h3 \<and> xc \<le> q \<and> q < xc + w3
                       then astype_uint8 (px v3 (bidx (fst (shape v3)) (r - yc))
                                                (bidx (fst (snd (shape v3))) (q - xc))
                                                (bidx (snd (snd (shape v3))) k))
                       else if yc \<le> r \<and> r < yc + h2 \<and> xc - w2 \<le> q \<and> q < xc
                       then astype_uint8 (px v2 (bidx (fst (shape v2)) (r - yc))
                                                (bidx (fst (snd (shape v2))) (q - (xc - w2)))
                                                (bidx (snd (snd (shape v2))) k))
                       else if yc - h1 \<le> r \<and> r < yc \<and> xc \<le> q \<and> q < xc + w1
                       then astype_uint8 (px v1 (bidx (fst (shape v1)) (r - (yc - h1)))
                                                (bidx (fst (snd (shape v1))) (q - xc))
                                                (bidx (snd (snd (shape v1))) k))
                       else if yc - h0 \<le> r \<and> r < yc \<and> xc - w0 \<le> q \<and> q < xc
                       then astype_uint8 (px v0 (bidx (fst (shape v0)) (r - (yc - h0)))
                                                (bidx (fst (snd (shape v0))) (q - (xc - w0)))
                                                (bidx (snd (snd (shape v0))) k))
                       else astype_uint8 pad_val))"
    if key: "key \<in> set (out_img_fields out)" for key
  proof -
    from mosaic_call_image [OF call sh key] obtain v0 v1 v2 v3
      where v: "dict_get (images t0) key = Some v0" "dict_get (images t1) key = Some v1"
        "dict_get (images t2) key = Some v2" "dict_get (images t3) key = Some v3"
        and a: "dict_get (out_images out) key
             = Some (mosaic_canvas pad_val (h0, w0) (h1, w1) (h2, w2) (h3, w3) c0 v0 v1 v2 v3)"
      by blast
    let ?a = "mosaic_canvas pad_val (h0, w0) (h1, w1) (h2, w2) (h3, w3) c0 v0 v1 v2 v3"
    have src: "\<exists>v. px ?a r q k = astype_uint8 v" for r q k
      unfolding px_mosaic_canvas by (simp only: split: if_split) blast
    have rng: "\<exists>n<256. px ?a r q k = real n" for r q k
      using src [of r q k] astype_uint8_range by metis
    have "\<forall>r q k. (\<exists>n<256. px ?a r q k = real n)
                  \<and> px ?a r q k =
                      (if yc \<le> r \<and> r < yc + h3 \<and> xc \<le> q \<and> q < xc + w3
                       then astype_uint8 (px v3 (bidx (fst (shape v3)) (r - yc))
                                                (bidx (fst (snd (shape v3))) (q - xc))
                                                (bidx (snd (snd (shape v3))) k))
                       else if yc \<le> r \<and> r < yc + h2 \<and> xc - w2 \<le> q \<and> q < xc
                       then astype_uint8 (px v2 (bidx (fst (shape v2)) (r - yc))
                                                (bidx (fst (snd (shape v2))) (q - (xc - w2)))
                                                (bidx (snd (snd (shape v2))) k))
                       else if yc - h1 \<le> r \<and> r < yc \<and> xc \<le> q \<and> q < xc + w1
                       then astype_uint8 (px v1 (bidx (fst (shape v1)) (r - (yc - h1)))
                                                (bidx (fst (snd (shape v1))) (q - xc))
                                                (bidx (snd (snd (shape v1))) k))
                       else if yc - h0 \<le> r \<and> r < yc \<and> xc - w0 \<le> q \<and> q < xc
                       then astype_uint8 (px v0 (bidx (fst (shape v0)) (r - (yc - h0)))
                                                (bidx (fst (snd (shape v0))) (q - (xc - w0)))
                                                (bidx (snd (snd (shape v0))) k))
                       else astype_uint8 pad_val)"
      by (intro allI conjI rng px_mosaic_canvas_join [OF join])
    then show ?thesis
      by (intro exI [of _ ?a] exI [of _ v0] exI [of _ v1] exI [of _ v2] exI [of _ v3] conjI a v
          mosaic_canvas_dtype)
  qed
  have trunc: "\<forall>v. 0 \<le> v \<and> v < 256 \<longrightarrow> astype_uint8 v = of_int \<lfloor>v\<rfloor>"
    by (simp add: astype_uint8_in_range)
  have wrap: "\<forall>i. astype_uint8 (of_int i) = of_int (i mod 256)"
    by (simp add: astype_uint8_def)
  from imgs trunc wrap show ?thesis
    by (intro conjI ballI)
qed

lemma example_images:
  "dict_get (images tile_a) ''img''
     = Some \<lparr>dtype = Float32, shape = (2, 3, 1), px = (\<lambda>r q k. 201 / 2 + 10 * real r + real q)\<rparr>"
  "dict_get (images tile_b) ''img''
     = Some \<lparr>dtype = UInt8, shape = (1, 2, 1), px = (\<lambda>r q k. 200 + 10 * real r + real q)\<rparr>"
  "dict_get (images tile_c) ''img''
     = Some \<lparr>dtype = Int64, shape = (3, 1, 1), px = (\<lambda>r q k. 300 + 10 * real r + real q)\<rparr>"
  "dict_get (images tile_d) ''img''
     = Some \<lparr>dtype = Float32, shape = (2, 2, 1), px = (\<lambda>r q k. 3 / 2 + 10 * real r + real q)\<rparr>"
  by (simp_all add: tile_a_def tile_b_def tile_c_def tile_d_def example_tile_def)

theorem mosaic_images_uint8_witness:
  "map (\<lambda>t. map_option dtype (dict_get (images t) ''img'')) [tile_a, tile_b, tile_c, tile_d]
     = [Some Float32, Some UInt8, Some Int64, Some Float32]
   \<and> (\<exists>out a. mosaic_call 114 tile_a tile_b tile_c tile_d = Inr out
         \<and> dict_get (out_images out) ''img'' = Some a
         \<and> dtype a = UInt8
         \<and> px a 0 0 0 = 100 \<and> px a 1 2 0 = 112 \<and> px a 1 4 0 = 201 \<and> px a 4 2 0 = 64
         \<and> px a 2 3 0 = 1 \<and> px a 3 4 0 = 12 \<and> px a 0 3 0 = 114 \<and> px a 4 0 0 = 114)
   \<and> astype_uint8 (201 / 2) = 100
   \<and> astype_uint8 320 = 64"
proof -
  from example_call obtain out where call: "mosaic_call 114 tile_a tile_b tile_c tile_d = Inr out"
    and f: "out_img_fields out = [''img'']"
    by blast
  have join: "(2::nat) = max 2 1" "(3::nat) = max 3 1"
    by simp_all
  note t = mosaic_images_uint8 [OF call example_shapes join]
  from t have "\<forall>key \<in> set (out_img_fields out).
           \<exists>a v0 v1 v2 v3.
              dict_get (out_images out) key = Some a
            \<and> dict_get (images tile_a) key = Some v0 \<and> dict_get (images tile_b) key = Some v1
            \<and> dict_get (images tile_c) key = Some v2 \<and> dict_get (images tile_d) key = Some v3
            \<and> dtype a = UInt8
            \<and> (\<forall>r q k. (\<exists>n<256. px a r q k = real n)
                  \<and> px a r q k =
                      (if 2 \<le> r \<and> r < 2 + 2 \<and> 3 \<le> q \<and> q < 3 + 2
                       then astype_uint8 (px v3 (bidx (fst (shape v3)) (r - 2))
                                                (bidx (fst (snd (shape v3))) (q - 3))
                                                (bidx (snd (snd (shape v3))) k))
                       else if 2 \<le> r \<and> r < 2 + 3 \<and> 3 - 1 \<le> q \<and> q < 3
                       then astype_uint8 (px v2 (bidx (fst (shape v2)) (r - 2))
                                                (bidx (fst (snd (shape v2))) (q - (3 - 1)))
                                                (bidx (snd (snd (shape v2))) k))
                       else if 2 - 1 \<le> r \<and> r < 2 \<and> 3 \<le> q \<and> q < 3 + 2
                       then astype_uint8 (px v1 (bidx (fst (shape v1)) (r - (2 - 1)))
                                                (bidx (fst (snd (shape v1))) (q - 3))
                                                (bidx (snd (snd (shape v1))) k))
                       else if 2 - 2 \<le> r \<and> r < 2 \<and> 3 - 3 \<le> q \<and> q < 3
                       then astype_uint8 (px v0 (bidx (fst (shape v0)) (r - (2 - 2)))
                                                (bidx (fst (snd (shape v0))) (q - (3 - 3)))
                                                (bidx (snd (snd (shape v0))) k))
                       else astype_uint8 114))"
    by (elim conjE)
  with f obtain a
    where a: "dict_get (out_images out) ''img'' = Some a" "dtype a = UInt8"
      and p: "\<And>r q k. px a r q k =
                      (if 2 \<le> r \<and> r < 2 + 2 \<and> 3 \<le> q \<and> q < 3 + 2
                       then astype_uint8 (3 / 2 + 10 * real (bidx 2 (r - 2)) + real (bidx 2 (q - 3)))
                       else if 2 \<le> r \<and> r < 2 + 3 \<and> 3 - 1 \<le> q \<and> q < 3
                       then astype_uint8 (300 + 10 * real (bidx 3 (r - 2)) + real (bidx 1 (q - (3 - 1))))
                       else if 2 - 1 \<le> r \<and> r < 2 \<and> 3 \<le> q \<and> q < 3 + 2
                       then astype_uint8 (200 + 10 * real (bidx 1 (r - (2 - 1))) + real (bidx 2 (q - 3)))
                       else if 2 - 2 \<le> r \<and> r < 2 \<and> 3 - 3 \<le> q \<and> q < 3
                       then astype_uint8 (201 / 2 + 10 * real (bidx 2 (r - (2 - 2))) + real (bidx 3 (q - (3 - 3))))
                       else astype_uint8 114)"
    by (auto simp: example_images)
  have x: "px a 0 0 0 = 100" "px a 1 2 0 = 112" "px a 1 4 0 = 201" "px a 4 2 0 = 64"
      "px a 2 3 0 = 1" "px a 3 4 0 = 12" "px a 0 3 0 = 114" "px a 4 0 0 = 114"
    by (simp_all add: p bidx_def astype_uint8_def)
  from t have tr: "0 \<le> v \<and> v < 256 \<longrightarrow> astype_uint8 v = of_int \<lfloor>v\<rfloor>" for v
    by blast
  from t have wr: "astype_uint8 (of_int i) = of_int (i mod 256)" for i
    by blast
  from tr [of "201 / 2"] have y: "astype_uint8 (201 / 2) = 100"
    by simp
  from wr [of 320] have z: "astype_uint8 320 = 64"
    by simp
  have d: "map (\<lambda>t. map_option dtype (dict_get (images t) ''img'')) [tile_a, tile_b, tile_c, tile_d]
     = [Some Float32, Some UInt8, Some Int64, Some Float32]"
    by (simp add: example_images)
  from call a x have "\<exists>out a. mosaic_call 114 tile_a tile_b tile_c tile_d = Inr out
         \<and> dict_get (out_images out) ''img'' = Some a
         \<and> dtype a = UInt8
         \<and> px a 0 0 0 = 100 \<and> px a 1 2 0 = 112 \<and> px a 1 4 0 = 201 \<and> px a 4 2 0 = 64
         \<and> px a 2 3 0 = 1 \<and> px a 3 4 0 = 12 \<and> px a 0 3 0 = 114 \<and> px a 4 0 0 = 114"
    by blast
  with d y z show ?thesis
    by (intro conjI)
qed

end
